(* ===== verification/Z86_Prelude.thy ===== *)
theory Z86_Prelude
  imports Main "HOL-Library.Word" "HOL-Library.Signed_Division"
begin

text \<open>
  Shared vocabulary of the development: the names of the machine integers of the
  emulator, the collections of simplification rules the component theories fill,
  and generic facts about words, bytes and little-endian reassembly that several
  components need.  Nothing in this theory models code of the repository.
\<close>

unbundle bit_operations_syntax

section \<open>Machine integers\<close>

type_synonym u8 = "8 word"
type_synonym u16 = "16 word"
type_synonym u32 = "32 word"
type_synonym u64 = "64 word"
type_synonym u128 = "128 word"

section \<open>Collections\<close>

named_theorems z86_defs "definitions of the small accessors, unfolded together"
named_theorems z86_frame "facts that an operation leaves a field alone"

section \<open>Words\<close>

lemma take_bit_8_byte [simp]: "take_bit 8 (b :: 8 word) = b"
  by (rule bit_word_eqI) (simp add: bit_take_bit_iff)

lemma take_bit_16_word [simp]: "take_bit 16 (b :: 16 word) = b"
  by (rule bit_word_eqI) (simp add: bit_take_bit_iff)

lemma ucast_ucast_8_16 [simp]: "ucast (ucast (b :: 8 word) :: 16 word) = b"
  by (rule bit_word_eqI) (auto simp: bit_ucast_iff)

lemma bit_ucast_word:
  "bit (ucast (x :: 'a::len word) :: 'b::len word) n \<longleftrightarrow> n < LENGTH('b) \<and> bit x n"
  by (auto simp: bit_ucast_iff dest: bit_imp_le_length)

lemma word_and_mask_low: "(x :: 'a::len word) AND mask n = take_bit n x"
  by (simp add: take_bit_eq_mask)

text \<open>The sign bit of a word decides whether its signed reading is negative.\<close>

lemma sint_neg_iff_msb: "sint (x :: 'a::len word) < 0 \<longleftrightarrow> bit x (LENGTH('a) - 1)"
  by (simp add: bit_last_iff)

lemma uint_lt_2p: "uint (x :: 'a::len word) < 2 ^ LENGTH('a)"
  by (rule uint_lt2p)

lemma uint_plus_carry:
  "uint (x + y :: 'a::len word) =
    (if uint x + uint y < 2 ^ LENGTH('a) then uint x + uint y
     else uint x + uint y - 2 ^ LENGTH('a))"
  by (simp add: uint_plus_if_size word_size)

lemma uint_minus_borrow:
  "uint (x - y :: 'a::len word) =
    (if uint y \<le> uint x then uint x - uint y
     else uint x - uint y + 2 ^ LENGTH('a))"
  by (simp add: uint_sub_if_size word_size)

section \<open>Splitting a 16 bit word into its bytes\<close>

definition lo8 :: "u16 \<Rightarrow> u8" where
  "lo8 x = ucast x"

definition hi8 :: "u16 \<Rightarrow> u8" where
  "hi8 x = ucast (drop_bit 8 x)"

definition mk16 :: "u8 \<Rightarrow> u8 \<Rightarrow> u16" where
  "mk16 h l = push_bit 8 (ucast h) OR ucast l"

lemma bit_lo8 [simp]: "bit (lo8 x) n \<longleftrightarrow> n < 8 \<and> bit x n"
  by (simp add: lo8_def bit_ucast_word)

lemma bit_hi8 [simp]: "bit (hi8 x) n \<longleftrightarrow> n < 8 \<and> bit x (n + 8)"
  by (auto simp: hi8_def bit_ucast_word bit_drop_bit_eq ac_simps)

lemma bit_mk16 [simp]:
  "bit (mk16 h l) n \<longleftrightarrow> n < 16 \<and> (if n < 8 then bit l n else bit h (n - 8))"
  by (auto simp: mk16_def bit_or_iff bit_push_bit_iff bit_ucast_word dest: bit_imp_le_length)

lemma lo8_mk16 [simp]: "lo8 (mk16 h l) = l"
  by (rule bit_word_eqI) simp

lemma hi8_mk16 [simp]: "hi8 (mk16 h l) = h"
  by (rule bit_word_eqI) simp

lemma mk16_hi8_lo8 [simp]: "mk16 (hi8 x) (lo8 x) = x"
  by (rule bit_word_eqI) auto

lemma mk16_eq_iff: "mk16 h l = mk16 h' l' \<longleftrightarrow> h = h' \<and> l = l'"
  by (metis hi8_mk16 lo8_mk16)

lemma uint_lo8: "uint (lo8 x) = uint x mod 256"
  by (simp add: lo8_def unsigned_ucast_eq take_bit_eq_mod)

lemma uint_hi8: "uint (hi8 x) = uint x div 256"
proof -
  have "uint x div 256 < 256" using uint_lt_2p [of x] by simp
  moreover have "0 \<le> uint x div 256" by (simp add: pos_imp_zdiv_nonneg_iff)
  ultimately show ?thesis
    by (simp add: hi8_def unsigned_ucast_eq take_bit_eq_mod unsigned_drop_bit_eq
        drop_bit_eq_div uint_div)
qed

lemma uint_mk16: "uint (mk16 h l) = uint h * 256 + uint l"
proof -
  have "uint (mk16 h l) = uint (mk16 h l) div 256 * 256 + uint (mk16 h l) mod 256"
    by simp
  also have "\<dots> = uint h * 256 + uint l"
    by (simp only: uint_hi8 [symmetric] uint_lo8 [symmetric] hi8_mk16 lo8_mk16)
  finally show ?thesis .
qed

section \<open>Storage cells\<close>

text \<open>
  A register, a flag word, a segment register and a word of memory are all used through the
  same three laws.  An instruction that reads its operand, changes it and writes it back needs
  nothing else about the operand.
\<close>

locale cell =
  fixes get :: "'s \<Rightarrow> 'v"
    and put :: "'v \<Rightarrow> 's \<Rightarrow> 's"
  assumes get_put: "get (put v s) = v"
    and put_put: "put v (put w s) = put v s"
    and put_get: "put (get s) s = s"
begin

lemma modify_get: "get (put (f (get s)) s) = f (get s)"
  by (rule get_put)

lemma modify_modify: "put (g (get (put (f (get s)) s))) (put (f (get s)) s) = put (g (f (get s))) s"
  by (simp add: get_put put_put)

lemma modify_inverse:
  assumes "\<And>x. g (f x) = x"
  shows "put (g (get (put (f (get s)) s))) (put (f (get s)) s) = s"
  by (simp add: get_put put_put assms put_get)

lemma put_inject: "put v s = put w s \<longleftrightarrow> v = w"
  by (metis get_put)

end

end
