(* ===== verification/Z86_Arith.thy ===== *)
theory Z86_Arith
  imports Z86_Prelude
begin

text \<open>
  The integer helpers of \<^verbatim>\<open>src/zero/custom_intrin.h\<close> and
  \<^verbatim>\<open>src/zero/util.h\<close> on which the emulator's arithmetic rests: overflow tests,
  add/subtract with carry, saturating arithmetic and the range test behind BOUND.
  The C++ templates are instantiated at unsigned or signed types of one width; here one
  definition per signedness, polymorphic in the width.  The overflow built-ins of the
  compiler are modelled by their documented meaning (the exact sum or difference does not
  fit the type); the fallback implementations the header carries for other compilers are
  modelled as they are written.
\<close>

section \<open>Overflow tests\<close>

definition smax :: "'a::len word itself \<Rightarrow> int" where
  "smax _ = 2 ^ (LENGTH('a) - 1) - 1"

definition smin :: "'a::len word itself \<Rightarrow> int" where
  "smin _ = - (2 ^ (LENGTH('a) - 1))"

definition add_would_overflow_u :: "'a::len word \<Rightarrow> 'a word \<Rightarrow> bool" where
  "add_would_overflow_u a b \<longleftrightarrow> 2 ^ LENGTH('a) \<le> uint a + uint b"

definition add_would_overflow_s :: "'a::len word \<Rightarrow> 'a word \<Rightarrow> bool" where
  "add_would_overflow_s a b \<longleftrightarrow>
     sint a + sint b < smin TYPE('a word) \<or> smax TYPE('a word) < sint a + sint b"

definition sub_would_overflow_u :: "'a::len word \<Rightarrow> 'a word \<Rightarrow> bool" where
  "sub_would_overflow_u a b \<longleftrightarrow> uint a - uint b < 0"

definition sub_would_overflow_s :: "'a::len word \<Rightarrow> 'a word \<Rightarrow> bool" where
  "sub_would_overflow_s a b \<longleftrightarrow>
     sint a - sint b < smin TYPE('a word) \<or> smax TYPE('a word) < sint a - sint b"

text \<open>
  The fallbacks compiled where \<^verbatim>\<open>__has_builtin(__builtin_add_overflow)\<close> is false:
  the result is stored and the flag returned.
\<close>

definition builtin_add_overflow_impl_u :: "'a::len word \<Rightarrow> 'a word \<Rightarrow> bool \<times> 'a word" where
  "builtin_add_overflow_impl_u a b = (let res = a + b in (a \<le> res, res))"

definition builtin_add_overflow_impl_s :: "'a::len word \<Rightarrow> 'a word \<Rightarrow> bool \<times> 'a word" where
  "builtin_add_overflow_impl_s a b =
     (if 0 < sint a then sint b \<le> smax TYPE('a word) - sint a
      else smin TYPE('a word) - sint a \<le> sint b,
      a + b)"

definition builtin_sub_overflow_impl_u :: "'a::len word \<Rightarrow> 'a word \<Rightarrow> bool \<times> 'a word" where
  "builtin_sub_overflow_impl_u a b = (let res = a - b in (res \<le> a, res))"

definition builtin_sub_overflow_impl_s :: "'a::len word \<Rightarrow> 'a word \<Rightarrow> bool \<times> 'a word" where
  "builtin_sub_overflow_impl_s a b =
     (if 0 < sint a then smax TYPE('a word) - sint a \<le> sint b
      else sint b \<le> smin TYPE('a word) - sint a,
      a - b)"

section \<open>Addition and subtraction with carry\<close>

text \<open>
  \<^verbatim>\<open>__builtin_addcb\<close> to \<^verbatim>\<open>__builtin_addcll\<close> are the same body at
  five widths; the carry operand is a word of the operand width.
\<close>

definition builtin_addc :: "'a::len word \<Rightarrow> 'a word \<Rightarrow> 'a word \<Rightarrow> 'a word \<times> 'a word" where
  "builtin_addc lhs rhs carry_in =
     (let s = lhs + rhs;
          c1 = add_would_overflow_u lhs rhs;
          s' = s + carry_in;
          c2 = add_would_overflow_u s carry_in
      in (s', of_bool c1 OR of_bool c2))"

definition builtin_subc :: "'a::len word \<Rightarrow> 'a word \<Rightarrow> 'a word \<Rightarrow> 'a word \<times> 'a word" where
  "builtin_subc lhs rhs carry_in =
     (let s = lhs - rhs;
          c1 = sub_would_overflow_u lhs rhs;
          s' = s - carry_in;
          c2 = sub_would_overflow_u s carry_in
      in (s', of_bool c1 OR of_bool c2))"

definition carry_add :: "'a::len word \<Rightarrow> 'a word \<Rightarrow> bool \<Rightarrow> 'a word \<times> bool" where
  "carry_add lhs rhs carry =
     (let (ret, carry_temp) = builtin_addc lhs rhs (of_bool carry) in (ret, carry_temp \<noteq> 0))"

definition carry_sub :: "'a::len word \<Rightarrow> 'a word \<Rightarrow> bool \<Rightarrow> 'a word \<times> bool" where
  "carry_sub lhs rhs carry =
     (let (ret, carry_temp) = builtin_subc lhs rhs (of_bool carry) in (ret, carry_temp \<noteq> 0))"

section \<open>Saturating arithmetic\<close>

definition saturate_add_s :: "'a::len word \<Rightarrow> 'a word \<Rightarrow> 'a word" where
  "saturate_add_s lhs rhs =
     (if \<not> add_would_overflow_s lhs rhs then lhs + rhs
      else drop_bit (LENGTH('a) - 1) rhs + word_of_int (smax TYPE('a word)))"

definition saturate_add_u :: "'a::len word \<Rightarrow> 'a word \<Rightarrow> 'a word" where
  "saturate_add_u lhs rhs = (let ret = lhs + rhs in if lhs \<le> ret then ret else - 1)"

definition saturate_sub_s :: "'a::len word \<Rightarrow> 'a word \<Rightarrow> 'a word" where
  "saturate_sub_s lhs rhs =
     (if \<not> sub_would_overflow_s lhs rhs then lhs - rhs
      else word_of_int (smin TYPE('a word)) - drop_bit (LENGTH('a) - 1) rhs)"

definition saturate_sub_u :: "'a::len word \<Rightarrow> 'a word \<Rightarrow> 'a word" where
  "saturate_sub_u lhs rhs = (let ret = lhs - rhs in if ret \<le> lhs then ret else 0)"

section \<open>Range test\<close>

definition in_range_inclusive :: "'a::len word \<Rightarrow> 'a word \<Rightarrow> 'a word \<Rightarrow> bool" where
  "in_range_inclusive v lo hi \<longleftrightarrow> v - lo \<le> hi - lo"

section \<open>Facts\<close>

lemma sint_bounds:
  "smin TYPE('a word) \<le> sint (x :: 'a::len word)" "sint x \<le> smax TYPE('a word)"
  using sint_range_size [of x] by (simp_all add: smin_def smax_def word_size)

lemma add_would_overflow_u_iff_less:
  "add_would_overflow_u (a :: 'a::len word) b \<longleftrightarrow> a + b < a"
  using uint_lt_2p [of a] uint_lt_2p [of b]
  by (auto simp: add_would_overflow_u_def word_less_def uint_plus_carry)

lemma sub_would_overflow_u_iff_less:
  "sub_would_overflow_u (a :: 'a::len word) b \<longleftrightarrow> a < b"
  by (simp add: sub_would_overflow_u_def word_less_def)

lemma of_bool_or_nonzero:
  "((of_bool p OR of_bool q :: 'a::len word) \<noteq> 0) \<longleftrightarrow> p \<or> q"
  by (cases p; cases q) auto

lemma carry_add_fst: "fst (carry_add x y c) = x + y + of_bool c"
  by (simp add: carry_add_def builtin_addc_def Let_def)

lemma carry_add_uint:
  fixes x y :: "'a::len word"
  shows "uint (fst (carry_add x y c)) + of_bool (snd (carry_add x y c)) * 2 ^ LENGTH('a)
           = uint x + uint y + of_bool c"
proof -
  have two: "2 \<le> (2::int) ^ LENGTH('a)"
    using power_increasing [of 1 "LENGTH('a)" "2::int"] by (simp add: Suc_leI)
  have bx: "uint x + 1 \<le> 2 ^ LENGTH('a)" and yb: "uint y + 1 \<le> 2 ^ LENGTH('a)"
    using uint_lt_2p [of x] uint_lt_2p [of y] by linarith+
  show ?thesis
    using bx yb two
    by (cases c)
      (auto simp: carry_add_def builtin_addc_def Let_def of_bool_or_nonzero
        add_would_overflow_u_def uint_plus_carry)
qed

lemma carry_sub_fst: "fst (carry_sub x y c) = x - y - of_bool c"
  by (simp add: carry_sub_def builtin_subc_def Let_def)

lemma carry_sub_uint:
  fixes x y :: "'a::len word"
  shows "uint (fst (carry_sub x y c)) - of_bool (snd (carry_sub x y c)) * 2 ^ LENGTH('a)
           = uint x - uint y - of_bool c"
proof -
  have two: "2 \<le> (2::int) ^ LENGTH('a)"
    using power_increasing [of 1 "LENGTH('a)" "2::int"] by (simp add: Suc_leI)
  have bx: "uint x + 1 \<le> 2 ^ LENGTH('a)" and yb: "uint y + 1 \<le> 2 ^ LENGTH('a)"
    using uint_lt_2p [of x] uint_lt_2p [of y] by linarith+
  have d: "1 \<le> uint x - uint y + 2 ^ LENGTH('a)"
    using yb uint_ge_0 [of x] by linarith
  show ?thesis
    using bx yb two d
    by (cases c)
      (auto simp: carry_sub_def builtin_subc_def Let_def of_bool_or_nonzero
        sub_would_overflow_u_def uint_minus_borrow)
qed

lemma add_would_overflow_u_zero [simp]: "\<not> add_would_overflow_u x 0"
  using uint_lt_2p [of x] by (simp add: add_would_overflow_u_iff_less)

lemma carry_add_no_carry: "carry_add x y False = (x + y, add_would_overflow_u x y)"
  by (simp add: carry_add_def builtin_addc_def Let_def of_bool_or_nonzero)

lemma carry_sub_no_carry: "carry_sub x y False = (x - y, sub_would_overflow_u x y)"
  by (simp add: carry_sub_def builtin_subc_def Let_def of_bool_or_nonzero
      sub_would_overflow_u_def)

end
