(* ===== verification/Z86_Config.thy ===== *)
theory Z86_Config
  imports Z86_Prelude
begin

text \<open>
  The feature and quirk flags of a core (\<^verbatim>\<open>z86FeatureFlagsA\<close>, read by the
  constants at the head of \<^verbatim>\<open>z86Base\<close>) and the real-mode cores of 16 bits that
  the headers define.  The C++ passes the flags as a template argument, so every
  \<^verbatim>\<open>if constexpr\<close> on them is decided when a core is instantiated; the model passes
  them as a record.  Only the flags the 16 bit real-mode code reads are kept.
\<close>

record quirks =
  SAL_IS_SETMO :: bool
  NO_UD :: bool
  SINGLE_MEM_WRAPS :: bool
  SHIFT_MASKING :: bool
  REP_INVERT_MUL :: bool
  REP_INVERT_IDIV :: bool
  MIN_DIV_FAULT :: bool
  FAULTS_ARE_TRAPS :: bool
  DE_IS_TRAP :: bool
  OLD_PUSH_SP :: bool
  OLD_RESET_PC :: bool
  OLD_AAA :: bool
  WRAP_SEGMENT_MODRM :: bool
  AAM_NO_DE :: bool
  UNMASK_ENTER :: bool
  REP_BOUND :: bool
  REP_MUL_MISSTORE :: bool
  HAS_A20_GATE :: bool
  OPCODES_80186 :: bool
  OPCODES_V20 :: bool
  OPCODES_80286 :: bool

definition z8086 :: quirks where
  "z8086 = \<lparr>
     SAL_IS_SETMO = True, NO_UD = True, SINGLE_MEM_WRAPS = True, SHIFT_MASKING = False,
     REP_INVERT_MUL = True, REP_INVERT_IDIV = True, MIN_DIV_FAULT = True,
     FAULTS_ARE_TRAPS = True, DE_IS_TRAP = True, OLD_PUSH_SP = True, OLD_RESET_PC = True,
     OLD_AAA = True, WRAP_SEGMENT_MODRM = True, AAM_NO_DE = False, UNMASK_ENTER = False,
     REP_BOUND = False, REP_MUL_MISSTORE = False, HAS_A20_GATE = False,
     OPCODES_80186 = False, OPCODES_V20 = False, OPCODES_80286 = False\<rparr>"

definition z80186 :: quirks where
  "z80186 = \<lparr>
     SAL_IS_SETMO = False, NO_UD = False, SINGLE_MEM_WRAPS = True, SHIFT_MASKING = True,
     REP_INVERT_MUL = False, REP_INVERT_IDIV = True, MIN_DIV_FAULT = False,
     FAULTS_ARE_TRAPS = False, DE_IS_TRAP = True, OLD_PUSH_SP = True, OLD_RESET_PC = True,
     OLD_AAA = True, WRAP_SEGMENT_MODRM = False, AAM_NO_DE = True, UNMASK_ENTER = True,
     REP_BOUND = True, REP_MUL_MISSTORE = True, HAS_A20_GATE = False,
     OPCODES_80186 = True, OPCODES_V20 = False, OPCODES_80286 = False\<rparr>"

definition zNV30 :: quirks where
  "zNV30 = \<lparr>
     SAL_IS_SETMO = False, NO_UD = False, SINGLE_MEM_WRAPS = False, SHIFT_MASKING = False,
     REP_INVERT_MUL = False, REP_INVERT_IDIV = False, MIN_DIV_FAULT = False,
     FAULTS_ARE_TRAPS = False, DE_IS_TRAP = False, OLD_PUSH_SP = True, OLD_RESET_PC = True,
     OLD_AAA = False, WRAP_SEGMENT_MODRM = False, AAM_NO_DE = False, UNMASK_ENTER = True,
     REP_BOUND = False, REP_MUL_MISSTORE = False, HAS_A20_GATE = True,
     OPCODES_80186 = True, OPCODES_V20 = True, OPCODES_80286 = True\<rparr>"

lemmas core_defs = z8086_def z80186_def zNV30_def

end
