(* ===== verification/Z86_Memory.thy ===== *)
theory Z86_Memory
  imports Z86_Prelude
begin

text \<open>
  The memory of the emulated machine, \<^verbatim>\<open>z86Memory\<close> in
  \<^verbatim>\<open>src/x86_emulators/z86_core_internal_pre.h\<close>.  \<^verbatim>\<open>raw\<close> is an
  array of \<^verbatim>\<open>bytes\<close> bytes that the accessors index without a bounds test, so
  \<open>raw\<close> is modelled as the host's memory seen from the start of the array: a total map
  from integers to bytes, in which the array is the part below \<open>bytes\<close>.  The second
  template, with the A20 gate, masks the offset of every single access; the block
  operations clamp the length to the array and are not masked.
\<close>

section \<open>Little-endian bytes\<close>

fun le_to_word :: "u8 list \<Rightarrow> 'a::len word" where
  "le_to_word [] = 0"
| "le_to_word (b # bs) = ucast b OR push_bit 8 (le_to_word bs)"

definition word_to_le :: "nat \<Rightarrow> 'a::len word \<Rightarrow> u8 list" where
  "word_to_le n v = map (\<lambda>i. ucast (drop_bit (8 * i) v)) [0..<n]"

fun write_bytes :: "int \<Rightarrow> u8 list \<Rightarrow> (int \<Rightarrow> u8) \<Rightarrow> (int \<Rightarrow> u8)" where
  "write_bytes a [] r = r"
| "write_bytes a (b # bs) r = write_bytes (a + 1) bs (r(a := b))"

definition read_bytes :: "int \<Rightarrow> nat \<Rightarrow> (int \<Rightarrow> u8) \<Rightarrow> u8 list" where
  "read_bytes a n r = map (\<lambda>i. r (a + int i)) [0..<n]"

section \<open>The memory object\<close>

record z86Memory =
  raw :: "int \<Rightarrow> u8"
  bytes :: nat
  a20 :: "int option"

definition A20_MASK :: int where
  "A20_MASK = NOT (2 ^ 20)"

definition a20_mask :: "z86Memory \<Rightarrow> int \<Rightarrow> int" where
  "a20_mask m off = (case a20 m of None \<Rightarrow> off | Some k \<Rightarrow> off AND k)"

definition mem_size :: "'a::len word itself \<Rightarrow> nat" where
  "mem_size _ = LENGTH('a) div 8"

definition mem_read :: "z86Memory \<Rightarrow> int \<Rightarrow> 'a::len word" where
  "mem_read m off = le_to_word (read_bytes (a20_mask m off) (mem_size TYPE('a word)) (raw m))"

definition mem_write :: "z86Memory \<Rightarrow> int \<Rightarrow> 'a::len word \<Rightarrow> z86Memory" where
  "mem_write m off v =
     m\<lparr>raw := write_bytes (a20_mask m off) (word_to_le (mem_size TYPE('a word)) v) (raw m)\<rparr>"

text \<open>The block operations: the bytes copied and their number.\<close>

definition mem_read_block :: "z86Memory \<Rightarrow> nat \<Rightarrow> nat \<Rightarrow> u8 list \<times> nat" where
  "mem_read_block m src len =
     (if src < bytes m
      then (let len' = min (bytes m - src) len in (read_bytes (int src) len' (raw m), len'))
      else ([], 0))"

definition mem_write_block :: "z86Memory \<Rightarrow> nat \<Rightarrow> u8 list \<Rightarrow> z86Memory \<times> nat" where
  "mem_write_block m dst data =
     (if dst < bytes m
      then (let len' = min (bytes m - dst) (length data)
            in (m\<lparr>raw := write_bytes (int dst) (take len' data) (raw m)\<rparr>, len'))
      else (m, 0))"

text \<open>
  The file operations: \<^verbatim>\<open>fread\<close> may deliver fewer bytes than asked for and
  \<^verbatim>\<open>fwrite\<close> may accept fewer, so the model takes the bytes the file delivers, and the
  number the file accepts.
\<close>

definition mem_read_file :: "z86Memory \<Rightarrow> nat \<Rightarrow> u8 list \<Rightarrow> nat \<Rightarrow> z86Memory \<times> nat" where
  "mem_read_file m dst file len =
     (if dst < bytes m
      then (let len' = min (bytes m - dst) len;
                got = take len' file
            in (m\<lparr>raw := write_bytes (int dst) got (raw m)\<rparr>, min len' (length got)))
      else (m, 0))"

definition mem_write_file :: "z86Memory \<Rightarrow> nat \<Rightarrow> nat \<Rightarrow> nat \<Rightarrow> u8 list \<times> nat" where
  "mem_write_file m src len accepts =
     (if src < bytes m
      then (let len' = min (bytes m - src) len;
                put = take accepts (read_bytes (int src) len' (raw m))
            in (put, min len' (length put)))
      else ([], 0))"

section \<open>Facts about bytes\<close>

lemma length_read_bytes [simp]: "length (read_bytes a n r) = n"
  by (simp add: read_bytes_def)

lemma nth_read_bytes [simp]: "i < n \<Longrightarrow> read_bytes a n r ! i = r (a + int i)"
  by (simp add: read_bytes_def)

lemma length_word_to_le [simp]: "length (word_to_le n v) = n"
  by (simp add: word_to_le_def)

lemma nth_word_to_le [simp]: "i < n \<Longrightarrow> word_to_le n v ! i = ucast (drop_bit (8 * i) v)"
  by (simp add: word_to_le_def)

lemma write_bytes_apply:
  "write_bytes a bs r x =
     (if a \<le> x \<and> x < a + int (length bs) then bs ! nat (x - a) else r x)"
proof (induction bs arbitrary: a r x)
  case Nil
  then show ?case by auto
next
  case (Cons b bs)
  show ?case
  proof (cases "x = a")
    case True
    then show ?thesis by (simp add: Cons.IH)
  next
    case False
    then have "nat (x - a) = Suc (nat (x - (a + 1)))" if "a \<le> x" using that by linarith
    with False show ?thesis by (auto simp: Cons.IH)
  qed
qed

lemma read_write_bytes [simp]: "length bs = n \<Longrightarrow> read_bytes a n (write_bytes a bs r) = bs"
  by (rule nth_equalityI) (auto simp: write_bytes_apply)

lemma read_bytes_append:
  "read_bytes a (m + n) r = read_bytes a m r @ read_bytes (a + int m) n r"
  by (rule nth_equalityI) (auto simp: nth_append)

lemma write_bytes_append:
  "write_bytes a (xs @ ys) r = write_bytes (a + int (length xs)) ys (write_bytes a xs r)"
  by (induction xs arbitrary: a r) (auto simp: algebra_simps)

lemma bit_le_to_word:
  "bit (le_to_word bs :: 'a::len word) n \<longleftrightarrow>
     n < LENGTH('a) \<and> n div 8 < length bs \<and> bit (bs ! (n div 8)) (n mod 8)"
proof (induction bs arbitrary: n)
  case Nil
  then show ?case by simp
next
  case (Cons b bs)
  show ?case
  proof (cases "n < 8")
    case True
    then show ?thesis
      by (auto simp: bit_or_iff bit_push_bit_iff bit_ucast_word)
  next
    case False
    then have "n div 8 = Suc ((n - 8) div 8)" and "n mod 8 = (n - 8) mod 8"
      by (simp_all add: le_div_geq le_mod_geq)
    moreover from False have "\<not> bit b n"
      using bit_imp_le_length [of b n] by auto
    ultimately show ?thesis
      using False Cons.IH [of "n - 8"]
      by (auto simp: bit_or_iff bit_push_bit_iff bit_ucast_word)
  qed
qed

lemma le_to_word_to_le:
  assumes "LENGTH('a) = 8 * n"
  shows "le_to_word (word_to_le n v) = (v :: 'a::len word)"
proof (rule bit_word_eqI)
  fix k assume "k < LENGTH('a)"
  with assms have "k div 8 < n" by (simp add: less_mult_imp_div_less mult.commute)
  with \<open>k < LENGTH('a)\<close> show "bit (le_to_word (word_to_le n v) :: 'a word) k = bit v k"
    by (auto simp: bit_le_to_word bit_ucast_word bit_drop_bit_eq)
qed

lemma word_to_le_to_word:
  assumes "LENGTH('a) = 8 * length bs"
  shows "word_to_le (length bs) (le_to_word bs :: 'a::len word) = bs"
proof (rule nth_equalityI)
  show "length (word_to_le (length bs) (le_to_word bs :: 'a word)) = length bs" by simp
next
  fix i assume "i < length (word_to_le (length bs) (le_to_word bs :: 'a word))"
  then have i: "i < length bs" by simp
  show "word_to_le (length bs) (le_to_word bs :: 'a word) ! i = bs ! i"
  proof (rule bit_word_eqI)
    fix k :: nat assume "k < LENGTH(8)"
    then have k: "k < 8" by simp
    have "8 * i + k < LENGTH('a)" using i k assms by linarith
    with i k show "bit (word_to_le (length bs) (le_to_word bs :: 'a word) ! i) k = bit (bs ! i) k"
      by (simp add: bit_ucast_word bit_drop_bit_eq bit_le_to_word)
  qed
qed

section \<open>Facts about single accesses\<close>

lemma mem_write_fields [simp]:
  "bytes (mem_write m a v) = bytes m"
  "a20 (mem_write m a v) = a20 m"
  "a20_mask (mem_write m a v) b = a20_mask m b"
  by (simp_all add: mem_write_def a20_mask_def)

lemma mem_read_write_same:
  assumes "8 dvd LENGTH('a)"
  shows "mem_read (mem_write m a v) a = (v :: 'a::len word)"
proof -
  from assms have "LENGTH('a) = 8 * mem_size TYPE('a word)"
    by (simp add: mem_size_def)
  then show ?thesis
    by (simp add: mem_read_def mem_write_def a20_mask_def le_to_word_to_le split: option.split)
qed

lemma mem_read8: "mem_read m a = raw m (a20_mask m a)"
  by (simp add: mem_read_def mem_size_def read_bytes_def)

lemma mem_read16:
  "(mem_read m a :: u16) = mk16 (raw m (a20_mask m a + 1)) (raw m (a20_mask m a))"
proof -
  have "[0..<2] = [0, 1::nat]" by (simp add: upt_rec)
  then show ?thesis
    by (simp add: mem_read_def mem_size_def read_bytes_def mk16_def or.commute)
qed

lemma raw_mem_write8: "raw (mem_write m a (v :: u8)) = (raw m)(a20_mask m a := v)"
  by (simp add: mem_write_def mem_size_def word_to_le_def)

lemma raw_mem_write16:
  "raw (mem_write m a (v :: u16)) =
     (raw m)(a20_mask m a := lo8 v, a20_mask m a + 1 := hi8 v)"
proof -
  have "[0..<2] = [0, 1::nat]" by (simp add: upt_rec)
  then show ?thesis
    by (simp add: mem_write_def mem_size_def word_to_le_def lo8_def hi8_def)
qed

lemma mem_read_write_apart:
  assumes "a20 m = None"
    and "a + int (mem_size TYPE('a word)) \<le> b \<or> b + int (mem_size TYPE('b word)) \<le> a"
  shows "mem_read (mem_write m a (v :: 'a::len word)) b = (mem_read m b :: 'b::len word)"
proof -
  have "read_bytes b (mem_size TYPE('b word)) (raw (mem_write m a v))
      = read_bytes b (mem_size TYPE('b word)) (raw m)"
    using assms by (intro nth_equalityI) (auto simp: mem_write_def a20_mask_def write_bytes_apply)
  then show ?thesis by (simp add: mem_read_def a20_mask_def assms(1) mem_write_def)
qed

text \<open>With the gate closed bit 20 of every address is forced to zero.\<close>

lemma bit_A20_MASK: "bit A20_MASK n \<longleftrightarrow> n \<noteq> 20"
  unfolding A20_MASK_def
  by (simp only: bit_not_iff bit_exp_iff possible_bit_int simp_thms)

lemma a20_gate_closed: "a20 m = Some A20_MASK \<Longrightarrow> bit (a20_mask m off) n \<longleftrightarrow> bit off n \<and> n \<noteq> 20"
  by (simp add: a20_mask_def bit_and_iff bit_A20_MASK)

section \<open>Facts about blocks\<close>

lemma mem_write_block_read:
  assumes "dst + length data \<le> bytes m" and "data \<noteq> []"
  shows "mem_read_block (fst (mem_write_block m dst data)) dst (length data) = (data, length data)"
  using assms by (cases data) (auto simp: mem_write_block_def mem_read_block_def Let_def min_def)

lemma mem_write_block_bound:
  "snd (mem_write_block m dst data) \<le> length data"
  "dst + snd (mem_write_block m dst data) \<le> max dst (bytes m)"
  by (auto simp: mem_write_block_def Let_def)

lemma mem_write_block_frame:
  assumes "x < int dst \<or> int (bytes m) \<le> x \<or> int dst + int (length data) \<le> x"
  shows "raw (fst (mem_write_block m dst data)) x = raw m x"
  using assms by (auto simp: mem_write_block_def Let_def write_bytes_apply)

text \<open>A block written is clipped to the memory, reads back as the bytes that fit, and leaves
  every byte outside the block, in particular outside the memory, as it was.\<close>

theorem block_transfer:
  fixes m dst data
  defines "n \<equiv> min (length data) (bytes m - dst)"
  shows "snd (mem_write_block m dst data) = n
    \<and> mem_read_block (fst (mem_write_block m dst data)) dst n = (take n data, n)
    \<and> (raw (fst (mem_write_block m dst data)) x = raw m x \<or> int dst \<le> x \<and> x < int (dst + n))
    \<and> bytes (fst (mem_write_block m dst data)) = bytes m \<and> dst + n \<le> max dst (bytes m)"
proof (cases "dst < bytes m")
  case True
  have len: "length (take n data) = n" by (simp add: n_def)
  have w: "mem_write_block m dst data = (m\<lparr>raw := write_bytes (int dst) (take n data) (raw m)\<rparr>, n)"
    using True by (simp add: mem_write_block_def n_def Let_def min.commute)
  have "read_bytes (int dst) n (write_bytes (int dst) (take n data) (raw m)) = take n data"
    using len by (rule read_write_bytes)
  then have "mem_read_block (fst (mem_write_block m dst data)) dst n = (take n data, n)"
    using True by (simp add: w mem_read_block_def Let_def n_def)
  then show ?thesis
    using True by (auto simp: w write_bytes_apply len) (simp_all add: n_def)
qed (simp add: mem_write_block_def mem_read_block_def n_def)

end
