(* ===== verification/Z86_Addr.thy ===== *)
theory Z86_Addr
  imports Z86_Config Z86_Memory
begin

text \<open>
  Far addresses of a 16 bit real-mode core (\<^verbatim>\<open>z86AddrImpl<16, false>\<close>) and the
  accesses made through them (\<^verbatim>\<open>z86AddrSharedFuncs::read\<close> and
  \<^verbatim>\<open>write\<close>).  On cores with \<open>SINGLE_MEM_WRAPS\<close> an access that runs past
  offset FFFF goes on at offset 0 of the segment; the code treats one, two and more bytes
  apart, and reads four and eight bytes by masking two overlapping reads.  The section on
  the byte-wise view shows all of them to be the same thing: byte \<open>i\<close> lives at offset
  \<open>off + i\<close> modulo 64K.
\<close>

record z86Addr =
  segment :: u16
  offset :: u16

definition addr_ptr :: "z86Addr \<Rightarrow> int \<Rightarrow> int" where
  "addr_ptr a off = uint (offset a + word_of_int off)"

definition addr_seg :: "z86Addr \<Rightarrow> int" where
  "addr_seg a = uint (segment a) * 16"

definition addr_limit :: "z86Addr \<Rightarrow> int" where
  "addr_limit a = 65535"

definition addr_addr :: "z86Addr \<Rightarrow> int \<Rightarrow> int" where
  "addr_addr a off = addr_seg a + addr_ptr a off"

definition addr_add :: "z86Addr \<Rightarrow> int \<Rightarrow> z86Addr" where
  "addr_add a d = a\<lparr>offset := offset a + word_of_int d\<rparr>"

definition addr_offset_wrap :: "nat \<Rightarrow> z86Addr \<Rightarrow> int \<Rightarrow> int" where
  "addr_offset_wrap sz a off =
     (let base = uint (- (offset a + word_of_int off)) in if int sz \<le> base then 0 else base)"

text \<open>\<^verbatim>\<open>wrap_low\<close>: the bytes that stay below the limit, for a power of two and otherwise.\<close>

definition wrap_low :: "nat \<Rightarrow> int \<Rightarrow> int" where
  "wrap_low sz high =
     (if sz \<in> {1, 2, 4, 8, 16, 32, 64} then (high XOR (int sz - 1)) + 1 else int sz - high)"

definition addr_write :: "quirks \<Rightarrow> z86Addr \<Rightarrow> int \<Rightarrow> 'a::len word \<Rightarrow> z86Memory \<Rightarrow> z86Memory" where
  "addr_write cfg a off v m =
     (if \<not> SINGLE_MEM_WRAPS cfg then mem_write m (addr_addr a off) v
      else
        (let virt_seg_base = addr_seg a;
             full_offset = addr_ptr a off;
             virt_addr_base = virt_seg_base + full_offset;
             size = mem_size TYPE('a word);
             non_wrapping_limit = addr_limit a - (int size - 1)
         in if size = 1 then mem_write m virt_addr_base v
            else if size = 2 then
              (if full_offset \<le> non_wrapping_limit then mem_write m virt_addr_base v
               else mem_write (mem_write m virt_addr_base (ucast v :: u8)) virt_seg_base
                      (ucast (drop_bit 8 v) :: u8))
            else if full_offset < non_wrapping_limit then mem_write m virt_addr_base v
            else
              (let high = full_offset - non_wrapping_limit;
                   low = nat (wrap_low size high);
                   bs = word_to_le size v
               in m\<lparr>raw := write_bytes (a20_mask m virt_seg_base) (drop low bs)
                     (write_bytes (a20_mask m virt_addr_base) (take low bs) (raw m))\<rparr>)))"

definition addr_read :: "quirks \<Rightarrow> z86Addr \<Rightarrow> int \<Rightarrow> z86Memory \<Rightarrow> 'a::len word" where
  "addr_read cfg a off m =
     (if \<not> SINGLE_MEM_WRAPS cfg then mem_read m (addr_addr a off)
      else
        (let virt_seg_base = addr_seg a;
             full_offset = addr_ptr a off;
             virt_addr_base = virt_seg_base + full_offset;
             size = mem_size TYPE('a word);
             non_wrapping_limit = addr_limit a - (int size - 1)
         in if size = 1 then mem_read m virt_addr_base
            else if size = 2 then
              (if full_offset \<le> non_wrapping_limit then mem_read m virt_addr_base
               else ucast (mem_read m virt_addr_base :: u8)
                    OR push_bit 8 (ucast (mem_read m virt_seg_base :: u8)))
            else if full_offset < non_wrapping_limit then mem_read m virt_addr_base
            else
              (let high = full_offset - non_wrapping_limit;
                   low = wrap_low size high
               in if size = 4 \<or> size = 8 then
                    (let mask = drop_bit (nat high * 8) (- 1) in
                     (mem_read m virt_addr_base AND mask)
                     OR (mem_read m (virt_addr_base - addr_limit a - 1) AND NOT mask))
                  else le_to_word
                    (read_bytes (a20_mask m virt_addr_base) (nat low) (raw m)
                     @ read_bytes (a20_mask m virt_seg_base) (nat high) (raw m)))))"

text \<open>\<^verbatim>\<open>read_advance\<close>, \<^verbatim>\<open>execute_advance\<close> and \<^verbatim>\<open>write_advance\<close>.\<close>

definition addr_read_advance ::
  "quirks \<Rightarrow> z86Memory \<Rightarrow> int \<Rightarrow> z86Addr \<Rightarrow> 'a::len word \<times> z86Addr" where
  "addr_read_advance cfg m index a = (addr_read cfg a 0 m, addr_add a index)"

definition addr_write_advance ::
  "quirks \<Rightarrow> 'a::len word \<Rightarrow> int \<Rightarrow> z86Addr \<times> z86Memory \<Rightarrow> z86Addr \<times> z86Memory" where
  "addr_write_advance cfg v index am =
     (addr_add (fst am) index, addr_write cfg (fst am) 0 v (snd am))"

section \<open>Bounds of an address\<close>

lemma addr_ptr_bounds: "0 \<le> addr_ptr a off" "addr_ptr a off < 65536"
  using uint_lt_2p [of "offset a + word_of_int off"] by (simp_all add: addr_ptr_def)

lemma addr_seg_bounds: "0 \<le> addr_seg a" "addr_seg a \<le> 1048560"
  using uint_lt_2p [of "segment a"] by (simp_all add: addr_seg_def)

lemma addr_addr_bounds: "0 \<le> addr_addr a off" "addr_addr a off \<le> 1114095"
  using addr_ptr_bounds [of a off] addr_seg_bounds [of a] by (simp_all add: addr_addr_def)

lemma addr_add_fields [simp]:
  "segment (addr_add a d) = segment a"
  "offset (addr_add a d) = offset a + word_of_int d"
  "addr_seg (addr_add a d) = addr_seg a"
  by (simp_all add: addr_add_def addr_seg_def)

lemma addr_add_add [simp]: "addr_add (addr_add a d) e = addr_add a (d + e)"
  by (simp add: addr_add_def add.assoc)

lemma addr_add_0 [simp]: "addr_add a 0 = a"
  by (simp add: addr_add_def)

lemma addr_ptr_add [simp]: "addr_ptr (addr_add a d) e = addr_ptr a (d + e)"
  by (simp add: addr_ptr_def add.assoc)

lemma addr_ptr_mod: "addr_ptr a off = (uint (offset a) + off) mod 65536"
  by (simp add: addr_ptr_def uint_word_ariths unsigned_of_int take_bit_eq_mod mod_add_right_eq)

section \<open>The byte-wise view of an access\<close>

text \<open>
  Where byte \<open>i\<close> of an access lies.  A wrapping core goes round the segment; the others
  run past its end.  All facts here are about a memory of at most 1 MB, the size the emulator
  is built with, which has no A20 gate.
\<close>

definition byte_addr :: "quirks \<Rightarrow> z86Addr \<Rightarrow> int \<Rightarrow> int \<Rightarrow> int" where
  "byte_addr cfg a off i =
     (if SINGLE_MEM_WRAPS cfg then addr_addr a (off + i) else addr_addr a off + i)"

lemma byte_addr_0 [simp]: "byte_addr cfg a off 0 = addr_addr a off"
  by (simp add: byte_addr_def)

lemma mod_64K:
  assumes "-65536 \<le> d" "d < 65536"
  shows "(d :: int) mod 65536 = (if d < 0 then d + 65536 else d)"
proof (cases "d < 0")
  case True
  have "d mod 65536 = (d + 65536) mod 65536" by simp
  also have "\<dots> = d + 65536" using assms True by (intro mod_pos_pos_trivial) auto
  finally show ?thesis using True by simp
qed (use assms in simp)

lemma addr_ptr_Suc:
  "addr_ptr a (off + 1) = (if addr_ptr a off = 65535 then 0 else addr_ptr a off + 1)"
proof -
  have "addr_ptr a (off + 1) = (addr_ptr a off + 1) mod 65536"
    by (simp add: addr_ptr_mod add.assoc mod_add_left_eq)
  then show ?thesis
    using addr_ptr_bounds [of a off] by (cases "addr_ptr a off = 65535") auto
qed

lemma addr_fields_mem [simp]:
  "bytes (addr_write cfg a off v m) = bytes m" "a20 (addr_write cfg a off v m) = a20 m"
  by (simp_all add: addr_write_def Let_def)

lemma addr_read8:
  assumes "a20 m = None"
  shows "(addr_read cfg a off m :: u8) = raw m (addr_addr a off)"
  using assms by (simp add: addr_read_def Let_def mem_size_def mem_read8 a20_mask_def addr_addr_def)

lemma raw_addr_write8:
  assumes "a20 m = None"
  shows "raw (addr_write cfg a off (v :: u8) m) = (raw m)(addr_addr a off := v)"
  using assms
  by (simp add: addr_write_def Let_def mem_size_def raw_mem_write8 a20_mask_def addr_addr_def)

lemma addr_read16:
  assumes "a20 m = None"
  shows "(addr_read cfg a off m :: u16) =
    mk16 (raw m (byte_addr cfg a off 1)) (raw m (addr_addr a off))"
proof -
  have mk: "ucast (l :: u8) OR push_bit 8 (ucast (h :: u8)) = (mk16 h l)" for l h
    by (simp add: mk16_def or.commute)
  show ?thesis
    using assms addr_ptr_bounds [of a off]
    by (simp add: addr_read_def Let_def mem_size_def mem_read16 mem_read8 a20_mask_def
        addr_addr_def byte_addr_def addr_limit_def addr_ptr_Suc mk add.assoc)
qed

lemma raw_addr_write16:
  assumes "a20 m = None"
  shows "raw (addr_write cfg a off (v :: u16) m) =
    (raw m)(addr_addr a off := lo8 v, byte_addr cfg a off 1 := hi8 v)"
proof -
  have cast: "ucast v = lo8 v" "(ucast (drop_bit 8 v) :: u8) = hi8 v"
    by (simp_all add: lo8_def hi8_def)
  show ?thesis
    using assms addr_ptr_bounds [of a off]
    by (simp add: addr_write_def Let_def mem_size_def raw_mem_write16 raw_mem_write8 a20_mask_def
        addr_addr_def byte_addr_def addr_limit_def addr_ptr_Suc cast add.assoc)
qed

lemma byte_addr_1_neq: "byte_addr cfg a off 1 \<noteq> addr_addr a off"
  using addr_ptr_bounds [of a off] by (simp add: byte_addr_def addr_addr_def addr_ptr_Suc)

lemma addr_read_write16 [simp]:
  assumes "a20 m = None"
  shows "addr_read cfg a off (addr_write cfg a off v m) = (v :: u16)"
  using assms byte_addr_1_neq [of cfg a off] by (simp add: addr_read16 raw_addr_write16)

text \<open>Two words of one segment whose offsets are at least two apart, round the segment.\<close>

definition apart :: "int \<Rightarrow> int \<Rightarrow> bool" where
  "apart x y \<longleftrightarrow> 2 \<le> (x - y) mod 65536 \<and> (x - y) mod 65536 \<le> 65534"

lemma apart_ptr:
  assumes "apart off off'"
  shows "2 \<le> \<bar>addr_ptr a off - addr_ptr a off'\<bar>"
    "\<bar>addr_ptr a off - addr_ptr a off'\<bar> \<le> 65534"
proof -
  let ?d = "addr_ptr a off - addr_ptr a off'"
  have d: "-65536 \<le> ?d" "?d < 65536"
    using addr_ptr_bounds [of a off] addr_ptr_bounds [of a off'] by linarith+
  have "(off - off') mod 65536 = ?d mod 65536"
    by (simp add: addr_ptr_mod mod_diff_eq)
  with assms have "2 \<le> (if ?d < 0 then ?d + 65536 else ?d)"
    "(if ?d < 0 then ?d + 65536 else ?d) \<le> 65534"
    by (simp_all add: apart_def mod_64K [OF d])
  then show "2 \<le> \<bar>?d\<bar>" "\<bar>?d\<bar> \<le> 65534" by (simp_all split: if_splits)
qed

lemma byte_addr_apart:
  assumes "apart off off'"
  shows "addr_addr a off \<noteq> addr_addr a off'" "byte_addr cfg a off 1 \<noteq> addr_addr a off'"
    "addr_addr a off \<noteq> byte_addr cfg a off' 1" "byte_addr cfg a off 1 \<noteq> byte_addr cfg a off' 1"
  using apart_ptr [OF assms, of a] addr_ptr_bounds [of a off] addr_ptr_bounds [of a off']
  by (auto simp: byte_addr_def addr_addr_def addr_ptr_Suc split: if_splits)

lemma addr_read_write_apart16:
  assumes "a20 m = None" and "apart off off'"
  shows "(addr_read cfg a off (addr_write cfg a off' (v :: u16) m) :: u16) = addr_read cfg a off m"
  using assms(1) byte_addr_apart [OF assms(2)]
  by (simp add: addr_read16 raw_addr_write16)

end
