(* ===== verification/Z86_Port.thy ===== *)
theory Z86_Port
  imports Z86_Prelude
begin

text \<open>
  Port devices, from \<^verbatim>\<open>src/x86_emulators/8086_cpu.h\<close>, and the two port loops of
  the core.  A device is an object with virtual methods and hidden state: the model is a
  codatatype whose values answer each call with a result and the object that is left.
  The default methods of the base classes, which build a word (or a dword) out of byte
  accesses, are written over the state \<open>(temp_value, s)\<close>, where \<open>s\<close> is the state of
  the subclass that overrides the full-width method; \<open>word_device\<close> ties them into an
  object.
\<close>

section \<open>Default methods of the base classes\<close>

text \<open>\<^verbatim>\<open>PortWordDevice::out_byte\<close>: an even port latches, an odd one delivers.\<close>

definition PortWordDevice_out_byte ::
  "('s \<Rightarrow> u32 \<Rightarrow> u16 \<Rightarrow> bool \<times> 's) \<Rightarrow> u8 \<times> 's \<Rightarrow> u32 \<Rightarrow> u8 \<Rightarrow> bool \<times> u8 \<times> 's" where
  "PortWordDevice_out_byte out_word st port value =
     (let (temp_value, s) = st in
      if port AND 1 \<noteq> 0
      then (let (ok, s') = out_word s (port AND NOT 1) (push_bit 8 (ucast value) OR ucast temp_value)
            in (ok, temp_value, s'))
      else (True, value, s))"

definition PortWordDevice_in_byte ::
  "('s \<Rightarrow> u16 \<Rightarrow> u32 \<Rightarrow> bool \<times> u16 \<times> 's) \<Rightarrow> u8 \<times> 's \<Rightarrow> u8 \<Rightarrow> u32 \<Rightarrow> bool \<times> u8 \<times> u8 \<times> 's" where
  "PortWordDevice_in_byte in_word st value port =
     (let (temp_value, s) = st;
          (ok, temp, s') = in_word s 0 (port AND NOT 1)
      in if ok then (True, ucast (drop_bit (unat (port AND 1) * 8) temp), temp_value, s')
         else (False, value, temp_value, s'))"

definition PortDwordDevice_out_word ::
  "('s \<Rightarrow> u32 \<Rightarrow> u32 \<Rightarrow> bool \<times> 's) \<Rightarrow> u32 \<times> 's \<Rightarrow> u32 \<Rightarrow> u16 \<Rightarrow> bool \<times> u32 \<times> 's" where
  "PortDwordDevice_out_word out_dword st port value =
     (let (temp_value, s) = st in
      if port AND 3 \<noteq> 0
      then (let (ok, s') = out_dword s (port AND NOT 3)
                  (push_bit 16 (ucast value) OR ucast (ucast temp_value :: u16))
            in (ok, temp_value, s'))
      else (False, ucast value, s))"

definition PortDwordDevice_out_byte ::
  "('s \<Rightarrow> u32 \<Rightarrow> u32 \<Rightarrow> bool \<times> 's) \<Rightarrow> u32 \<times> 's \<Rightarrow> u32 \<Rightarrow> u8 \<Rightarrow> bool \<times> u32 \<times> 's" where
  "PortDwordDevice_out_byte out_dword st port value =
     (let (temp_value, s) = st;
          full_value = drop_bit 8 temp_value OR push_bit 24 (ucast value)
      in if port AND 3 = 3
         then (let (ok, s') = out_dword s (port AND NOT 3) full_value in (ok, temp_value, s'))
         else (False, full_value, s))"

definition PortDwordDevice_in_word ::
  "('s \<Rightarrow> u32 \<Rightarrow> u32 \<Rightarrow> bool \<times> u32 \<times> 's) \<Rightarrow> 's \<Rightarrow> u16 \<Rightarrow> u32 \<Rightarrow> bool \<times> u16 \<times> 's" where
  "PortDwordDevice_in_word in_dword s value port =
     (let (ok, temp, s') = in_dword s 0 (port AND NOT 3)
      in if ok then (True, ucast (drop_bit (unat (port AND 2) * 8) temp), s')
         else (False, value, s'))"

definition PortDwordDevice_in_byte ::
  "('s \<Rightarrow> u32 \<Rightarrow> u32 \<Rightarrow> bool \<times> u32 \<times> 's) \<Rightarrow> 's \<Rightarrow> u8 \<Rightarrow> u32 \<Rightarrow> bool \<times> u8 \<times> 's" where
  "PortDwordDevice_in_byte in_dword s value port =
     (let (ok, temp, s') = in_dword s 0 (port AND NOT 3)
      in if ok then (True, ucast (drop_bit (unat (port AND 3) * 8) temp), s')
         else (False, value, s'))"

section \<open>Devices as objects\<close>

codatatype PortByteDevice = PortByteDevice
  (bd_out_byte: "u32 \<Rightarrow> u8 \<Rightarrow> bool \<times> PortByteDevice")
  (bd_in_byte: "u8 \<Rightarrow> u32 \<Rightarrow> bool \<times> u8 \<times> PortByteDevice")

codatatype PortWordDevice = PortWordDevice
  (wd_out_word: "u32 \<Rightarrow> u16 \<Rightarrow> bool \<times> PortWordDevice")
  (wd_out_byte: "u32 \<Rightarrow> u8 \<Rightarrow> bool \<times> PortWordDevice")
  (wd_in_word: "u16 \<Rightarrow> u32 \<Rightarrow> bool \<times> u16 \<times> PortWordDevice")
  (wd_in_byte: "u8 \<Rightarrow> u32 \<Rightarrow> bool \<times> u8 \<times> PortWordDevice")

text \<open>A byte device with state \<open>s\<close>, and the base class, which handles no port.\<close>

primcorec byte_device ::
  "('s \<Rightarrow> u32 \<Rightarrow> u8 \<Rightarrow> bool \<times> 's) \<Rightarrow> ('s \<Rightarrow> u8 \<Rightarrow> u32 \<Rightarrow> bool \<times> u8 \<times> 's) \<Rightarrow> 's \<Rightarrow> PortByteDevice"
where
  "bd_out_byte (byte_device ob ib s) =
     (\<lambda>port value. map_prod id (byte_device ob ib) (ob s port value))"
| "bd_in_byte (byte_device ob ib s) =
     (\<lambda>value port. map_prod id (map_prod id (byte_device ob ib)) (ib s value port))"

text \<open>A word device whose byte methods are the inherited ones.\<close>

primcorec word_device ::
  "('s \<Rightarrow> u32 \<Rightarrow> u16 \<Rightarrow> bool \<times> 's) \<Rightarrow> ('s \<Rightarrow> u16 \<Rightarrow> u32 \<Rightarrow> bool \<times> u16 \<times> 's) \<Rightarrow> u8 \<times> 's \<Rightarrow> PortWordDevice"
where
  "wd_out_word (word_device ow iw st) =
     (\<lambda>port value. map_prod id (\<lambda>s. word_device ow iw (fst st, s)) (ow (snd st) port value))"
| "wd_out_byte (word_device ow iw st) =
     (\<lambda>port value. map_prod id (word_device ow iw) (PortWordDevice_out_byte ow st port value))"
| "wd_in_word (word_device ow iw st) =
     (\<lambda>value port. map_prod id (map_prod id (\<lambda>s. word_device ow iw (fst st, s)))
        (iw (snd st) value port))"
| "wd_in_byte (word_device ow iw st) =
     (\<lambda>value port. map_prod id (map_prod id (word_device ow iw))
        (PortWordDevice_in_byte iw st value port))"

section \<open>The port loops of the core\<close>

definition port_aligned16 :: "u32 \<Rightarrow> bool" where
  "port_aligned16 p \<longleftrightarrow> p AND 1 = 0"

text \<open>\<^verbatim>\<open>port_out_impl\<close> at \<^verbatim>\<open>uint8_t\<close>: the first device that says yes.\<close>

fun port_out8_loop :: "u32 \<Rightarrow> u8 \<Rightarrow> PortByteDevice list \<Rightarrow> PortByteDevice list" where
  "port_out8_loop port value [] = []"
| "port_out8_loop port value (d # ds) =
     (let (ok, d') = bd_out_byte d port value
      in if ok then d' # ds else d' # port_out8_loop port value ds)"

text \<open>
  \<^verbatim>\<open>port_out_impl\<close> at \<^verbatim>\<open>uint16_t\<close>, on a bus of 16 bits: an aligned port
  is first offered as a word, then as two bytes.
\<close>

definition port_out16_device :: "u32 \<Rightarrow> u16 \<Rightarrow> PortWordDevice \<Rightarrow> bool \<times> PortWordDevice" where
  "port_out16_device port value d =
     (let (ok, d1) = (if port_aligned16 port then wd_out_word d port value else (False, d))
      in if ok then (True, d1)
         else (let (ok1, d2) = wd_out_byte d1 port (lo8 value)
               in if ok1 then wd_out_byte d2 (port + 1) (hi8 value) else (False, d2)))"

fun port_out16_loop :: "u32 \<Rightarrow> u16 \<Rightarrow> PortWordDevice list \<Rightarrow> PortWordDevice list" where
  "port_out16_loop port value [] = []"
| "port_out16_loop port value (d # ds) =
     (let (ok, d') = port_out16_device port value d
      in if ok then d' # ds else d' # port_out16_loop port value ds)"

text \<open>
  \<^verbatim>\<open>port_in_impl\<close>: \<open>value\<close> is the local variable, which a device may store to and
  still decline; an unhandled port reads as 0.
\<close>

fun port_in8_loop :: "u8 \<Rightarrow> u32 \<Rightarrow> PortByteDevice list \<Rightarrow> u8 \<times> PortByteDevice list" where
  "port_in8_loop value port [] = (0, [])"
| "port_in8_loop value port (d # ds) =
     (let (ok, value', d') = bd_in_byte d value port
      in if ok then (value', d' # ds)
         else (let (v, ds') = port_in8_loop value' port ds in (v, d' # ds')))"

definition port_in16_device :: "u16 \<Rightarrow> u32 \<Rightarrow> PortWordDevice \<Rightarrow> bool \<times> u16 \<times> PortWordDevice" where
  "port_in16_device value port d =
     (let (ok, v1, d1) = (if port_aligned16 port then wd_in_word d value port else (False, value, d))
      in if ok then (True, v1, d1)
         else (let (ok1, l, d2) = wd_in_byte d1 (lo8 v1) port;
                   v2 = mk16 (hi8 v1) l
               in if ok1
                  then (let (ok2, h, d3) = wd_in_byte d2 (hi8 v2) (port + 1)
                        in (ok2, mk16 h (lo8 v2), d3))
                  else (False, v2, d2)))"

fun port_in16_loop :: "u16 \<Rightarrow> u32 \<Rightarrow> PortWordDevice list \<Rightarrow> u16 \<times> PortWordDevice list" where
  "port_in16_loop value port [] = (0, [])"
| "port_in16_loop value port (d # ds) =
     (let (ok, value', d') = port_in16_device value port d
      in if ok then (value', d' # ds)
         else (let (v, ds') = port_in16_loop value' port ds in (v, d' # ds')))"

section \<open>Facts\<close>

lemma port_out8_loop_length [simp]: "length (port_out8_loop p v ds) = length ds"
  by (induction ds) (auto simp: Let_def split: prod.split)

lemma port_out16_loop_length [simp]: "length (port_out16_loop p v ds) = length ds"
  by (induction ds) (auto simp: Let_def split: prod.split)

lemma port_in8_loop_length [simp]: "length (snd (port_in8_loop v p ds)) = length ds"
  by (induction ds arbitrary: v) (auto simp: Let_def split: prod.splits, metis snd_conv)

lemma port_in16_loop_length [simp]: "length (snd (port_in16_loop v p ds)) = length ds"
  by (induction ds arbitrary: v) (auto simp: Let_def split: prod.splits, metis snd_conv)

text \<open>The first device that handles the port is the last one touched.\<close>

lemma port_out8_first:
  "fst (bd_out_byte d p v) \<Longrightarrow> port_out8_loop p v (d # ds) = snd (bd_out_byte d p v) # ds"
  by (simp add: Let_def split_beta)

lemma even_odd_port:
  assumes "port_aligned16 p"
  shows "(p + 1) AND 1 = 1" "(p + 1) AND NOT 1 = p" "p AND NOT 1 = p"
proof -
  have e: "even p" using assms by (simp add: port_aligned16_def and_one_eq even_iff_mod_2_eq_zero)
  then have 0: "\<not> bit p 0" by (simp add: bit_0)
  have or1: "p + 1 = p OR 1" using e by (simp add: or_one_eq)
  have "bit p n \<Longrightarrow> n \<noteq> 0" for n using 0 by metis
  then show "(p + 1) AND 1 = 1" "(p + 1) AND NOT 1 = p" "p AND NOT 1 = p"
    unfolding or1 by (auto intro!: bit_word_eqI simp: bit_and_iff bit_or_iff bit_not_iff bit_1_iff)
qed

text \<open>C37: Two byte writes to a word device are one word write: the low byte written to an even port
  is held back until the high byte comes at the next port.  Two byte reads are two word reads: the
  first gives the low byte of the word the device has, and the second, which asks the device again
  in the state the first read left, the high byte of the word it has then, so that the two bytes
  are one word if the reads give the same.\<close>

theorem word_device_bytes:
  assumes "port_aligned16 p"
  shows "(let (ok, st') = PortWordDevice_out_byte ow (t, s) p lo
      in ok \<and> PortWordDevice_out_byte ow st' (p + 1) hi = (let (ok, s') = ow s p (mk16 hi lo) in (ok, lo, s')))
    \<and> (iw s 0 p = (True, w, s1) \<and> iw s1 0 p = (True, w', s2) \<longrightarrow>
      (let (ok, b, st') = PortWordDevice_in_byte iw (t, s) v p;
           (ok', b', st'') = PortWordDevice_in_byte iw st' v' (p + 1)
       in ok \<and> ok' \<and> mk16 b' b = mk16 (hi8 w') (lo8 w) \<and> (w' = w \<longrightarrow> mk16 b' b = w) \<and> st'' = (t, s2)))"
proof -
  have out: "fst (PortWordDevice_out_byte ow (t, s) p lo)"
    "PortWordDevice_out_byte ow (snd (PortWordDevice_out_byte ow (t, s) p lo)) (p + 1) hi
       = (let (ok, s') = ow s p (mk16 hi lo) in (ok, lo, s'))"
    using assms even_odd_port [OF assms]
    by (simp_all add: PortWordDevice_out_byte_def port_aligned16_def Let_def mk16_def split_beta)
  have inp: "PortWordDevice_in_byte iw (t, s) v p = (True, lo8 w, t, s1)"
    "PortWordDevice_in_byte iw (t, s1) v' (p + 1) = (True, hi8 w', t, s2)"
    if "iw s 0 p = (True, w, s1)" "iw s1 0 p = (True, w', s2)"
    using assms even_odd_port [OF assms] that
    by (simp_all add: PortWordDevice_in_byte_def port_aligned16_def lo8_def hi8_def)
  show ?thesis using out inp by (auto simp: split_beta Let_def)
qed

text \<open>A counter that each read advances: the bytes are those of two counts.\<close>

theorem word_device_bytes_witness:
  "\<exists>b b' st' st''. PortWordDevice_in_byte (\<lambda>s v p. (True, s, s + 1)) (0, 0x12FF) 0 0x60 = (True, b, st')
     \<and> PortWordDevice_in_byte (\<lambda>s v p. (True, s, s + 1)) st' 0 0x61 = (True, b', st'') \<and> mk16 b' b = 0x13FF"
proof -
  have "port_aligned16 0x60" by (simp add: port_aligned16_def)
  from word_device_bytes [OF this, of "\<lambda>s p w. (True, s)" 0 "0x12FF :: u16" 0 0 "\<lambda>s v p. (True, s, s + 1)"
      "0x12FF" "0x1300" "0x1300" "0x1301" 0 0]
  show ?thesis by (auto simp: split_beta Let_def hi8_def lo8_def mk16_def prod_eq_iff)
qed

end
