(* ===== verification/Z86_Regs.thy ===== *)
theory Z86_Regs
  imports Z86_Addr Z86_Port
begin

text \<open>
  The programmer-visible state of a 16 bit core: the flags (\<^verbatim>\<open>z86Flags<false>\<close>), the
  general registers with their byte halves (\<^verbatim>\<open>z86BaseGPRs<16>\<close>), the instruction
  pointer, segment registers and pending interrupts (\<^verbatim>\<open>z86BaseControlBase<16, false>\<close>),
  the per-instruction prefixes, and the memory and port devices that the C++ keeps in globals
  beside the context.  Accessors follow \<^verbatim>\<open>z86RegCommon\<close> and \<^verbatim>\<open>z86Base\<close>.
\<close>

section \<open>State\<close>

record z86Flags =
  carry :: bool
  parity :: bool
  auxiliary :: bool
  zero :: bool
  sign :: bool
  overflow :: bool
  trap :: bool
  interrupt :: bool
  direction :: bool

record z86Core = z86Flags +
  gpr :: "nat \<Rightarrow> u16"
  rip :: u16
  seg :: "nat \<Rightarrow> u16"
  pending_sinterrupt :: int
  pending_einterrupt :: int
  pending_nmi :: bool
  halted :: bool
  seg_override :: int
  lock :: bool
  rep_type :: int
  mem :: z86Memory
  io_byte_devices :: "PortByteDevice list"
  io_word_devices :: "PortWordDevice list"

text \<open>Register numbers, in the order of the unions of \<^verbatim>\<open>z86BaseGPRs\<close>.\<close>

abbreviation (input) AX :: nat where "AX \<equiv> 0"
abbreviation (input) CX :: nat where "CX \<equiv> 1"
abbreviation (input) DX :: nat where "DX \<equiv> 2"
abbreviation (input) BX :: nat where "BX \<equiv> 3"
abbreviation (input) SP :: nat where "SP \<equiv> 4"
abbreviation (input) BP :: nat where "BP \<equiv> 5"
abbreviation (input) SI :: nat where "SI \<equiv> 6"
abbreviation (input) DI :: nat where "DI \<equiv> 7"

abbreviation (input) ES :: nat where "ES \<equiv> 0"
abbreviation (input) CS :: nat where "CS \<equiv> 1"
abbreviation (input) SS :: nat where "SS \<equiv> 2"
abbreviation (input) DS :: nat where "DS \<equiv> 3"

text \<open>\<^verbatim>\<open>REP_STATE\<close>.\<close>

definition NO_REP :: int where "NO_REP = -1"
definition REP_NZ :: int where "REP_NZ = 0"
definition REP_Z :: int where "REP_Z = 1"
definition REP_NC :: int where "REP_NC = 2"
definition REP_C :: int where "REP_C = 3"

lemmas rep_defs = NO_REP_def REP_NZ_def REP_Z_def REP_NC_def REP_C_def

section \<open>Reset\<close>

definition reset_ip :: "quirks \<Rightarrow> u16" where
  "reset_ip cfg = (if \<not> OLD_RESET_PC cfg then 0xFFF0 else 0)"

definition reset_cs :: "quirks \<Rightarrow> u16" where
  "reset_cs cfg = (if \<not> OLD_RESET_PC cfg then 0xF000 else 0xFFFF)"

definition RESET :: "quirks \<Rightarrow> z86Core \<Rightarrow> z86Core" where
  "RESET cfg c = \<lparr>
     carry = False, parity = False, auxiliary = False, zero = False, sign = False,
     overflow = False, trap = False, interrupt = False, direction = False,
     gpr = (\<lambda>_. 0), rip = reset_ip cfg, seg = (\<lambda>_. 0)(CS := reset_cs cfg),
     pending_sinterrupt = -1, pending_einterrupt = -1, pending_nmi = False, halted = False,
     seg_override = -1, lock = False, rep_type = NO_REP,
     mem = mem c, io_byte_devices = io_byte_devices c, io_word_devices = io_word_devices c\<rparr>"

section \<open>General registers\<close>

definition index_word_reg :: "z86Core \<Rightarrow> nat \<Rightarrow> u16" where
  "index_word_reg c i = gpr c i"

definition set_word_reg :: "nat \<Rightarrow> u16 \<Rightarrow> z86Core \<Rightarrow> z86Core" where
  "set_word_reg i v c = c\<lparr>gpr := (gpr c)(i := v)\<rparr>"

definition index_byte_reg :: "z86Core \<Rightarrow> nat \<Rightarrow> u8" where
  "index_byte_reg c i =
     (if i > 3 then hi8 (gpr c (i AND 3)) else lo8 (gpr c (i AND 3)))"

definition set_byte_reg :: "nat \<Rightarrow> u8 \<Rightarrow> z86Core \<Rightarrow> z86Core" where
  "set_byte_reg i v c =
     (let r = gpr c (i AND 3)
      in c\<lparr>gpr := (gpr c)(i AND 3 := (if i > 3 then mk16 v (lo8 r) else mk16 (hi8 r) v))\<rparr>)"

text \<open>\<^verbatim>\<open>index_regR<T>\<close> and \<^verbatim>\<open>index_regMB<T>\<close>: the operand size selects the view.\<close>

definition index_reg :: "z86Core \<Rightarrow> nat \<Rightarrow> 'a::len word" where
  "index_reg c i =
     (if LENGTH('a) = 8 then ucast (index_byte_reg c i) else ucast (index_word_reg c i))"

definition set_index_reg :: "nat \<Rightarrow> 'a::len word \<Rightarrow> z86Core \<Rightarrow> z86Core" where
  "set_index_reg i v c =
     (if LENGTH('a) = 8 then set_byte_reg i (ucast v) c else set_word_reg i (ucast v) c)"

text \<open>
  \<^verbatim>\<open>A<T>\<close>, \<^verbatim>\<open>C<T>\<close>, \<^verbatim>\<open>D<T>\<close> and \<^verbatim>\<open>ADH<T>\<close> name the low byte or the whole of a
  register; \<^verbatim>\<open>read_AD\<close> and \<^verbatim>\<open>write_AD\<close> treat AX, or DX:AX, as one value of twice the
  operand size.
\<close>

definition reg_A :: "z86Core \<Rightarrow> 'a::len word" where
  "reg_A c = (if LENGTH('a) = 8 then ucast (lo8 (gpr c AX)) else ucast (gpr c AX))"

definition set_A :: "'a::len word \<Rightarrow> z86Core \<Rightarrow> z86Core" where
  "set_A v c = set_index_reg AX v c"

definition reg_C :: "z86Core \<Rightarrow> 'a::len word" where
  "reg_C c = (if LENGTH('a) = 8 then ucast (lo8 (gpr c CX)) else ucast (gpr c CX))"

definition reg_D :: "z86Core \<Rightarrow> 'a::len word" where
  "reg_D c = (if LENGTH('a) = 8 then ucast (lo8 (gpr c DX)) else ucast (gpr c DX))"

definition reg_ADH :: "z86Core \<Rightarrow> 'a::len word" where
  "reg_ADH c = (if LENGTH('a) = 8 then ucast (hi8 (gpr c AX)) else reg_D c)"

definition set_ADH :: "'a::len word \<Rightarrow> z86Core \<Rightarrow> z86Core" where
  "set_ADH v c =
     (if LENGTH('a) = 8 then set_byte_reg 4 (ucast v) c else set_index_reg DX v c)"

definition read_AD :: "z86Core \<Rightarrow> 'b::len word" where
  "read_AD c =
     (if LENGTH('b) = 16 then ucast (gpr c AX)
      else push_bit 16 (ucast (gpr c DX)) OR ucast (gpr c AX))"

definition write_AD :: "'b::len word \<Rightarrow> z86Core \<Rightarrow> z86Core" where
  "write_AD v c =
     (if LENGTH('b) = 16 then set_word_reg AX (ucast v) c
      else set_word_reg DX (ucast (drop_bit 16 v)) (set_word_reg AX (ucast v) c))"

definition write_AD2 :: "'a::len word \<Rightarrow> 'a word \<Rightarrow> z86Core \<Rightarrow> z86Core" where
  "write_AD2 l h c =
     (if LENGTH('a) = 8 then set_byte_reg 4 (ucast h) (set_byte_reg 0 (ucast l) c)
      else set_index_reg DX h (set_index_reg AX l c))"

section \<open>Segment registers and the addresses built from them\<close>

definition get_seg :: "quirks \<Rightarrow> z86Core \<Rightarrow> nat \<Rightarrow> u16" where
  "get_seg cfg c index = (let index = (if WRAP_SEGMENT_MODRM cfg then index AND 3 else index)
                          in seg c index)"

definition write_seg :: "quirks \<Rightarrow> nat \<Rightarrow> u16 \<Rightarrow> z86Core \<Rightarrow> z86Core" where
  "write_seg cfg index selector c =
     (let index = (if WRAP_SEGMENT_MODRM cfg then index AND 3 else index)
      in c\<lparr>seg := (seg c)(index := selector)\<rparr>)"

definition ctx_segment :: "z86Core \<Rightarrow> nat \<Rightarrow> u16" where
  "ctx_segment c default_seg =
     seg c (if seg_override c < 0 then default_seg else nat (seg_override c))"

definition ctx_addr :: "z86Core \<Rightarrow> nat \<Rightarrow> u16 \<Rightarrow> z86Addr" where
  "ctx_addr c default_seg off = \<lparr>segment = ctx_segment c default_seg, offset = off\<rparr>"

definition ctx_addr_force :: "z86Core \<Rightarrow> nat \<Rightarrow> u16 \<Rightarrow> z86Addr" where
  "ctx_addr_force c s off = \<lparr>segment = seg c s, offset = off\<rparr>"

definition ctx_pc :: "z86Core \<Rightarrow> z86Addr" where
  "ctx_pc c = ctx_addr_force c CS (rip c)"

definition ctx_stack :: "z86Core \<Rightarrow> z86Addr" where
  "ctx_stack c = ctx_addr_force c SS (gpr c SP)"

definition ctx_str_src :: "z86Core \<Rightarrow> z86Addr" where
  "ctx_str_src c = ctx_addr c DS (gpr c SI)"

definition ctx_str_dst :: "z86Core \<Rightarrow> z86Addr" where
  "ctx_str_dst c = ctx_addr_force c ES (gpr c DI)"

section \<open>The flags word\<close>

definition get_iopl :: "'r z86Flags_scheme \<Rightarrow> nat" where
  "get_iopl f = 3"

definition get_flags :: "'r z86Flags_scheme \<Rightarrow> 'a::len word" where
  "get_flags f =
     (let base = 0x6002
            OR of_bool (carry f)
            OR push_bit 2 (of_bool (parity f))
            OR push_bit 4 (of_bool (auxiliary f))
            OR push_bit 6 (of_bool (zero f))
            OR push_bit 7 (of_bool (sign f))
      in if 16 \<le> LENGTH('a)
         then base
            OR push_bit 8 (of_bool (trap f))
            OR push_bit 9 (of_bool (interrupt f))
            OR push_bit 10 (of_bool (direction f))
            OR push_bit 11 (of_bool (overflow f))
            OR push_bit 12 (of_nat (get_iopl f))
         else base)"

definition set_flags :: "'a::len word \<Rightarrow> 'r z86Flags_scheme \<Rightarrow> 'r z86Flags_scheme" where
  "set_flags src f =
     (let f = f\<lparr>carry := bit src 0, parity := bit src 2, auxiliary := bit src 4,
                zero := bit src 6, sign := bit src 7\<rparr>
      in if 16 \<le> LENGTH('a)
         then f\<lparr>trap := bit src 8, interrupt := bit src 9, direction := bit src 10,
                overflow := bit src 11\<rparr>
         else f)"

text \<open>Prefixes: \<^verbatim>\<open>set_seg_override\<close>, \<^verbatim>\<open>set_lock\<close>, \<^verbatim>\<open>set_rep_type\<close>, \<^verbatim>\<open>set_repc_type\<close>.\<close>

definition set_seg_override :: "nat \<Rightarrow> z86Core \<Rightarrow> z86Core" where
  "set_seg_override s c = c\<lparr>seg_override := int s\<rparr>"

definition set_lock :: "z86Core \<Rightarrow> z86Core" where
  "set_lock c = c\<lparr>lock := True\<rparr>"

definition set_rep_type :: "u8 \<Rightarrow> z86Core \<Rightarrow> z86Core" where
  "set_rep_type t c = c\<lparr>rep_type := uint (t AND 1)\<rparr>"

definition set_repc_type :: "quirks \<Rightarrow> u8 \<Rightarrow> z86Core \<Rightarrow> z86Core" where
  "set_repc_type cfg t c =
     (if OPCODES_V20 cfg then c\<lparr>rep_type := REP_NC + uint (t AND 1)\<rparr> else c)"

definition has_rep :: "z86Core \<Rightarrow> bool" where
  "has_rep c = (NO_REP < rep_type c)"

definition is_repc :: "quirks \<Rightarrow> z86Core \<Rightarrow> bool" where
  "is_repc cfg c = (OPCODES_V20 cfg \<and> REP_NC \<le> rep_type c)"

definition software_interrupt :: "u8 \<Rightarrow> z86Core \<Rightarrow> z86Core" where
  "software_interrupt n c = c\<lparr>pending_sinterrupt := uint n\<rparr>"

definition JMPABS :: "u16 \<Rightarrow> z86Core \<Rightarrow> z86Core" where
  "JMPABS new_ip c = c\<lparr>rip := new_ip\<rparr>"

definition JMPFABS :: "u16 \<Rightarrow> u16 \<Rightarrow> z86Core \<Rightarrow> z86Core" where
  "JMPFABS new_ip new_cs c = JMPABS new_ip (c\<lparr>seg := (seg c)(CS := new_cs)\<rparr>)"

section \<open>The flags word and the flags\<close>

lemma bit_of_bool_iff: "bit (of_bool b :: 'a::len word) n \<longleftrightarrow> b \<and> n = 0"
  by (cases b) (auto simp: bit_1_iff)

lemma bit_push_of_bool:
  "k < LENGTH('a) \<Longrightarrow> bit (push_bit k (of_bool b) :: 'a::len word) n \<longleftrightarrow> n = k \<and> b"
  by (auto simp: bit_push_bit_iff bit_of_bool_iff)

lemma bit_get_flags16:
  "bit (get_flags f :: u16) n \<longleftrightarrow>
     n = 0 \<and> carry f \<or> n = 1 \<or> n = 2 \<and> parity f \<or> n = 4 \<and> auxiliary f \<or>
     n = 6 \<and> zero f \<or> n = 7 \<and> sign f \<or> n = 8 \<and> trap f \<or> n = 9 \<and> interrupt f \<or>
     n = 10 \<and> direction f \<or> n = 11 \<and> overflow f \<or> n = 12 \<or> n = 13 \<or> n = 14"
proof -
  have base: "(0x6002 :: u16) =
      push_bit 1 (of_bool True) OR (push_bit 13 (of_bool True) OR push_bit 14 (of_bool True))"
    by simp
  have iopl: "push_bit 12 (of_nat (get_iopl f) :: u16) =
      push_bit 12 (of_bool True) OR push_bit 13 (of_bool True)"
    by (simp add: get_iopl_def)
  have len: "16 \<le> LENGTH(16)" by simp
  show ?thesis
    unfolding get_flags_def Let_def iopl base if_P [OF len]
    by (simp only: bit_or_iff bit_push_of_bool bit_of_bool_iff simp_thms numeral_less_iff
        arith_simps len_bit0 len_bit1 len_num1) auto
qed

lemma set_flags_get_flags [simp]: "set_flags (get_flags f :: u16) f = f"
  by (simp add: set_flags_def bit_get_flags16)

lemma set_flags_cong:
  "(set_flags (get_flags f :: u16) g :: 'r z86Flags_scheme) =
     g\<lparr>carry := carry f, parity := parity f, auxiliary := auxiliary f, zero := zero f,
       sign := sign f, trap := trap f, interrupt := interrupt f, direction := direction f,
       overflow := overflow f\<rparr>"
  by (simp add: set_flags_def bit_get_flags16)

lemma get_flags_set_flags:
  "(get_flags (set_flags (src :: u16) f) :: u16) = (src AND 0x0FD5) OR 0x7002"
proof (rule bit_word_eqI)
  fix n assume "n < LENGTH(16)"
  then have "n \<in> set (map nat [0..15])" by (auto simp: image_iff intro: bexI [of _ "int n"])
  moreover have "\<forall>k \<in> set (map nat [0..15]).
      bit (get_flags (set_flags src f) :: u16) k = bit (src AND 0x0FD5 OR 0x7002) k"
    by (simp add: upto_rec1 bit_get_flags16 set_flags_def bit_or_iff bit_and_iff)
  ultimately show "bit (get_flags (set_flags src f) :: u16) n = bit (src AND 0x0FD5 OR 0x7002) n"
    by blast
qed

section \<open>Registers as storage cells\<close>

lemma and_3_mod: "(i :: nat) AND 3 = i mod 4"
  using take_bit_eq_mask [of 2 i] by (simp add: take_bit_eq_mod mask_eq_exp_minus_1)

lemma byte_reg_get_put: "index_byte_reg (set_byte_reg i v c) i = v"
  by (simp add: index_byte_reg_def set_byte_reg_def Let_def)

lemma byte_reg_put_put: "set_byte_reg i v (set_byte_reg i w c) = set_byte_reg i v c"
  by (simp add: set_byte_reg_def Let_def)

lemma byte_reg_put_get: "set_byte_reg i (index_byte_reg c i) c = c"
  by (simp add: index_byte_reg_def set_byte_reg_def Let_def)

interpretation byte_reg: cell "\<lambda>c. index_byte_reg c i" "set_byte_reg i" for i
  by unfold_locales (simp_all add: byte_reg_get_put byte_reg_put_put byte_reg_put_get)

interpretation word_reg: cell "\<lambda>c. index_word_reg c i" "set_word_reg i" for i
  by unfold_locales (simp_all add: index_word_reg_def set_word_reg_def)

lemmas reg_defs = index_reg_def set_index_reg_def index_byte_reg_def set_byte_reg_def
  index_word_reg_def set_word_reg_def reg_A_def set_A_def reg_C_def reg_D_def reg_ADH_def
  set_ADH_def read_AD_def write_AD_def write_AD2_def

lemma set_byte_reg_frame [z86_frame]:
  "i AND 3 \<noteq> j \<Longrightarrow> gpr (set_byte_reg i v c) j = gpr c j"
  "seg (set_byte_reg i v c) = seg c" "mem (set_byte_reg i v c) = mem c"
  "rip (set_byte_reg i v c) = rip c"
  by (simp_all add: set_byte_reg_def Let_def)

lemma set_word_reg_simps [simp]:
  "gpr (set_word_reg i v c) = (gpr c)(i := v)"
  "seg (set_word_reg i v c) = seg c" "mem (set_word_reg i v c) = mem c"
  "rip (set_word_reg i v c) = rip c"
  by (simp_all add: set_word_reg_def)

text \<open>
  The two views of a register overlap: AL to BL are the low bytes and AH to BH the high bytes
  of the first four words, and no other byte of the file moves.
\<close>

lemma byte_reg_alias:
  "index_byte_reg (set_byte_reg i v c) j =
     (if i AND 3 = j AND 3 \<and> (3 < i) = (3 < j) then v else index_byte_reg c j)"
  by (simp add: index_byte_reg_def set_byte_reg_def Let_def)

lemma byte_word_alias:
  "index_word_reg (set_byte_reg i v c) j =
     (if j = i AND 3
      then (if 3 < i then mk16 v (lo8 (gpr c j)) else mk16 (hi8 (gpr c j)) v)
      else index_word_reg c j)"
  by (simp add: index_word_reg_def set_byte_reg_def Let_def)

lemma word_byte_alias:
  "index_byte_reg (set_word_reg i v c) j =
     (if i = j AND 3 then (if 3 < j then hi8 v else lo8 v) else index_byte_reg c j)"
  by (simp add: index_byte_reg_def set_word_reg_def)

section \<open>A concrete machine\<close>

text \<open>The state on which witnesses run: zeroed memory of 1 MB, no device, a stack at 2000:0100.\<close>

definition sample_mem :: z86Memory where
  "sample_mem = \<lparr>raw = (\<lambda>_. 0), bytes = 0x100000, a20 = None\<rparr>"

definition sample_core :: z86Core where
  "sample_core = \<lparr>
     carry = False, parity = False, auxiliary = False, zero = False, sign = False,
     overflow = False, trap = False, interrupt = False, direction = False,
     gpr = (\<lambda>_. 0)(AX := 0x1234, CX := 3, BX := 0x10, SP := 0x100), rip = 0,
     seg = (\<lambda>_. 0)(CS := 0x1000, SS := 0x2000, DS := 0x3000, ES := 0x4000),
     pending_sinterrupt = -1, pending_einterrupt = -1, pending_nmi = False, halted = False,
     seg_override = -1, lock = False, rep_type = NO_REP,
     mem = sample_mem, io_byte_devices = [], io_word_devices = []\<rparr>"

lemmas sample_defs = sample_core_def sample_mem_def

end
