(* ===== verification/Z86_ALU.thy ===== *)
theory Z86_ALU
  imports Z86_Arith Z86_Regs
begin

text \<open>
  The binary and unary arithmetic of \<^verbatim>\<open>z86Base\<close>, from \<^verbatim>\<open>ADD\<close> to \<^verbatim>\<open>NEG\<close>.
  An operation takes the destination's value and the flags, and returns the new value with
  the flags; one definition serves every operand width, as the templates do.  \<open>AND\<close>,
  \<open>OR\<close>, \<open>XOR\<close> and \<open>NOT\<close> carry the suffix \<open>_op\<close>, since the plain
  names are operators on words.
\<close>

section \<open>Result flags\<close>

definition update_parity :: "u8 \<Rightarrow> 'r z86Flags_scheme \<Rightarrow> 'r z86Flags_scheme" where
  "update_parity val f = f\<lparr>parity := even (length (filter (bit val) [0..<8]))\<rparr>"

definition update_pzs :: "'a::len word \<Rightarrow> 'r z86Flags_scheme \<Rightarrow> 'r z86Flags_scheme" where
  "update_pzs val f =
     (let f = update_parity (ucast val) f
      in f\<lparr>zero := (val = 0), sign := (0 < sint val)\<rparr>)"

section \<open>Two operands\<close>

definition ADD ::
  "'a::len word \<Rightarrow> 'a word \<Rightarrow> 'r z86Flags_scheme \<Rightarrow> 'a word \<times> 'r z86Flags_scheme" where
  "ADD dst src f =
     (let temp = dst;
          f = f\<lparr>carry := add_would_overflow_u temp src\<rparr>;
          f = f\<lparr>overflow := add_would_overflow_s temp src\<rparr>;
          res = temp + src;
          f = update_pzs res f;
          f = f\<lparr>auxiliary := (temp XOR src XOR res) AND 0x10 \<noteq> 0\<rparr>
      in (res, f))"

definition OR_op ::
  "'a::len word \<Rightarrow> 'a word \<Rightarrow> 'r z86Flags_scheme \<Rightarrow> 'a word \<times> 'r z86Flags_scheme" where
  "OR_op dst src f =
     (let f = f\<lparr>carry := False, overflow := False\<rparr>;
          dst = dst OR src
      in (dst, update_pzs dst f))"

definition ADC ::
  "'a::len word \<Rightarrow> 'a word \<Rightarrow> 'r z86Flags_scheme \<Rightarrow> 'a word \<times> 'r z86Flags_scheme" where
  "ADC dst src f =
     (let temp = dst;
          (res, c) = carry_add temp src (carry f);
          f = f\<lparr>carry := c\<rparr>;
          f = update_pzs res f;
          f = f\<lparr>auxiliary := (temp XOR src XOR res) AND 0x10 \<noteq> 0\<rparr>;
          f = f\<lparr>overflow := sint (NOT (temp XOR src) AND (temp XOR res)) < 0\<rparr>
      in (res, f))"

definition SBB ::
  "'a::len word \<Rightarrow> 'a word \<Rightarrow> 'r z86Flags_scheme \<Rightarrow> 'a word \<times> 'r z86Flags_scheme" where
  "SBB dst src f =
     (let temp = dst;
          (res, c) = carry_sub temp src (carry f);
          f = f\<lparr>carry := c\<rparr>;
          f = update_pzs res f;
          f = f\<lparr>auxiliary := (temp XOR src XOR res) AND 0x10 \<noteq> 0\<rparr>;
          f = f\<lparr>overflow := sint (NOT (temp XOR src) AND (temp XOR res)) < 0\<rparr>
      in (res, f))"

definition AND_op ::
  "'a::len word \<Rightarrow> 'a word \<Rightarrow> 'r z86Flags_scheme \<Rightarrow> 'a word \<times> 'r z86Flags_scheme" where
  "AND_op dst src f =
     (let f = f\<lparr>carry := False, overflow := False\<rparr>;
          dst = dst AND src
      in (dst, update_pzs dst f))"

definition SUB ::
  "'a::len word \<Rightarrow> 'a word \<Rightarrow> 'r z86Flags_scheme \<Rightarrow> 'a word \<times> 'r z86Flags_scheme" where
  "SUB dst src f =
     (let temp = dst;
          f = f\<lparr>carry := sub_would_overflow_u temp src\<rparr>;
          f = f\<lparr>overflow := sub_would_overflow_s temp src\<rparr>;
          res = temp - src;
          f = update_pzs res f;
          f = f\<lparr>auxiliary := (temp XOR src XOR res) AND 0x10 \<noteq> 0\<rparr>
      in (res, f))"

definition XOR_op ::
  "'a::len word \<Rightarrow> 'a word \<Rightarrow> 'r z86Flags_scheme \<Rightarrow> 'a word \<times> 'r z86Flags_scheme" where
  "XOR_op dst src f =
     (let f = f\<lparr>carry := False, overflow := False\<rparr>;
          dst = dst XOR src
      in (dst, update_pzs dst f))"

definition CMP :: "'a::len word \<Rightarrow> 'a word \<Rightarrow> 'r z86Flags_scheme \<Rightarrow> 'r z86Flags_scheme" where
  "CMP dst src f =
     (let f = f\<lparr>carry := sub_would_overflow_u dst src\<rparr>;
          f = f\<lparr>overflow := sub_would_overflow_s dst src\<rparr>;
          res = dst - src;
          f = update_pzs res f
      in f\<lparr>auxiliary := (dst XOR src XOR res) AND 0x10 \<noteq> 0\<rparr>)"

definition TEST :: "'a::len word \<Rightarrow> 'a word \<Rightarrow> 'r z86Flags_scheme \<Rightarrow> 'r z86Flags_scheme" where
  "TEST dst src f =
     (let f = f\<lparr>carry := False, overflow := False\<rparr>
      in update_pzs (dst AND src) f)"

section \<open>One operand\<close>

definition INC :: "'a::len word \<Rightarrow> 'r z86Flags_scheme \<Rightarrow> 'a word \<times> 'r z86Flags_scheme" where
  "INC dst f =
     (let temp = dst;
          f = f\<lparr>overflow := (temp = word_of_int (smax TYPE('a word)))\<rparr>;
          f = f\<lparr>auxiliary := (temp XOR 1 XOR (temp + 1)) AND 0x10 \<noteq> 0\<rparr>;
          temp = temp + 1
      in (temp, update_pzs temp f))"

definition DEC :: "'a::len word \<Rightarrow> 'r z86Flags_scheme \<Rightarrow> 'a word \<times> 'r z86Flags_scheme" where
  "DEC dst f =
     (let temp = dst;
          f = f\<lparr>overflow := (temp = word_of_int (smax TYPE('a word)))\<rparr>;
          f = f\<lparr>auxiliary := (temp XOR 1 XOR (temp - 1)) AND 0x10 \<noteq> 0\<rparr>;
          temp = temp - 1
      in (temp, update_pzs temp f))"

definition NOT_op :: "'a::len word \<Rightarrow> 'a word" where
  "NOT_op dst = NOT dst"

definition NEG :: "'a::len word \<Rightarrow> 'r z86Flags_scheme \<Rightarrow> 'a word \<times> 'r z86Flags_scheme" where
  "NEG dst f =
     (let temp = dst;
          f = f\<lparr>carry := (temp \<noteq> 0)\<rparr>;
          f = f\<lparr>overflow := (sint temp = smin TYPE('a word))\<rparr>;
          f = f\<lparr>auxiliary := temp AND 0xF \<noteq> 0\<rparr>;
          temp = - temp
      in (temp, update_pzs temp f))"

definition XCHG :: "'a \<Rightarrow> 'a \<Rightarrow> 'a \<times> 'a" where
  "XCHG dst src = (src, dst)"

definition CBW :: "z86Core \<Rightarrow> z86Core" where
  "CBW c = set_word_reg AX (scast (lo8 (gpr c AX))) c"

definition CWD :: "z86Core \<Rightarrow> z86Core" where
  "CWD c = set_word_reg DX (signed_drop_bit 15 (gpr c AX)) c"

section \<open>What the flags say about the result\<close>

lemma and_16_iff_bit:
  assumes "4 < LENGTH('a)"
  shows "(v :: 'a::len word) AND 0x10 \<noteq> 0 \<longleftrightarrow> bit v 4"
proof -
  have "(0x10 :: 'a word) = 2 ^ 4" by simp
  then show ?thesis by (simp only: and_exp_eq_0_iff_not_bit not_not)
qed

lemma bit4_of_int:
  assumes "4 < LENGTH('a)"
  shows "bit (word_of_int k :: 'a::len word) 4 \<longleftrightarrow> odd (k div 16)"
  using assms by (simp only: bit_word_of_int_iff) (simp add: bit_int_def)

lemma bit4_uint:
  assumes "4 < LENGTH('a)"
  shows "bit (x :: 'a::len word) 4 \<longleftrightarrow> odd (uint x div 16)"
  using bit4_of_int [OF assms, of "uint x"] by simp

lemma div_16_sum:
  "(a + b + c) div 16 = a div 16 + b div 16 + (a mod 16 + b mod 16 + c) div (16 :: int)"
proof -
  define qa ra qb rb where "qa = a div 16" "ra = a mod 16" "qb = b div 16" "rb = b mod 16"
  have "a = 16 * qa + ra" "b = 16 * qb + rb" by (simp_all add: qa_ra_qb_rb_def)
  then have "a + b + c = (ra + rb + c) + (qa + qb) * 16" by simp
  then have "(a + b + c) div 16 = (qa + qb) + (ra + rb + c) div 16"
    by simp
  then show ?thesis by (simp add: qa_ra_qb_rb_def)
qed

lemma div_16_diff:
  "(a - b - c) div 16 = a div 16 - b div 16 + (a mod 16 - b mod 16 - c) div (16 :: int)"
proof -
  define qa ra qb rb where "qa = a div 16" "ra = a mod 16" "qb = b div 16" "rb = b mod 16"
  have "a = 16 * qa + ra" "b = 16 * qb + rb" by (simp_all add: qa_ra_qb_rb_def)
  then have "a - b - c = (ra - rb - c) + (qa - qb) * 16" by simp
  then have "(a - b - c) div 16 = (qa - qb) + (ra - rb - c) div 16"
    by simp
  then show ?thesis by (simp add: qa_ra_qb_rb_def)
qed

lemma bit4_xor3:
  assumes "4 < LENGTH('a)"
  shows "bit (x XOR y XOR (word_of_int k) :: 'a::len word) 4 \<longleftrightarrow>
    odd (uint x div 16 + uint y div 16 + k div 16)"
  by (simp only: bit_xor_iff bit4_of_int [OF assms] bit4_uint [OF assms, of x]
      bit4_uint [OF assms, of y] even_add) blast

lemma odd_twice_sum: "odd (a + b + (a + b + c)) \<longleftrightarrow> odd (c :: int)"
  by presburger

lemma odd_twice_diff: "odd (a + b + (a - b + c)) \<longleftrightarrow> odd (c :: int)"
  by presburger

lemma mod_16_bounds: "0 \<le> (a :: int) mod 16" "a mod 16 < 16"
  by simp_all

lemma nibble_carry:
  assumes "4 < LENGTH('a)"
  shows "(x XOR y XOR (x + y + of_bool c) :: 'a::len word) AND 0x10 \<noteq> 0 \<longleftrightarrow>
    16 \<le> uint x mod 16 + uint y mod 16 + of_bool c"
proof -
  have ob: "0 \<le> (of_bool c :: int)" "of_bool c \<le> (1 :: int)" by (cases c; simp)+
  define s :: int where "s = uint x mod 16 + uint y mod 16 + of_bool c"
  have s: "0 \<le> s" "s < 32"
    using mod_16_bounds [of "uint x"] mod_16_bounds [of "uint y"] ob
    unfolding s_def by linarith+
  have w: "(x + y + of_bool c) = (word_of_int (uint x + uint y + of_bool c) :: 'a word)" by simp
  have "bit (x XOR y XOR (x + y + of_bool c)) 4 \<longleftrightarrow>
      odd (uint x div 16 + uint y div 16 + (uint x div 16 + uint y div 16 + s div 16))"
    unfolding w bit4_xor3 [OF assms] div_16_sum [of "uint x" "uint y" "of_bool c"] s_def ..
  also have "\<dots> \<longleftrightarrow> odd (s div 16)" by (rule odd_twice_sum)
  also have "s div 16 = (if 16 \<le> s then 1 else 0)"
    using s by (auto simp: div_pos_geq)
  finally show ?thesis unfolding and_16_iff_bit [OF assms] s_def by (simp split: if_splits)
qed

lemma nibble_borrow:
  assumes "4 < LENGTH('a)"
  shows "(x XOR y XOR (x - y - of_bool c) :: 'a::len word) AND 0x10 \<noteq> 0 \<longleftrightarrow>
    uint x mod 16 < uint y mod 16 + of_bool c"
proof -
  have ob: "0 \<le> (of_bool c :: int)" "of_bool c \<le> (1 :: int)" by (cases c; simp)+
  define s :: int where "s = uint x mod 16 - uint y mod 16 - of_bool c"
  have s: "-16 \<le> s" "s < 16"
    using mod_16_bounds [of "uint x"] mod_16_bounds [of "uint y"] ob
    unfolding s_def by linarith+
  have w: "(x - y - of_bool c) = (word_of_int (uint x - uint y - of_bool c) :: 'a word)" by simp
  have "bit (x XOR y XOR (x - y - of_bool c)) 4 \<longleftrightarrow>
      odd (uint x div 16 + uint y div 16 + (uint x div 16 - uint y div 16 + s div 16))"
    unfolding w bit4_xor3 [OF assms] div_16_diff [of "uint x" "uint y" "of_bool c"] s_def ..
  also have "\<dots> \<longleftrightarrow> odd (s div 16)" by (rule odd_twice_diff)
  also have "s div 16 = (if s < 0 then - 1 else 0)"
  proof (cases "s < 0")
    case True
    have "s div 16 = (s + 16) div 16 - 1" by simp
    also have "(s + 16) div 16 = 0" using s True by (intro div_pos_pos_trivial) auto
    finally show ?thesis using True by simp
  qed (use s in simp)
  finally show ?thesis unfolding and_16_iff_bit [OF assms] s_def by (auto split: if_splits)
qed

lemmas nibble_carry0 = nibble_carry [where c = False, simplified]
lemmas nibble_borrow0 = nibble_borrow [where c = False, simplified]

lemma pzs_fields [simp]:
  "zero (update_pzs v f) = (v = 0)" "sign (update_pzs v f) = (0 < sint v)"
  "parity (update_pzs v f) = even (length (filter (bit (ucast v :: u8)) [0..<8]))"
  "carry (update_pzs v f) = carry f" "auxiliary (update_pzs v f) = auxiliary f"
  "overflow (update_pzs v f) = overflow f" "trap (update_pzs v f) = trap f"
  "interrupt (update_pzs v f) = interrupt f" "direction (update_pzs v f) = direction f"
  by (simp_all add: update_pzs_def update_parity_def Let_def)

lemma ADD_fields [simp]:
  "fst (ADD x y f) = x + y"
  "carry (snd (ADD x y f)) = add_would_overflow_u x y"
  "overflow (snd (ADD x y f)) = add_would_overflow_s x y"
  "zero (snd (ADD x y f)) = (x + y = 0)" "sign (snd (ADD x y f)) = (0 < sint (x + y))"
  "auxiliary (snd (ADD x y f)) = ((x XOR y XOR (x + y)) AND 0x10 \<noteq> 0)"
  by (simp_all add: ADD_def Let_def)

lemma ADC_fields [simp]:
  "fst (ADC x y f) = x + y + of_bool (carry f)"
  "carry (snd (ADC x y f)) = snd (carry_add x y (carry f))"
  "zero (snd (ADC x y f)) = (x + y + of_bool (carry f) = 0)"
  "auxiliary (snd (ADC x y f)) = ((x XOR y XOR (x + y + of_bool (carry f))) AND 0x10 \<noteq> 0)"
  by (simp_all add: ADC_def Let_def carry_add_fst [symmetric] split_beta)

lemma SUB_fields [simp]:
  "fst (SUB x y f) = x - y"
  "carry (snd (SUB x y f)) = (x < y)"
  "overflow (snd (SUB x y f)) = sub_would_overflow_s x y"
  "zero (snd (SUB x y f)) = (x = y)" "sign (snd (SUB x y f)) = (0 < sint (x - y))"
  "auxiliary (snd (SUB x y f)) = ((x XOR y XOR (x - y)) AND 0x10 \<noteq> 0)"
  by (simp_all add: SUB_def Let_def sub_would_overflow_u_iff_less)

lemma SBB_fields [simp]:
  "fst (SBB x y f) = x - y - of_bool (carry f)"
  "carry (snd (SBB x y f)) = snd (carry_sub x y (carry f))"
  "zero (snd (SBB x y f)) = (x - y - of_bool (carry f) = 0)"
  "auxiliary (snd (SBB x y f)) = ((x XOR y XOR (x - y - of_bool (carry f))) AND 0x10 \<noteq> 0)"
  by (simp_all add: SBB_def Let_def carry_sub_fst [symmetric] split_beta)

lemma CMP_SUB: "CMP x y f = snd (SUB x y f)"
  by (simp add: CMP_def SUB_def Let_def)

lemma TEST_AND: "TEST x y f = snd (AND_op x y f)"
  by (simp add: TEST_def AND_op_def Let_def)

section \<open>Signed results\<close>

definition half :: "'a::len itself \<Rightarrow> int" where
  "half _ = 2 ^ (LENGTH('a) - 1)"

lemma half_pos: "0 < half TYPE('a::len)" and two_half: "2 * half TYPE('a::len) = 2 ^ LENGTH('a)"
  by (simp_all add: half_def flip: power_Suc)

lemma sint_half: "- half TYPE('a) \<le> sint (x :: 'a::len word)" "sint x < half TYPE('a)"
  using sint_bounds [of x] by (simp_all add: half_def smin_def smax_def)

lemma sint_in_half:
  assumes "- half TYPE('a) \<le> k" "k < half TYPE('a)"
  shows "sint (word_of_int k :: 'a::len word) = k"
  using assms by (simp add: sint_sbintrunc' half_def signed_take_bit_int_eq_self)

lemma sint_wrap:
  assumes "- 2 * half TYPE('a) \<le> k" "k < 2 * half TYPE('a)"
  shows "sint (word_of_int k :: 'a::len word) =
    (if k < - half TYPE('a) then k + 2 * half TYPE('a)
     else if half TYPE('a) \<le> k then k - 2 * half TYPE('a) else k)"
proof -
  have z: "(word_of_int (2 * half TYPE('a)) :: 'a word) = 0"
    unfolding two_half by simp
  have up: "(word_of_int k :: 'a word) = word_of_int (k + 2 * half TYPE('a))"
    using z by (simp only: wi_hom_add [symmetric] add_0_right)
  have down: "(word_of_int k :: 'a word) = word_of_int (k - 2 * half TYPE('a))"
    using z by (simp only: wi_hom_sub [symmetric] diff_0_right)
  show ?thesis
    using assms half_pos [where 'a = 'a] sint_in_half [of k, where 'a = 'a]
      sint_in_half [of "k + 2 * half TYPE('a)", where 'a = 'a, folded up]
      sint_in_half [of "k - 2 * half TYPE('a)", where 'a = 'a, folded down]
    by auto
qed

lemma sint_sum: "x + y + of_bool c = (word_of_int (sint x + sint y + of_bool c) :: 'a::len word)"
  and sint_diff: "x - y - of_bool c = (word_of_int (sint x - sint y - of_bool c) :: 'a::len word)"
  by simp_all

text \<open>The formula of ADC for the overflow, on signs.\<close>

lemma sint_xor_neg: "sint (x XOR y :: 'a::len word) < 0 \<longleftrightarrow> (sint x < 0) \<noteq> (sint y < 0)"
  by (auto simp: sint_neg_iff_msb bit_xor_iff)

lemma overflow_formula:
  "sint (NOT (x XOR y) AND (x XOR r) :: 'a::len word) < 0 \<longleftrightarrow>
     (sint x < 0) = (sint y < 0) \<and> (sint x < 0) \<noteq> (sint r < 0)"
  by (auto simp: sint_neg_iff_msb bit_xor_iff bit_and_iff bit_not_iff)

lemma of_bool_int: "0 \<le> (of_bool c :: int)" "of_bool c \<le> (1 :: int)"
  by (cases c; simp)+

lemma ADC_overflow_iff:
  fixes x y :: "'a::len word"
  shows "overflow (snd (ADC x y f)) \<longleftrightarrow> sint (fst (ADC x y f)) \<noteq> sint x + sint y + of_bool (carry f)"
proof -
  let ?r = "x + y + of_bool (carry f)" and ?s = "sint x + sint y + of_bool (carry f)"
  have o: "overflow (snd (ADC x y f)) \<longleftrightarrow>
      (sint x < 0) = (sint y < 0) \<and> (sint x < 0) \<noteq> (sint ?r < 0)"
    unfolding overflow_formula [symmetric]
    by (simp add: ADC_def Let_def split_beta carry_add_fst)
  have b: "- 2 * half TYPE('a) \<le> ?s" "?s < 2 * half TYPE('a)"
    using sint_half [of x] sint_half [of y] of_bool_int [of "carry f"] by linarith+
  show ?thesis
    unfolding o ADC_fields sint_sum sint_wrap [OF b]
    using sint_half [of x] sint_half [of y] of_bool_int [of "carry f"] by auto
qed

lemma SBB_overflow_iff:
  "overflow (snd (SBB x y f)) \<longleftrightarrow>
     (sint x < 0) = (sint y < 0) \<and> (sint x < 0) \<noteq> (sint (fst (SBB x y f)) < 0)"
  unfolding SBB_fields overflow_formula [symmetric]
  by (simp add: SBB_def Let_def split_beta carry_sub_fst)

lemma would_overflow_wrap:
  fixes x y :: "'a::len word"
  shows "add_would_overflow_s x y \<longleftrightarrow> sint (x + y) \<noteq> sint x + sint y"
    and "sub_would_overflow_s x y \<longleftrightarrow> sint (x - y) \<noteq> sint x - sint y"
proof -
  have b: "- 2 * half TYPE('a) \<le> sint x + sint y" "sint x + sint y < 2 * half TYPE('a)"
    "- 2 * half TYPE('a) \<le> sint x - sint y" "sint x - sint y < 2 * half TYPE('a)"
    using sint_half [of x] sint_half [of y] by linarith+
  have lim: "smin TYPE('a word) = - half TYPE('a)" "smax TYPE('a word) = half TYPE('a) - 1"
    by (simp_all add: smin_def smax_def half_def)
  show "add_would_overflow_s x y \<longleftrightarrow> sint (x + y) \<noteq> sint x + sint y"
    using sint_wrap [OF b(1,2)] sint_sum [of x y False] half_pos [where 'a = 'a]
    by (auto simp: add_would_overflow_s_def lim split: if_splits)
  show "sub_would_overflow_s x y \<longleftrightarrow> sint (x - y) \<noteq> sint x - sint y"
    using sint_wrap [OF b(3,4)] sint_diff [of x y False] half_pos [where 'a = 'a]
    by (auto simp: sub_would_overflow_s_def lim split: if_splits)
qed

section \<open>Properties of the arithmetic\<close>

text \<open>ADD computes the sum modulo the operand size; the carry makes it exact, the
  overflow flag tells that the signed reading is not, the auxiliary flag is the carry out of
  the low nibble, and the zero flag tells a zero result.\<close>

theorem ADD_correct:
  fixes x y :: "'a::len word"
  assumes "4 < LENGTH('a)"
  shows "uint (fst (ADD x y f)) + 2 ^ LENGTH('a) * of_bool (carry (snd (ADD x y f))) = uint x + uint y
    \<and> (overflow (snd (ADD x y f)) \<longleftrightarrow> sint (fst (ADD x y f)) \<noteq> sint x + sint y)
    \<and> (auxiliary (snd (ADD x y f)) \<longleftrightarrow> 16 \<le> uint x mod 16 + uint y mod 16)
    \<and> (zero (snd (ADD x y f)) \<longleftrightarrow> fst (ADD x y f) = 0)"
  using nibble_carry0 [OF assms, of x y]
  by (simp add: would_overflow_wrap uint_plus_carry add_would_overflow_u_def)

theorem ADD_correct_witness:
  "fst (ADD (0xFF :: u8) 1 sample_core) = 0 \<and> auxiliary (snd (ADD (0xFF :: u8) 1 sample_core))"
  using ADD_correct [of "0xFF :: u8" 1 sample_core] by simp

text \<open>SUB and CMP: the difference with its borrow, the signed overflow, the borrow out
  of the low nibble; CMP sets the flags SUB would and changes nothing else.\<close>

theorem SUB_CMP_correct:
  fixes x y :: "'a::len word"
  assumes "4 < LENGTH('a)"
  shows "uint (fst (SUB x y f)) - 2 ^ LENGTH('a) * of_bool (carry (snd (SUB x y f))) = uint x - uint y
    \<and> (overflow (snd (SUB x y f)) \<longleftrightarrow> sint (fst (SUB x y f)) \<noteq> sint x - sint y)
    \<and> (auxiliary (snd (SUB x y f)) \<longleftrightarrow> uint x mod 16 < uint y mod 16)
    \<and> (zero (snd (SUB x y f)) \<longleftrightarrow> x = y)
    \<and> CMP x y f = snd (SUB x y f)"
  using nibble_borrow0 [OF assms, of x y]
  by (auto simp: would_overflow_wrap uint_minus_borrow word_less_def CMP_SUB)

theorem SUB_CMP_correct_witness:
  "carry (CMP (1 :: u16) 2 sample_core) \<and> \<not> zero (CMP (1 :: u16) 2 sample_core)"
  using SUB_CMP_correct [of "1 :: u16" 2 sample_core] by simp

text \<open>
  A program that adds or subtracts numbers of several words: ADC (SBB) word by word from
  the least significant end, the carry handed on in the flags.
\<close>

fun limbs :: "'a::len word list \<Rightarrow> int" where
  "limbs [] = 0"
| "limbs (x # xs) = uint x + 2 ^ LENGTH('a) * limbs xs"

fun op_chain ::
  "('a::len word \<Rightarrow> 'a word \<Rightarrow> 'f \<Rightarrow> 'a word \<times> 'f) \<Rightarrow> 'a word list \<Rightarrow> 'a word list \<Rightarrow> 'f \<Rightarrow> 'a word list \<times> 'f"
where
  "op_chain g (x # xs) (y # ys) f =
     (let (r, f) = g x y f; (rs, f) = op_chain g xs ys f in (r # rs, f))"
| "op_chain g xs ys f = ([], f)"

lemma op_chain_Cons:
  "op_chain g (x # xs) (y # ys) f =
     (fst (g x y f) # fst (op_chain g xs ys (snd (g x y f))), snd (op_chain g xs ys (snd (g x y f))))"
  by (simp add: split_beta)

lemma ADC_exact:
  fixes x y :: "'a::len word"
  shows "uint (fst (ADC x y f)) + 2 ^ LENGTH('a) * of_bool (carry (snd (ADC x y f)))
    = uint x + uint y + of_bool (carry f)"
  using carry_add_uint [of x y "carry f"] by (simp add: carry_add_fst [symmetric] mult.commute)

lemma SBB_exact:
  fixes x y :: "'a::len word"
  shows "uint (fst (SBB x y f)) - 2 ^ LENGTH('a) * of_bool (carry (snd (SBB x y f)))
    = uint x - uint y - of_bool (carry f)"
  using carry_sub_uint [of x y "carry f"] by (simp add: carry_sub_fst [symmetric] mult.commute)

lemma chain_carry:
  "(2 :: int) ^ n * (l + 2 ^ (n * k) * c) = 2 ^ n * l + 2 ^ (n * Suc k) * c"
  by (simp add: power_add algebra_simps)

text \<open>C35: A chain of ADCs adds numbers of any length: the limbs of the result with the final
  carry are the sum of the operands and the carry at the start.\<close>

theorem ADC_chain_correct:
  fixes xs ys :: "'a::len word list"
  assumes "length xs = length ys"
  shows "limbs (fst (op_chain ADC xs ys f))
      + 2 ^ (LENGTH('a) * length xs) * of_bool (carry (snd (op_chain ADC xs ys f)))
    = limbs xs + limbs ys + of_bool (carry f)"
  using assms
proof (induction xs ys arbitrary: f rule: list_induct2)
  case (Cons x xs y ys)
  define g where "g = snd (ADC x y f)"
  define L K :: int where "L = limbs (fst (op_chain ADC xs ys g))"
    and "K = of_bool (carry (snd (op_chain ADC xs ys g)))"
  have "L + 2 ^ (LENGTH('a) * length xs) * K = limbs xs + limbs ys + of_bool (carry g)"
    unfolding L_def K_def by (rule Cons.IH)
  then have "2 ^ LENGTH('a) * L + 2 ^ (LENGTH('a) * Suc (length xs)) * K
      = 2 ^ LENGTH('a) * (limbs xs + limbs ys) + 2 ^ LENGTH('a) * of_bool (carry g)"
    unfolding chain_carry [symmetric] by (simp add: distrib_left)
  moreover have "uint (fst (ADC x y f)) + 2 ^ LENGTH('a) * of_bool (carry g)
      = uint x + uint y + of_bool (carry f)"
    unfolding g_def by (rule ADC_exact)
  ultimately show ?case
    unfolding op_chain_Cons g_def [symmetric] fst_conv snd_conv limbs.simps L_def [symmetric]
      K_def [symmetric] list.size(4)
    by (simp add: distrib_left)
qed simp

theorem ADC_chain_correct_witness:
  "limbs (fst (op_chain ADC [0xFFFF, 0 :: u16] [1, 0] sample_core)) = 0x10000"
  using ADC_chain_correct [of "[0xFFFF, 0 :: u16]" "[1, 0]" sample_core]
  by (simp add: sample_core_def ADC_def Let_def carry_add_def builtin_addc_def
      add_would_overflow_u_def update_pzs_def update_parity_def)

text \<open>A chain of SBBs subtracts numbers of any length, with the borrow at the start and
  at the end.\<close>

theorem SBB_chain_correct:
  fixes xs ys :: "'a::len word list"
  assumes "length xs = length ys"
  shows "limbs (fst (op_chain SBB xs ys f))
      - 2 ^ (LENGTH('a) * length xs) * of_bool (carry (snd (op_chain SBB xs ys f)))
    = limbs xs - limbs ys - of_bool (carry f)"
  using assms
proof (induction xs ys arbitrary: f rule: list_induct2)
  case (Cons x xs y ys)
  define g where "g = snd (SBB x y f)"
  define L K :: int where "L = limbs (fst (op_chain SBB xs ys g))"
    and "K = of_bool (carry (snd (op_chain SBB xs ys g)))"
  have "L + 2 ^ (LENGTH('a) * length xs) * (- K) = limbs xs - limbs ys - of_bool (carry g)"
    unfolding L_def K_def using Cons.IH [of g] by simp
  then have "2 ^ LENGTH('a) * L + 2 ^ (LENGTH('a) * Suc (length xs)) * (- K)
      = 2 ^ LENGTH('a) * (limbs xs - limbs ys) - 2 ^ LENGTH('a) * of_bool (carry g)"
    unfolding chain_carry [symmetric] by (simp add: right_diff_distrib)
  moreover have "uint (fst (SBB x y f)) - 2 ^ LENGTH('a) * of_bool (carry g)
      = uint x - uint y - of_bool (carry f)"
    unfolding g_def by (rule SBB_exact)
  ultimately show ?case
    unfolding op_chain_Cons g_def [symmetric] fst_conv snd_conv limbs.simps L_def [symmetric]
      K_def [symmetric] list.size(4)
    by (simp add: right_diff_distrib)
qed simp

theorem SBB_chain_correct_witness:
  "limbs (fst (op_chain SBB [0, 1 :: u16] [1, 0] sample_core)) = 0xFFFF"
  using SBB_chain_correct [of "[0, 1 :: u16]" "[1, 0]" sample_core]
  by (simp add: sample_core_def SBB_def Let_def carry_sub_def builtin_subc_def
      sub_would_overflow_u_def update_pzs_def update_parity_def)

text \<open>ADC reports a signed overflow exactly when there is one; SBB uses the same formula,
  with the result that it reports an overflow only when the signed difference is exact.\<close>

theorem ADC_SBB_overflow:
  fixes x y :: "'a::len word"
  shows "(overflow (snd (ADC x y f)) \<longleftrightarrow> sint (fst (ADC x y f)) \<noteq> sint x + sint y + of_bool (carry f))
    \<and> \<not> (overflow (snd (SBB x y f)) \<and> sint (fst (SBB x y f)) \<noteq> sint x - sint y - of_bool (carry f))"
proof -
  let ?d = "sint x - sint y - of_bool (carry f)"
  have "sint (fst (SBB x y f)) = ?d" if same: "(sint x < 0) = (sint y < 0)"
  proof -
    have "- half TYPE('a) \<le> ?d" "?d < half TYPE('a)"
      using same sint_half [of x] sint_half [of y] of_bool_int [of "carry f"] by linarith+
    then show ?thesis unfolding SBB_fields sint_diff by (rule sint_in_half)
  qed
  then show ?thesis using ADC_overflow_iff [of x y f] SBB_overflow_iff [of x y f] by blast
qed

text \<open>INC, DEC and NEG compute modulo the operand size and INC and DEC leave the carry
  alone; the overflow flags of INC and NEG are right, that of DEC is set at the greatest
  signed value instead of the least.\<close>

theorem INC_DEC_NEG:
  fixes x :: "'a::len word"
  assumes "1 < LENGTH('a)"
  shows "fst (INC x f) = x + 1 \<and> fst (DEC x f) = x - 1 \<and> fst (NEG x f) = 0 - x
    \<and> carry (snd (INC x f)) = carry f \<and> carry (snd (DEC x f)) = carry f
    \<and> carry (snd (NEG x f)) = (0 < uint x)
    \<and> (overflow (snd (INC x f)) \<longleftrightarrow> sint (x + 1) \<noteq> sint x + 1)
    \<and> (overflow (snd (NEG x f)) \<longleftrightarrow> sint (0 - x) \<noteq> - sint x)
    \<and> (overflow (snd (DEC x f)) \<longleftrightarrow> sint x = smax TYPE('a word))"
proof -
  have lim: "smin TYPE('a word) = - half TYPE('a)" "smax TYPE('a word) = half TYPE('a) - 1"
    by (simp_all add: smin_def smax_def half_def)
  have "(2 :: int) ^ 1 \<le> 2 ^ (LENGTH('a) - 1)"
    using assms by (intro power_increasing) auto
  then have h: "2 \<le> half TYPE('a)" by (simp add: half_def)
  have one: "x = word_of_int (half TYPE('a) - 1) \<longleftrightarrow> sint x = half TYPE('a) - 1"
  proof
    assume "sint x = half TYPE('a) - 1"
    then have "word_of_int (sint x) = (word_of_int (half TYPE('a) - 1) :: 'a word)" by simp
    then show "x = word_of_int (half TYPE('a) - 1)" by simp
  next
    assume "x = word_of_int (half TYPE('a) - 1)"
    then show "sint x = half TYPE('a) - 1"
      using sint_in_half [of "half TYPE('a) - 1", where 'a = 'a] h by simp
  qed
  have one': "x = word_of_int (half TYPE('a)) - 1 \<longleftrightarrow> sint x = half TYPE('a) - 1"
    using one by simp
  have inc: "sint (x + 1) = (if half TYPE('a) \<le> sint x + 1 then sint x + 1 - 2 * half TYPE('a) else sint x + 1)"
    using sint_wrap [of "sint x + 1", where 'a = 'a] sint_half [of x] h by simp
  have neg: "sint (0 - x) = (if half TYPE('a) \<le> - sint x then - sint x - 2 * half TYPE('a) else - sint x)"
    using sint_wrap [of "- sint x", where 'a = 'a] sint_half [of x] h by simp
  have "overflow (snd (INC x f)) \<longleftrightarrow> sint (x + 1) \<noteq> sint x + 1"
    unfolding inc using h sint_half [of x] by (auto simp: INC_def Let_def lim one')
  moreover have "overflow (snd (NEG x f)) \<longleftrightarrow> sint (0 - x) \<noteq> - sint x"
    unfolding neg using h sint_half [of x] by (auto simp: NEG_def Let_def lim)
  ultimately show ?thesis
    by (simp add: INC_def DEC_def NEG_def Let_def lim one')
       (auto simp: word_neq_0_conv word_less_def)
qed

theorem INC_DEC_NEG_witness:
  "\<not> overflow (snd (DEC (0x80 :: u8) sample_core)) \<and> fst (DEC (0x80 :: u8) sample_core) = 0x7F"
  using INC_DEC_NEG [of "0x80 :: u8" sample_core] by (simp add: smax_def)

text \<open>The sign flag update_pzs leaves after an addition tells that the result is greater than
  zero, so that after an addition it is set exactly when the processor's sign flag and zero
  flag would both be clear.\<close>

theorem sign_flag_positive:
  fixes x y :: "'a::len word"
  shows "sign (snd (ADD x y f)) \<longleftrightarrow>
    \<not> bit (fst (ADD x y f)) (LENGTH('a) - 1) \<and> \<not> zero (snd (ADD x y f))"
  using sint_neg_iff_msb [of "x + y"] signed_eq_0_iff [of "x + y"] by (auto simp: not_less le_less)

end
