(* ===== verification/Z86_Shift.thy ===== *)
theory Z86_Shift
  imports Z86_ALU
begin

text \<open>
  Rotates, shifts, double shifts and bit instructions (\<^verbatim>\<open>ROL4\<close> to
  \<^verbatim>\<open>BSWAP\<close> in \<^verbatim>\<open>z86_core_internal_pre.h\<close>).  The operand type of every caller is an
  unsigned integer.  The shifts work on the operand widened to \<^verbatim>\<open>size_t\<close>; the language
  leaves a shift by 64 or more undefined, and the model takes what the shift instruction
  of the 64 bit hosts does, the count modulo 64.  The properties keep to counts the
  language defines.
\<close>

section \<open>Host shifts\<close>

definition shl64 :: "u64 \<Rightarrow> int \<Rightarrow> u64" where
  "shl64 v n = push_bit (nat (n mod 64)) v"

definition shr64 :: "u64 \<Rightarrow> int \<Rightarrow> u64" where
  "shr64 v n = drop_bit (nat (n mod 64)) v"

definition shift_count :: "quirks \<Rightarrow> 'a::len itself \<Rightarrow> u8 \<Rightarrow> u8" where
  "shift_count cfg _ count =
     (if SHIFT_MASKING cfg
      then (if LENGTH('a) < 64 then count AND 0x1F else count AND 0x3F)
      else count)"

section \<open>Rotates\<close>

text \<open>
  \<^verbatim>\<open>ROL4\<close> and \<^verbatim>\<open>ROR4\<close> rotate a byte through the low half of AL; they compare the
  address of the operand with that of AL, so the model is told whether the two are the same.
  The result is the operand and AL.
\<close>

definition ROL4 :: "bool \<Rightarrow> u8 \<Rightarrow> u8 \<Rightarrow> u8 \<times> u8" where
  "ROL4 dst_is_al dst al =
     (if \<not> dst_is_al
      then (let temp = dst;
                dst = push_bit 4 temp OR (al AND 0xF);
                al = push_bit 4 al;
                al = al OR drop_bit 4 temp
            in (dst, al))
      else (word_rotl 4 dst, word_rotl 4 dst))"

definition ROR4 :: "bool \<Rightarrow> u8 \<Rightarrow> u8 \<Rightarrow> u8 \<times> u8" where
  "ROR4 dst_is_al dst al =
     (if \<not> dst_is_al
      then (let temp = dst in (push_bit 4 al OR drop_bit 4 temp, temp))
      else (dst, dst))"

definition ROL ::
  "quirks \<Rightarrow> 'a::len word \<Rightarrow> u8 \<Rightarrow> 'r z86Flags_scheme \<Rightarrow> 'a word \<times> 'r z86Flags_scheme" where
  "ROL cfg dst count f =
     (let count = shift_count cfg TYPE('a) count
      in if count \<noteq> 0
         then (let res = word_rotl (unat count) dst;
                   f = f\<lparr>carry := (res AND 1 \<noteq> 0)\<rparr>;
                   f = f\<lparr>overflow := (carry f = (sint res < 0))\<rparr>
               in (res, f))
         else (dst, f))"

definition ROR ::
  "quirks \<Rightarrow> 'a::len word \<Rightarrow> u8 \<Rightarrow> 'r z86Flags_scheme \<Rightarrow> 'a word \<times> 'r z86Flags_scheme" where
  "ROR cfg dst count f =
     (let count = shift_count cfg TYPE('a) count
      in if count \<noteq> 0
         then (let res = word_rotr (unat count) dst;
                   f = f\<lparr>carry := (res AND 1 \<noteq> 0)\<rparr>;
                   f = f\<lparr>overflow := (carry f = (sint res < 0))\<rparr>
               in (res, f))
         else (dst, f))"

text \<open>
  The rotates through carry work on an integer of one bit more than the operand
  (\<^verbatim>\<open>UBitInt(total_bits)\<close>), here an integer below \<open>2 ^ total_bits\<close>.  Where
  the count is masked it is reduced modulo \<open>total_bits\<close> before the test for zero,
  otherwise after it.
\<close>

definition rc_count :: "quirks \<Rightarrow> 'a::len itself \<Rightarrow> u8 \<Rightarrow> nat" where
  "rc_count cfg _ count =
     (if SHIFT_MASKING cfg
      then (if LENGTH('a) < 32 then unat (count AND 0x1F) mod (LENGTH('a) + 1)
            else if LENGTH('a) = 32 then unat (count AND 0x1F)
            else if LENGTH('a) = 64 then unat (count AND 0x3F)
            else unat count)
      else unat count)"

text \<open>
  Shifts of an unsigned \<^verbatim>\<open>_BitInt\<close> of the given width: by the width or more they are undefined, which
  happens in RCL and RCR when the count is a multiple of the total width that is not zero, without
  masking.
\<close>

definition bitint_shl :: "nat \<Rightarrow> nat \<Rightarrow> int \<Rightarrow> int" where
  "bitint_shl width k v = (if k < width then take_bit width (push_bit k v) else undefined)"

definition bitint_shr :: "nat \<Rightarrow> nat \<Rightarrow> int \<Rightarrow> int" where
  "bitint_shr width k v = (if k < width then drop_bit k v else undefined)"

definition RCL ::
  "quirks \<Rightarrow> 'a::len word \<Rightarrow> u8 \<Rightarrow> 'r z86Flags_scheme \<Rightarrow> 'a word \<times> 'r z86Flags_scheme" where
  "RCL cfg dst count f =
     (let total_bits = LENGTH('a) + 1;
          count = rc_count cfg TYPE('a) count
      in if count \<noteq> 0
         then (let temp = uint dst + (if carry f then 2 ^ LENGTH('a) else 0);
                   count = (if \<not> SHIFT_MASKING cfg then count mod total_bits else count);
                   temp = bitint_shl total_bits count temp OR bitint_shr total_bits (total_bits - count) temp;
                   f = f\<lparr>carry := (temp > 2 ^ LENGTH('a) - 1)\<rparr>;
                   dst = word_of_int temp;
                   f = f\<lparr>overflow := (carry f = (sint dst < 0))\<rparr>
               in (dst, f))
         else (dst, f))"

definition RCR ::
  "quirks \<Rightarrow> 'a::len word \<Rightarrow> u8 \<Rightarrow> 'r z86Flags_scheme \<Rightarrow> 'a word \<times> 'r z86Flags_scheme" where
  "RCR cfg dst count f =
     (let total_bits = LENGTH('a) + 1;
          count = rc_count cfg TYPE('a) count
      in if count \<noteq> 0
         then (let temp = uint dst + (if carry f then 2 ^ LENGTH('a) else 0);
                   count = (if \<not> SHIFT_MASKING cfg then count mod total_bits else count);
                   temp = bitint_shr total_bits count temp OR bitint_shl total_bits (total_bits - count) temp;
                   f = f\<lparr>carry := (temp > 2 ^ LENGTH('a) - 1)\<rparr>;
                   dst = word_of_int temp;
                   f = f\<lparr>overflow := (bit dst (LENGTH('a) - 2) \<noteq> bit dst (LENGTH('a) - 1))\<rparr>
               in (dst, f))
         else (dst, f))"

section \<open>Shifts\<close>

definition SHL ::
  "quirks \<Rightarrow> 'a::len word \<Rightarrow> u8 \<Rightarrow> 'r z86Flags_scheme \<Rightarrow> 'a word \<times> 'r z86Flags_scheme" where
  "SHL cfg dst count f =
     (let count = shift_count cfg TYPE('a) count
      in if count \<noteq> 0
         then (let temp = dst;
                   f = f\<lparr>carry := (shr64 (ucast temp) (int LENGTH('a) - uint count) AND 1 \<noteq> 0)\<rparr>;
                   res = ucast (shl64 (ucast temp) (uint count));
                   f = update_pzs res f;
                   f = f\<lparr>overflow := (carry f = (sint res < 0))\<rparr>
               in (res, f))
         else (dst, f))"

definition SHR ::
  "quirks \<Rightarrow> 'a::len word \<Rightarrow> u8 \<Rightarrow> 'r z86Flags_scheme \<Rightarrow> 'a word \<times> 'r z86Flags_scheme" where
  "SHR cfg dst count f =
     (let count = shift_count cfg TYPE('a) count
      in if count \<noteq> 0
         then (let temp = dst;
                   f = f\<lparr>carry := (shr64 (ucast temp) (uint count - 1) AND 1 \<noteq> 0)\<rparr>;
                   f = f\<lparr>overflow := (sint temp < 0)\<rparr>;
                   dst = ucast (shr64 (ucast temp) (uint count))
               in (dst, update_pzs dst f))
         else (dst, f))"

definition SETMO ::
  "quirks \<Rightarrow> 'a::len word \<Rightarrow> u8 \<Rightarrow> 'r z86Flags_scheme \<Rightarrow> 'a word \<times> 'r z86Flags_scheme" where
  "SETMO cfg dst count f =
     (if \<not> SAL_IS_SETMO cfg then SHL cfg dst count f
      else (let count = shift_count cfg TYPE('a) count
            in if count \<noteq> 0 then OR_op dst (- 1) f else (dst, f)))"

text \<open>\<^verbatim>\<open>SAR\<close> widens the unsigned operand to \<^verbatim>\<open>ssize_t\<close>, which fills with zeros.\<close>

definition SAR ::
  "quirks \<Rightarrow> 'a::len word \<Rightarrow> u8 \<Rightarrow> 'r z86Flags_scheme \<Rightarrow> 'a word \<times> 'r z86Flags_scheme" where
  "SAR cfg dst count f =
     (let count = shift_count cfg TYPE('a) count
      in if count \<noteq> 0
         then (let temp = dst;
                   f = f\<lparr>carry := (shr64 (ucast temp) (uint count - 1) AND 1 \<noteq> 0)\<rparr>;
                   f = f\<lparr>overflow := False\<rparr>;
                   dst = ucast (signed_drop_bit (nat (uint count mod 64)) (ucast temp :: u64))
               in (dst, update_pzs dst f))
         else (dst, f))"

definition SHLD ::
  "quirks \<Rightarrow> 'a::len word \<Rightarrow> 'a word \<Rightarrow> u8 \<Rightarrow> 'r z86Flags_scheme \<Rightarrow> 'a word \<times> 'r z86Flags_scheme" where
  "SHLD cfg dst src count f =
     (let count = shift_count cfg TYPE('a) count
      in if count \<noteq> 0
         then (let temp = (ucast src OR push_bit LENGTH('a) (ucast dst)) :: u64;
                   f = f\<lparr>carry := (shr64 temp (2 * int LENGTH('a) - uint count) AND 1 \<noteq> 0)\<rparr>;
                   dst = ucast (shl64 temp (uint count));
                   f = update_pzs dst f;
                   f = f\<lparr>overflow := (carry f = (sint dst < 0))\<rparr>
               in (dst, f))
         else (dst, f))"

definition SHRD ::
  "quirks \<Rightarrow> 'a::len word \<Rightarrow> 'a word \<Rightarrow> u8 \<Rightarrow> 'r z86Flags_scheme \<Rightarrow> 'a word \<times> 'r z86Flags_scheme" where
  "SHRD cfg dst src count f =
     (let count = shift_count cfg TYPE('a) count
      in if count \<noteq> 0
         then (let temp = (ucast dst OR push_bit LENGTH('a) (ucast src)) :: u64;
                   f = f\<lparr>carry := (shr64 temp (uint count - 1) AND 1 \<noteq> 0)\<rparr>;
                   dst = ucast (shr64 temp (uint count));
                   f = update_pzs dst f;
                   f = f\<lparr>overflow := (bit dst (LENGTH('a) - 2) \<noteq> bit dst (LENGTH('a) - 1))\<rparr>
               in (dst, f))
         else (dst, f))"

section \<open>Single bits\<close>

text \<open>The callers have reduced the bit number below the operand width.\<close>

definition BT :: "'a::len word \<Rightarrow> 'a word \<Rightarrow> 'r z86Flags_scheme \<Rightarrow> 'r z86Flags_scheme" where
  "BT dst src f = (let mask = push_bit (unat src) 1 in f\<lparr>carry := (dst AND mask \<noteq> 0)\<rparr>)"

definition BTS :: "'a::len word \<Rightarrow> 'a word \<Rightarrow> 'r z86Flags_scheme \<Rightarrow> 'a word \<times> 'r z86Flags_scheme" where
  "BTS dst src f =
     (let mask = push_bit (unat src) 1 in (dst OR mask, f\<lparr>carry := (dst AND mask \<noteq> 0)\<rparr>))"

definition BTR :: "'a::len word \<Rightarrow> 'a word \<Rightarrow> 'r z86Flags_scheme \<Rightarrow> 'a word \<times> 'r z86Flags_scheme" where
  "BTR dst src f =
     (let mask = push_bit (unat src) 1 in (dst AND NOT mask, f\<lparr>carry := (dst AND mask \<noteq> 0)\<rparr>))"

definition BTC :: "'a::len word \<Rightarrow> 'a word \<Rightarrow> 'r z86Flags_scheme \<Rightarrow> 'a word \<times> 'r z86Flags_scheme" where
  "BTC dst src f =
     (let mask = push_bit (unat src) 1 in (dst XOR mask, f\<lparr>carry := (dst AND mask \<noteq> 0)\<rparr>))"

definition IBTS :: "'a::len word \<Rightarrow> 'b::len word \<Rightarrow> u8 \<Rightarrow> u8 \<Rightarrow> 'a word" where
  "IBTS dst src off count =
     (let low_mask = push_bit (unat count) 1 - 1 :: 'b word;
          src = src AND low_mask;
          high_mask = push_bit (unat off) (ucast low_mask) :: 'a word
      in (dst AND NOT high_mask) OR push_bit (unat off) (ucast src))"

definition XBTS :: "'a::len word \<Rightarrow> u8 \<Rightarrow> 'a word" where
  "XBTS src count = src AND (push_bit (unat count) 1 - 1)"

text \<open>
  The scans: the first set bit counting up, and counting down.  \<open>None\<close> is the destination
  left unassigned.
\<close>

fun BSF_loop :: "'a::len word \<Rightarrow> nat \<Rightarrow> nat \<Rightarrow> 'a word option" where
  "BSF_loop src i 0 = None"
| "BSF_loop src i (Suc n) =
     (if drop_bit i src AND 1 \<noteq> 0 then Some (of_nat i) else BSF_loop src (Suc i) n)"

definition BSF :: "'a::len word \<Rightarrow> 'r z86Flags_scheme \<Rightarrow> 'a word option \<times> 'r z86Flags_scheme" where
  "BSF src f =
     (let f = f\<lparr>zero := (src = 0)\<rparr>
      in if \<not> zero f then (BSF_loop src 0 LENGTH('a), f) else (None, f))"

fun BSR_loop :: "'a::len word \<Rightarrow> nat \<Rightarrow> 'a word option" where
  "BSR_loop src i =
     (if drop_bit i src AND 1 \<noteq> 0 then Some (of_nat i)
      else (case i of 0 \<Rightarrow> None | Suc j \<Rightarrow> BSR_loop src j))"

definition BSR :: "'a::len word \<Rightarrow> 'r z86Flags_scheme \<Rightarrow> 'a word option \<times> 'r z86Flags_scheme" where
  "BSR src f =
     (let f = f\<lparr>zero := (src = 0)\<rparr>
      in if \<not> zero f then (BSR_loop src (LENGTH('a) - 1), f) else (None, f))"

text \<open>The bit instructions of the V20.\<close>

definition bit_count :: "'a::len itself \<Rightarrow> u8 \<Rightarrow> nat" where
  "bit_count _ count =
     unat (if LENGTH('a) = 8 then count AND 0x7
           else if LENGTH('a) = 16 then count AND 0xF
           else if LENGTH('a) = 32 then count AND 0x1F
           else if LENGTH('a) = 64 then count AND 0x3F
           else count)"

definition TEST1 :: "'a::len word \<Rightarrow> u8 \<Rightarrow> 'r z86Flags_scheme \<Rightarrow> 'r z86Flags_scheme" where
  "TEST1 dst count f =
     (let f = f\<lparr>zero := (dst AND push_bit (bit_count TYPE('a) count) 1 \<noteq> 0)\<rparr>
      in f\<lparr>carry := False, overflow := False\<rparr>)"

definition SET1 :: "'a::len word \<Rightarrow> u8 \<Rightarrow> 'a word" where
  "SET1 dst count = dst OR push_bit (bit_count TYPE('a) count) 1"

definition CLR1 :: "'a::len word \<Rightarrow> u8 \<Rightarrow> 'a word" where
  "CLR1 dst count = dst AND NOT (push_bit (bit_count TYPE('a) count) 1)"

definition NOT1 :: "'a::len word \<Rightarrow> u8 \<Rightarrow> 'a word" where
  "NOT1 dst count = dst XOR push_bit (bit_count TYPE('a) count) 1"

text \<open>
  \<^verbatim>\<open>BSWAP\<close>: operands of 64 bits reverse eight bytes, all others go through
  \<^verbatim>\<open>__builtin_bswap32\<close>.
\<close>

definition bswap32 :: "u32 \<Rightarrow> u32" where
  "bswap32 v =
     push_bit 24 v OR (push_bit 8 v AND 0xFF0000) OR (drop_bit 8 v AND 0xFF00) OR drop_bit 24 v"

definition bswap64 :: "u64 \<Rightarrow> u64" where
  "bswap64 v = push_bit 32 (ucast (bswap32 (ucast v))) OR ucast (bswap32 (ucast (drop_bit 32 v)))"

definition BSWAP :: "'a::len word \<Rightarrow> 'a word" where
  "BSWAP src =
     (if LENGTH('a) = 64 then ucast (bswap64 (ucast src)) else ucast (bswap32 (ucast src)))"

section \<open>The count and the host shifts\<close>

lemma shift_count_masked:
  assumes "SHIFT_MASKING cfg"
  shows "unat (shift_count cfg TYPE('a::len) n) < (if LENGTH('a) < 64 then 32 else 64)"
proof -
  have "n AND 0x1F \<le> 0x1F" "n AND 0x3F \<le> 0x3F" by (rule word_and_le1)+
  then show ?thesis using assms by (simp add: shift_count_def word_le_nat_alt)
qed

lemma shift_count_zero [simp]: "shift_count cfg TYPE('a::len) 0 = 0"
  by (simp add: shift_count_def)

lemma shl64_small: "n < 64 \<Longrightarrow> shl64 v (int n) = push_bit n v"
  by (simp add: shl64_def nat_mod_distrib)

lemma shr64_small: "n < 64 \<Longrightarrow> shr64 v (int n) = drop_bit n v"
  by (simp add: shr64_def nat_mod_distrib)

lemma and_1_bit: "v AND 1 = 0 \<longleftrightarrow> \<not> bit (v :: 'a::len word) 0"
  by (simp add: and_one_eq bit_0 even_iff_mod_2_eq_zero)

lemma bit_ucast64:
  "LENGTH('a::len) \<le> 64 \<Longrightarrow> bit (ucast (v :: 'a word) :: u64) k = bit v k"
  by (auto simp: bit_ucast_iff dest: bit_imp_le_length)

section \<open>Rotating is invertible\<close>

lemma word_rot_0 [simp]: "word_rotl 0 x = (x :: 'a::len word)" "word_rotr 0 x = x"
proof -
  show "word_rotr 0 x = x"
    by (rule bit_word_eqI) (simp add: bit_word_rotr_iff)
  then show "word_rotl 0 x = x" by (metis word_rot_rl)
qed

lemma ROL_fields:
  fixes x :: "'a::len word"
  assumes "k = unat (shift_count cfg TYPE('a) n)"
  shows "fst (ROL cfg x n f) = word_rotl k x"
    "carry (snd (ROL cfg x n f)) = (if k = 0 then carry f else bit (word_rotl k x) 0)"
    "overflow (snd (ROL cfg x n f)) = (if k = 0 then overflow f
       else bit (word_rotl k x) 0 = bit (word_rotl k x) (LENGTH('a) - 1))"
  using assms by (auto simp: ROL_def Let_def and_1_bit sint_neg_iff_msb unat_eq_0)

lemma ROR_fields:
  fixes x :: "'a::len word"
  assumes "k = unat (shift_count cfg TYPE('a) n)"
  shows "fst (ROR cfg x n f) = word_rotr k x"
    "carry (snd (ROR cfg x n f)) = (if k = 0 then carry f else bit (word_rotr k x) 0)"
    "overflow (snd (ROR cfg x n f)) = (if k = 0 then overflow f
       else bit (word_rotr k x) 0 = bit (word_rotr k x) (LENGTH('a) - 1))"
  using assms by (auto simp: ROR_def Let_def and_1_bit sint_neg_iff_msb unat_eq_0)

text \<open>The rotates through carry as rotates of the number the carry and the operand make.\<close>

definition joined :: "'a::len word \<times> 'r z86Flags_scheme \<Rightarrow> int" where
  "joined r = uint (fst r) + 2 ^ LENGTH('a) * of_bool (carry (snd r))"

definition rot_left :: "nat \<Rightarrow> nat \<Rightarrow> int \<Rightarrow> int" where
  "rot_left t k v = take_bit t (push_bit k v) OR drop_bit (t - k) v"

definition rot_right :: "nat \<Rightarrow> nat \<Rightarrow> int \<Rightarrow> int" where
  "rot_right t k v = drop_bit k v OR take_bit t (push_bit (t - k) v)"

lemma bit_rot_left:
  assumes "take_bit t v = v" "k \<le> t" "i < t"
  shows "bit (rot_left t k v) i = bit v ((i + (t - k)) mod t)"
proof -
  have out: "\<not> bit v j" if "t \<le> j" for j
    using that assms(1) by (metis bit_take_bit_iff not_le)
  show ?thesis
  proof (cases "k \<le> i")
    case True
    then have "(i + (t - k)) mod t = i - k" using assms by (simp add: mod_if)
    then show ?thesis using True assms out
      by (auto simp: rot_left_def bit_or_iff bit_take_bit_iff bit_push_bit_iff bit_drop_bit_eq)
  next
    case False
    then show ?thesis using assms
      by (simp add: rot_left_def bit_or_iff bit_take_bit_iff bit_push_bit_iff bit_drop_bit_eq add.commute)
  qed
qed

lemma bit_rot_right:
  assumes "take_bit t v = v" "k \<le> t" "i < t"
  shows "bit (rot_right t k v) i = bit v ((i + k) mod t)"
proof -
  have out: "\<not> bit v j" if "t \<le> j" for j
    using that assms(1) by (metis bit_take_bit_iff not_le)
  show ?thesis
  proof (cases "i + k < t")
    case True
    then show ?thesis using assms
      by (auto simp: rot_right_def bit_or_iff bit_take_bit_iff bit_push_bit_iff bit_drop_bit_eq add.commute)
  next
    case False
    then have "(i + k) mod t = i - (t - k)" using assms by (simp add: mod_if)
    then show ?thesis using False assms out
      by (auto simp: rot_right_def bit_or_iff bit_take_bit_iff bit_push_bit_iff bit_drop_bit_eq)
  qed
qed

lemma take_bit_rot:
  assumes "take_bit t v = v"
  shows "take_bit t (rot_left t k v) = rot_left t k v" "take_bit t (rot_right t k v) = rot_right t k v"
proof -
  have "take_bit t (drop_bit j v) = drop_bit j v" for j
    using assms by (metis drop_bit_take_bit take_bit_drop_bit min.absorb2 diff_le_self take_bit_take_bit)
  then show "take_bit t (rot_left t k v) = rot_left t k v" "take_bit t (rot_right t k v) = rot_right t k v"
    by (simp_all add: rot_left_def rot_right_def)
qed

lemma rot_cancel:
  assumes "take_bit t v = v" "k \<le> t"
  shows "rot_right t k (rot_left t k v) = v" "rot_left t k (rot_right t k v) = v"
proof -
  have eq: "u = v" if "take_bit t u = u" "\<And>i. i < t \<Longrightarrow> bit u i = bit v i" for u
    using that assms(1) by (metis bit_eqI bit_take_bit_iff)
  note fact = assms take_bit_rot [OF assms(1)]
  have shift: "((i + k) mod t + t - k) mod t = i" if "i < t" for i
  proof (cases "i + k < t")
    case False
    then have "(i + k) mod t = i + k - t" using that assms(2) by (simp add: mod_if)
    then show ?thesis using that False by simp
  qed (use that in simp)
  show "rot_right t k (rot_left t k v) = v"
    by (rule eq) (use fact in \<open>simp_all add: take_bit_rot bit_rot_left bit_rot_right mod_add_left_eq shift\<close>)
  show "rot_left t k (rot_right t k v) = v"
    by (rule eq) (use fact in \<open>simp_all add: take_bit_rot bit_rot_left bit_rot_right mod_add_left_eq\<close>)
qed

definition rc_amount :: "quirks \<Rightarrow> 'a::len itself \<Rightarrow> u8 \<Rightarrow> nat" where
  "rc_amount cfg _ n =
     (if SHIFT_MASKING cfg then rc_count cfg TYPE('a) n else unat n mod (LENGTH('a) + 1))"

lemma rc_amount_le:
  assumes "LENGTH('a::len) \<in> {8, 16, 32, 64}"
  shows "rc_amount cfg TYPE('a) n \<le> LENGTH('a)"
proof -
  have "n AND 0x1F \<le> 0x1F" "n AND 0x3F \<le> 0x3F" by (rule word_and_le1)+
  then have m: "unat (n AND 0x1F) \<le> 31" "unat (n AND 0x3F) \<le> 63" by (simp_all add: word_le_nat_alt)
  have "i mod (LENGTH('a) + 1) \<le> LENGTH('a)" for i :: nat
    by (metis less_Suc_eq_le mod_less_divisor Suc_eq_plus1 zero_less_Suc)
  then show ?thesis using assms m by (auto simp: rc_amount_def rc_count_def)
qed

lemma joined_bounds:
  fixes r :: "'a::len word \<times> 'r z86Flags_scheme"
  shows "0 \<le> joined r" "joined r < 2 ^ (LENGTH('a) + 1)"
proof -
  have p: "(2 :: int) ^ (LENGTH('a) + 1) = 2 * 2 ^ LENGTH('a)" by simp
  have c: "0 \<le> 2 ^ LENGTH('a) * (of_bool (carry (snd r)) :: int)"
    "2 ^ LENGTH('a) * of_bool (carry (snd r)) \<le> (2 ^ LENGTH('a) :: int)" by simp_all
  show "0 \<le> joined r" unfolding joined_def using c(1) uint_ge_0 [of "fst r"] by linarith
  show "joined r < 2 ^ (LENGTH('a) + 1)"
    unfolding joined_def p using c(2) uint_bounded [of "fst r"] by linarith
qed

lemma joined_take_bit:
  "take_bit (LENGTH('a) + 1) (joined (r :: 'a::len word \<times> 'r z86Flags_scheme)) = joined r"
  using joined_bounds [of r] by (simp add: take_bit_int_eq_self)

lemma joined_split:
  assumes "0 \<le> t" "t < 2 ^ (LENGTH('a) + 1)"
  shows "joined (word_of_int t :: 'a::len word, f\<lparr>carry := 2 ^ LENGTH('a) - 1 < t, overflow := v\<rparr>) = t"
proof (cases "t < 2 ^ LENGTH('a)")
  case True
  then show ?thesis using assms by (simp add: joined_def uint_word_of_int)
next
  case False
  then have "(t - 2 ^ LENGTH('a)) mod 2 ^ LENGTH('a) = t - 2 ^ LENGTH('a)"
    using assms by (intro mod_pos_pos_trivial) auto
  then show ?thesis using False by (simp add: joined_def uint_word_of_int)
qed

lemma joined_cong:
  fixes r s :: "'a::len word \<times> 'r z86Flags_scheme"
  assumes "joined r = joined s"
  shows "fst r = fst s \<and> carry (snd r) = carry (snd s)"
  using assms uint_bounded [of "fst r"] uint_ge_0 [of "fst r"] uint_bounded [of "fst s"] uint_ge_0 [of "fst s"]
  by (cases "carry (snd r)"; cases "carry (snd s)"; simp add: joined_def word_uint_eq_iff)

lemma joined_temp: "uint x + (if carry f then 2 ^ LENGTH('a) else 0) = joined (x :: 'a::len word, f)"
  by (simp add: joined_def)

lemma rc_count_amount:
  "(if \<not> SHIFT_MASKING cfg then rc_count cfg TYPE('a::len) n mod (LENGTH('a) + 1)
    else rc_count cfg TYPE('a) n) = rc_amount cfg TYPE('a) n"
  by (simp add: rc_amount_def rc_count_def)

lemma rc_none: "rc_count cfg TYPE('a::len) n = 0 \<Longrightarrow> rc_amount cfg TYPE('a) n = 0"
  using rc_count_amount [of cfg n, where 'a = 'a] by (auto split: if_splits)

text \<open>The counts whose shifts are defined.\<close>

definition rc_defined :: "quirks \<Rightarrow> 'a::len itself \<Rightarrow> u8 \<Rightarrow> bool" where
  "rc_defined cfg _ n \<longleftrightarrow> rc_count cfg TYPE('a) n = 0 \<or> rc_amount cfg TYPE('a) n \<noteq> 0"

lemma bitint_rot:
  assumes "0 < k" "k < w"
  shows "bitint_shl w k v OR bitint_shr w (w - k) v = rot_left w k v"
    "bitint_shr w k v OR bitint_shl w (w - k) v = rot_right w k v"
  using assms by (simp_all add: bitint_shl_def bitint_shr_def rot_left_def rot_right_def)

lemma rot_0:
  assumes "take_bit t v = v"
  shows "rot_left t 0 v = v" "rot_right t 0 v = v"
proof -
  have z: "drop_bit t v = 0" using assms by (metis drop_bit_take_bit diff_self_eq_0 take_bit_0)
  have y: "take_bit t (push_bit t v) = 0" by (simp add: take_bit_push_bit)
  show "rot_left t 0 v = v" "rot_right t 0 v = v"
    by (simp_all add: rot_left_def rot_right_def z y assms)
qed

lemma RCL_joined:
  fixes x :: "'a::len word"
  assumes "LENGTH('a) \<in> {8, 16, 32, 64}" "rc_defined cfg TYPE('a) n"
  shows "joined (RCL cfg x n f) = rot_left (LENGTH('a) + 1) (rc_amount cfg TYPE('a) n) (joined (x, f))"
proof (cases "rc_count cfg TYPE('a) n = 0")
  case True
  then show ?thesis
    using rot_0(1) [OF joined_take_bit [of "(x, f)"]] by (simp add: RCL_def rc_none)
next
  case False
  have k: "0 < rc_amount cfg TYPE('a) n" "rc_amount cfg TYPE('a) n < LENGTH('a) + 1"
    using False assms(2) rc_amount_le [OF assms(1), of cfg n] by (auto simp: rc_defined_def)
  let ?v = "rot_left (LENGTH('a) + 1) (rc_amount cfg TYPE('a) n) (joined (x, f))"
  have "take_bit (LENGTH('a) + 1) ?v = ?v" by (rule take_bit_rot) (rule joined_take_bit)
  then have b: "0 \<le> ?v" "?v < 2 ^ (LENGTH('a) + 1)"
    by (metis take_bit_nonnegative, metis take_bit_int_less_exp)
  obtain o' where "RCL cfg x n f =
      (word_of_int ?v, f\<lparr>carry := 2 ^ LENGTH('a) - 1 < ?v, overflow := o'\<rparr>)"
    unfolding RCL_def Let_def joined_temp rc_count_amount bitint_rot [OF k]
      if_P [OF False] by blast
  then show ?thesis by (simp only: joined_split [OF b])
qed

lemma RCR_joined:
  fixes x :: "'a::len word"
  assumes "LENGTH('a) \<in> {8, 16, 32, 64}" "rc_defined cfg TYPE('a) n"
  shows "joined (RCR cfg x n f) = rot_right (LENGTH('a) + 1) (rc_amount cfg TYPE('a) n) (joined (x, f))"
proof (cases "rc_count cfg TYPE('a) n = 0")
  case True
  then show ?thesis
    using rot_0(2) [OF joined_take_bit [of "(x, f)"]] by (simp add: RCR_def rc_none)
next
  case False
  have k: "0 < rc_amount cfg TYPE('a) n" "rc_amount cfg TYPE('a) n < LENGTH('a) + 1"
    using False assms(2) rc_amount_le [OF assms(1), of cfg n] by (auto simp: rc_defined_def)
  let ?v = "rot_right (LENGTH('a) + 1) (rc_amount cfg TYPE('a) n) (joined (x, f))"
  have "take_bit (LENGTH('a) + 1) ?v = ?v" by (rule take_bit_rot) (rule joined_take_bit)
  then have b: "0 \<le> ?v" "?v < 2 ^ (LENGTH('a) + 1)"
    by (metis take_bit_nonnegative, metis take_bit_int_less_exp)
  obtain o' where "RCR cfg x n f =
      (word_of_int ?v, f\<lparr>carry := 2 ^ LENGTH('a) - 1 < ?v, overflow := o'\<rparr>)"
    unfolding RCR_def Let_def joined_temp rc_count_amount bitint_rot [OF k]
      if_P [OF False] by blast
  then show ?thesis by (simp only: joined_split [OF b])
qed

section \<open>Shifts as arithmetic\<close>

lemma ucast_push_bit64:
  "LENGTH('a::len) \<le> 64 \<Longrightarrow> (ucast (push_bit k (ucast (x :: 'a word) :: u64)) :: 'a word) = push_bit k x"
  by (rule bit_word_eqI) (auto simp: bit_ucast_iff bit_push_bit_iff)

lemma ucast_drop_bit64:
  "LENGTH('a::len) \<le> 64 \<Longrightarrow> (ucast (drop_bit k (ucast (x :: 'a word) :: u64)) :: 'a word) = drop_bit k x"
  by (rule bit_word_eqI) (auto simp: bit_ucast_iff bit_drop_bit_eq dest: bit_imp_le_length)

lemma bit0_shr64:
  "LENGTH('a::len) \<le> 64 \<Longrightarrow> m < 64 \<Longrightarrow>
     shr64 (ucast (x :: 'a word)) (int m) AND 1 = 0 \<longleftrightarrow> \<not> bit x m"
  by (simp add: and_1_bit shr64_small bit_drop_bit_eq bit_ucast64)

lemma uint_of_unat: "uint (x :: 'a::len word) = int (unat x)"
  by simp

lemma SHL_fields:
  fixes x :: "'a::len word"
  assumes "k = unat (shift_count cfg TYPE('a) n)" "LENGTH('a) \<le> 64" "k < 64"
  shows "fst (SHL cfg x n f) = push_bit k x"
    "0 < k \<Longrightarrow> k \<le> LENGTH('a) \<Longrightarrow> carry (snd (SHL cfg x n f)) = bit x (LENGTH('a) - k)"
    "0 < k \<Longrightarrow> overflow (snd (SHL cfg x n f)) =
       (carry (snd (SHL cfg x n f)) = bit (push_bit k x) (LENGTH('a) - 1))"
    "0 < k \<Longrightarrow> zero (snd (SHL cfg x n f)) = (push_bit k x = 0)"
proof -
  have u: "uint (shift_count cfg TYPE('a) n) = int k" using assms(1) by simp
  have nz: "shift_count cfg TYPE('a) n \<noteq> 0 \<longleftrightarrow> 0 < k" using assms(1) by (simp add: unat_gt_0)
  have r: "ucast (shl64 (ucast x) (int k)) = push_bit k x"
    using assms(2,3) by (simp add: shl64_small ucast_push_bit64)
  show "fst (SHL cfg x n f) = push_bit k x"
    unfolding SHL_def Let_def nz u r by auto
  show "0 < k \<Longrightarrow> overflow (snd (SHL cfg x n f)) =
       (carry (snd (SHL cfg x n f)) = bit (push_bit k x) (LENGTH('a) - 1))"
    unfolding SHL_def Let_def nz u r by (simp add: sint_neg_iff_msb)
  show "0 < k \<Longrightarrow> zero (snd (SHL cfg x n f)) = (push_bit k x = 0)"
    unfolding SHL_def Let_def nz u r by simp
  assume k: "0 < k" "k \<le> LENGTH('a)"
  then have "int LENGTH('a) - int k = int (LENGTH('a) - k)" by simp
  then show "carry (snd (SHL cfg x n f)) = bit x (LENGTH('a) - k)"
    unfolding SHL_def Let_def nz u r
    using bit0_shr64 [of "LENGTH('a) - k" x] k assms(2,3) by simp
qed

lemma SHR_fields:
  fixes x :: "'a::len word"
  assumes "k = unat (shift_count cfg TYPE('a) n)" "LENGTH('a) \<le> 64" "k < 64"
  shows "fst (SHR cfg x n f) = drop_bit k x"
    "0 < k \<Longrightarrow> carry (snd (SHR cfg x n f)) = bit x (k - 1)"
    "0 < k \<Longrightarrow> overflow (snd (SHR cfg x n f)) = bit x (LENGTH('a) - 1)"
    "0 < k \<Longrightarrow> zero (snd (SHR cfg x n f)) = (drop_bit k x = 0)"
proof -
  have u: "uint (shift_count cfg TYPE('a) n) = int k" using assms(1) by simp
  have nz: "shift_count cfg TYPE('a) n \<noteq> 0 \<longleftrightarrow> 0 < k" using assms(1) by (simp add: unat_gt_0)
  have r: "ucast (shr64 (ucast x) (int k)) = drop_bit k x"
    using assms(2,3) by (simp add: shr64_small ucast_drop_bit64)
  show "fst (SHR cfg x n f) = drop_bit k x"
    unfolding SHR_def Let_def nz u r by auto
  show "0 < k \<Longrightarrow> overflow (snd (SHR cfg x n f)) = bit x (LENGTH('a) - 1)"
    unfolding SHR_def Let_def nz u r by (simp add: sint_neg_iff_msb)
  show "0 < k \<Longrightarrow> zero (snd (SHR cfg x n f)) = (drop_bit k x = 0)"
    unfolding SHR_def Let_def nz u r by simp
  assume k: "0 < k"
  then have "int k - 1 = int (k - 1)" by simp
  then show "carry (snd (SHR cfg x n f)) = bit x (k - 1)"
    unfolding SHR_def Let_def nz u r
    using bit0_shr64 [of "k - 1" x] k assms(2,3) by simp
qed

lemma SAR_narrow:
  fixes x :: "'a::len word"
  assumes "LENGTH('a) < 64" "k = unat (shift_count cfg TYPE('a) n)" "k < 64"
  shows "fst (SAR cfg x n f) = drop_bit k x"
proof -
  have u: "uint (shift_count cfg TYPE('a) n) = int k" using assms(2) by simp
  have nz: "shift_count cfg TYPE('a) n \<noteq> 0 \<longleftrightarrow> 0 < k" using assms(2) by (simp add: unat_gt_0)
  have "ucast (signed_drop_bit k (ucast x :: u64)) = drop_bit k x"
    using assms by (intro bit_word_eqI)
      (auto simp: bit_ucast_iff bit_signed_drop_bit_iff bit_drop_bit_eq dest: bit_imp_le_length)
  then show ?thesis
    using assms(3) unfolding SAR_def Let_def nz u by (auto simp: nat_mod_distrib)
qed

lemma SAR_wide:
  fixes x :: u64
  assumes "k = unat (shift_count cfg TYPE(64) n)" "k < 64"
  shows "fst (SAR cfg x n f) = signed_drop_bit k x"
proof -
  have u: "uint (shift_count cfg TYPE(64) n) = int k" using assms by simp
  have nz: "shift_count cfg TYPE(64) n \<noteq> 0 \<longleftrightarrow> 0 < k" using assms by (simp add: unat_gt_0)
  show ?thesis
    using assms(2) unfolding SAR_def Let_def nz u by (auto simp: nat_mod_distrib)
qed

lemma drop_bit_nonneg:
  fixes x :: "'a::len word"
  assumes "0 < k"
  shows "0 \<le> sint (drop_bit k x)"
  using sint_neg_iff_msb [of "drop_bit k x"] assms
  by (auto simp: bit_drop_bit_eq not_less dest: bit_imp_le_length)

lemma uint_nonneg: "0 \<le> sint x \<Longrightarrow> uint x = sint (x :: 'a::len word)"
proof -
  assume "0 \<le> sint x"
  moreover have "sint x < 2 ^ LENGTH('a)"
    using sint_half [of x] by (simp add: half_def) (smt (verit) power_increasing diff_le_self)
  ultimately show ?thesis by (simp add: uint_sint take_bit_int_eq_self)
qed

lemma sint_drop_bit:
  fixes x :: "'a::len word"
  assumes "0 \<le> sint x"
  shows "sint (drop_bit k x) = sint x div 2 ^ k"
proof -
  have "0 \<le> sint (drop_bit k x)" using assms drop_bit_nonneg [of k x] by (cases k) auto
  moreover have "uint (drop_bit k x) = uint x div 2 ^ k"
    using uint_bounded [of x]
    by (simp add: unsigned_drop_bit_eq drop_bit_eq_div [where 'a = int] take_bit_int_eq_self)
  ultimately show ?thesis using assms by (metis uint_nonneg)
qed

section \<open>Bits\<close>

lemma BSF_loop_spec:
  assumes "BSF_loop src i n = Some r" "i + n = LENGTH('a::len)"
  shows "\<exists>j. r = of_nat j \<and> i \<le> j \<and> bit src j \<and> (\<forall>k. i \<le> k \<and> k < j \<longrightarrow> \<not> bit (src :: 'a word) k)"
  using assms
proof (induction src i n rule: BSF_loop.induct)
  case (2 src i n)
  show ?case
  proof (cases "bit src i")
    case True
    then show ?thesis using 2 by (auto simp: and_1_bit bit_drop_bit_eq)
  next
    case False
    then obtain j where "r = of_nat j" "Suc i \<le> j" "bit src j" "\<forall>k. Suc i \<le> k \<and> k < j \<longrightarrow> \<not> bit src k"
      using 2 by (auto simp: and_1_bit bit_drop_bit_eq)
    then show ?thesis using False by (metis Suc_leD le_antisym not_less_eq_eq)
  qed
qed simp

lemma BSF_loop_None: "BSF_loop src i n = None \<longleftrightarrow> (\<forall>k. i \<le> k \<and> k < i + n \<longrightarrow> \<not> bit (src :: 'a::len word) k)"
proof (induction src i n rule: BSF_loop.induct)
  case (2 src i n)
  have "(\<forall>k. i \<le> k \<and> k < i + Suc n \<longrightarrow> P k) \<longleftrightarrow> P i \<and> (\<forall>k. Suc i \<le> k \<and> k < Suc i + n \<longrightarrow> P k)" for P
    by (auto simp: Suc_le_eq) (metis le_neq_implies_less)
  then show ?case using 2 by (simp add: and_1_bit bit_drop_bit_eq)
qed auto

declare BSR_loop.simps [simp del]

lemma BSR_loop_spec:
  "BSR_loop (src :: 'a::len word) i = Some r \<Longrightarrow>
     \<exists>j \<le> i. r = of_nat j \<and> bit src j \<and> (\<forall>k. j < k \<and> k \<le> i \<longrightarrow> \<not> bit src k)"
proof (induction i)
  case 0
  then show ?case by (auto simp: BSR_loop.simps and_1_bit split: if_splits)
next
  case (Suc i)
  show ?case
  proof (cases "bit src (Suc i)")
    case True
    then show ?thesis using Suc.prems by (auto simp: BSR_loop.simps [of src "Suc i"] and_1_bit bit_drop_bit_eq)
  next
    case False
    then obtain j where "j \<le> i" "r = of_nat j" "bit src j" "\<forall>k. j < k \<and> k \<le> i \<longrightarrow> \<not> bit src k"
      using Suc by (auto simp: BSR_loop.simps [of src "Suc i"] and_1_bit bit_drop_bit_eq)
    then show ?thesis using False by (metis le_Suc_eq)
  qed
qed

lemma BSR_loop_None: "BSR_loop (src :: 'a::len word) i = None \<longleftrightarrow> (\<forall>k \<le> i. \<not> bit src k)"
proof (induction i)
  case 0
  then show ?case by (simp add: BSR_loop.simps and_1_bit)
next
  case (Suc i)
  then show ?case by (auto simp: BSR_loop.simps [of src "Suc i"] and_1_bit bit_drop_bit_eq le_Suc_eq)
qed

section \<open>Properties of shifts and bits\<close>

text \<open>ROR undoes ROL and ROL undoes ROR at every width and count; both leave in the carry
  the lowest bit of the result, which for ROR is not the bit rotated out, and set the overflow
  flag when the carry and the top bit of the result agree, where the processor compares them
  for difference.\<close>

theorem rotate_roundtrip:
  fixes x :: "'a::len word"
  shows "fst (ROR cfg (fst (ROL cfg x n f)) n g) = x \<and> fst (ROL cfg (fst (ROR cfg x n f)) n g) = x
    \<and> (fst (ROL cfg x n f) = x \<and> snd (ROL cfg x n f) = f \<or>
       carry (snd (ROL cfg x n f)) = bit (fst (ROL cfg x n f)) 0 \<and>
       overflow (snd (ROL cfg x n f)) =
         (carry (snd (ROL cfg x n f)) = bit (fst (ROL cfg x n f)) (LENGTH('a) - 1)))
    \<and> (fst (ROR cfg x n f) = x \<and> snd (ROR cfg x n f) = f \<or>
       carry (snd (ROR cfg x n f)) = bit (fst (ROR cfg x n f)) 0)"
  by (simp add: ROL_fields [OF refl] ROR_fields [OF refl])
     (auto simp: ROL_def ROR_def unat_eq_0)

text \<open>C29: RCL and RCR rotate the operand together with the carry: each undoes the other, the
  operand and the carry both come back, with the count masked as the 80186 does and with the
  count taken modulo the size as the 8086 does, for the counts whose shifts the language defines:
  without masking those are zero and the ones that are no multiple of the width with the carry.\<close>

theorem rotate_carry_roundtrip:
  fixes x :: "'a::len word"
  assumes "LENGTH('a) \<in> {8, 16, 32, 64}" "rc_defined cfg TYPE('a) n"
  shows "(case RCL cfg x n f of (y, g) \<Rightarrow> fst (RCR cfg y n g) = x \<and> carry (snd (RCR cfg y n g)) = carry f)
    \<and> (case RCR cfg x n f of (y, g) \<Rightarrow> fst (RCL cfg y n g) = x \<and> carry (snd (RCL cfg y n g)) = carry f)"
proof -
  have k: "rc_amount cfg TYPE('a) n \<le> LENGTH('a) + 1"
    using rc_amount_le [OF assms(1), of cfg n] by simp
  have "joined (RCR cfg (fst r) n (snd r)) = joined (x, f)" if "r = RCL cfg x n f" for r
    using RCL_joined [OF assms, of x f] rot_cancel(1) [OF joined_take_bit k, of "(x, f)"]
    by (simp add: RCR_joined [OF assms] that)
  moreover have "joined (RCL cfg (fst r) n (snd r)) = joined (x, f)" if "r = RCR cfg x n f" for r
    using RCR_joined [OF assms, of x f] rot_cancel(2) [OF joined_take_bit k, of "(x, f)"]
    by (simp add: RCL_joined [OF assms] that)
  ultimately show ?thesis by (fastforce dest: joined_cong split: prod.split)
qed

theorem rotate_carry_roundtrip_witness:
  "fst (RCR z8086 (fst (RCL z8086 (0x9A :: u8) 21 sample_core)) 21 (snd (RCL z8086 (0x9A :: u8) 21 sample_core))) = 0x9A"
proof -
  have "rc_defined z8086 TYPE(8) 21" by (simp add: rc_defined_def rc_amount_def z8086_def)
  then show ?thesis
    using rotate_carry_roundtrip [where cfg = z8086 and x = "0x9A :: u8" and n = 21 and f = sample_core]
    by (simp add: case_prod_unfold)
qed

text \<open>SHL multiplies by a power of two modulo the operand size and SHR divides by it; the
  carry is the last bit shifted out; after a shift left by one the overflow flag is set
  exactly when the signed result is right.\<close>

theorem SHL_SHR_correct:
  fixes x :: "'a::len word"
  assumes "k = unat (shift_count cfg TYPE('a) n)" "LENGTH('a) \<le> 64" "k < 64"
  shows "fst (SHL cfg x n f) = x * 2 ^ k \<and> fst (SHR cfg x n f) = x div 2 ^ k
    \<and> (0 < k \<and> k \<le> LENGTH('a) \<longrightarrow>
        carry (snd (SHL cfg x n f)) = bit x (LENGTH('a) - k) \<and> carry (snd (SHR cfg x n f)) = bit x (k - 1))
    \<and> (k = 1 \<longrightarrow> (overflow (snd (SHL cfg x n f)) \<longleftrightarrow> sint (2 * x) = 2 * sint x)
        \<and> (overflow (snd (SHR cfg x n f)) \<longleftrightarrow> sint x < 0))"
proof -
  have h: "half TYPE('a) > 0" by (simp add: half_def)
  have two: "sint (x * 2) = sint x * 2 \<longleftrightarrow> (sint x < 0) = (sint (x * 2) < 0)"
    using sint_wrap [of "sint x * 2", where 'a = 'a] sint_half [of x] h by auto
  have e: "overflow (snd (SHL cfg x n f)) \<longleftrightarrow> sint (x * 2) = sint x * 2" if "k = 1"
    using SHL_fields [OF assms, of x f] that
    by (simp add: two sint_neg_iff_msb Suc_leI [OF len_gt_0] mult.commute)
  show ?thesis
    using SHL_fields [OF assms, of x f] SHR_fields [OF assms, of x f] e
    by (simp add: push_bit_eq_mult drop_bit_eq_div sint_neg_iff_msb mult.commute)
qed

theorem SHL_SHR_correct_witness:
  "fst (SHL z80186 (0xC1 :: u8) 33 sample_core) = 0x82 \<and> overflow (snd (SHL z80186 (0xC1 :: u8) 33 sample_core))"
  using SHL_SHR_correct [where k = 1 and cfg = z80186 and n = 33 and x = "0xC1 :: u8" and f = sample_core]
  by (simp add: shift_count_def z80186_def z8086_def)

text \<open>SAR is meant to divide a signed operand rounding down: it does for operands that are
  not negative, and at 64 bits; a negative operand of less than 64 bits is shifted like an
  unsigned one, so that the result is never negative.\<close>

theorem SAR_zero_fills:
  fixes x :: "'a::len word" and y :: u64
  assumes "k = unat (shift_count cfg TYPE('a) n)" "LENGTH('a) < 64" "0 < k" "k < 64"
    and "l = unat (shift_count cfg TYPE(64) n)" "l < 64"
  shows "fst (SAR cfg x n f) = fst (SHR cfg x n f)
    \<and> (sint (fst (SAR cfg x n f)) = sint x div 2 ^ k \<longleftrightarrow> 0 \<le> sint x)
    \<and> sint (fst (SAR cfg y n f)) = sint y div 2 ^ l"
proof -
  have s: "fst (SAR cfg x n f) = drop_bit k x" by (rule SAR_narrow [OF assms(2,1,4)])
  have "sint x div 2 ^ k < 0" if "sint x < 0"
    using that by (simp add: pos_imp_zdiv_neg_iff)
  then have "sint (drop_bit k x) = sint x div 2 ^ k \<longleftrightarrow> 0 \<le> sint x"
    using drop_bit_nonneg [OF assms(3), of x] sint_drop_bit [of x k] by force
  moreover have "sint (signed_drop_bit l y) = sint y div 2 ^ l"
    by (simp add: sint_signed_drop_bit_eq drop_bit_eq_div)
  ultimately show ?thesis
    using SHR_fields(1) [OF assms(1) less_imp_le [OF assms(2)] assms(4), where x = x and f = f]
      SAR_wide [OF assms(5,6), where x = y and f = f]
    by (simp add: s)
qed

theorem SAR_zero_fills_witness:
  "sint (fst (SAR z80186 (0xF0 :: u8) 2 sample_core)) \<noteq> sint (0xF0 :: u8) div 2 ^ 2"
proof -
  have c: "2 = unat (shift_count z80186 TYPE(8) 2)" "2 = unat (shift_count z80186 TYPE(64) 2)"
    by (simp_all add: shift_count_def z80186_def z8086_def)
  have l: "LENGTH(8) < 64" "(0 :: nat) < 2" "(2 :: nat) < 64" by simp_all
  have "\<not> 0 \<le> sint (0xF0 :: u8)" by simp
  then show ?thesis
    using SAR_zero_fills [OF c(1) l c(2) l(3), of "0xF0" sample_core 0] by blast
qed

text \<open>BSF finds the lowest set bit and BSR the highest; an operand of zero sets the zero
  flag and leaves the destination.\<close>

theorem BSF_BSR_correct:
  fixes x :: "'a::len word"
  shows "zero (snd (BSF x f)) = (x = 0) \<and> zero (snd (BSR x f)) = (x = 0)
    \<and> (if x = 0 then fst (BSF x f) = None \<and> fst (BSR x f) = None
       else (\<exists>i j. fst (BSF x f) = Some (of_nat i) \<and> bit x i \<and> (\<forall>k. k < i \<longrightarrow> \<not> bit x k)
         \<and> fst (BSR x f) = Some (of_nat j) \<and> bit x j \<and> (\<forall>k. j < k \<longrightarrow> \<not> bit x k)))"
proof (cases "x = 0")
  case False
  then obtain m where m: "bit x m" using bit_eq_iff [of x 0] by auto
  then have l: "m < LENGTH('a)" by (rule bit_imp_le_length)
  have "BSF_loop x 0 LENGTH('a) \<noteq> None" unfolding BSF_loop_None using m l by auto
  then obtain r where r: "BSF_loop x 0 LENGTH('a) = Some r" by blast
  have "m \<le> LENGTH('a) - 1" using l by linarith
  then have "BSR_loop x (LENGTH('a) - 1) \<noteq> None" unfolding BSR_loop_None using m by blast
  then obtain s where s: "BSR_loop x (LENGTH('a) - 1) = Some s" by blast
  have out: "\<not> bit x k" if "LENGTH('a) - 1 < k" for k
    using that by (auto dest: bit_imp_le_length)
  obtain i where i: "r = of_nat i" "bit x i" "\<forall>k. k < i \<longrightarrow> \<not> bit x k"
    using BSF_loop_spec [OF r] by auto
  obtain j where j: "s = of_nat j" "bit x j" "\<forall>k. j < k \<and> k \<le> LENGTH('a) - 1 \<longrightarrow> \<not> bit x k"
    using BSR_loop_spec [OF s] by auto
  have j': "\<forall>k. j < k \<longrightarrow> \<not> bit x k" using j(3) out by (meson not_le)
  have f: "fst (BSF x f) = Some (of_nat i)" using False r i(1) by (simp add: BSF_def Let_def)
  have g: "fst (BSR x f) = Some (of_nat j)" using False s j(1) by (simp add: BSR_def Let_def)
  have "\<exists>i j. fst (BSF x f) = Some (of_nat i) \<and> bit x i \<and> (\<forall>k. k < i \<longrightarrow> \<not> bit x k)
      \<and> fst (BSR x f) = Some (of_nat j) \<and> bit x j \<and> (\<forall>k. j < k \<longrightarrow> \<not> bit x k)"
    using f g i(2,3) j(2) j' by blast
  moreover have "zero (snd (BSF x f)) = (x = 0)" "zero (snd (BSR x f)) = (x = 0)"
    using False by (simp_all add: BSF_def BSR_def Let_def)
  ultimately show ?thesis by (simp only: False if_False simp_thms)
qed (simp add: BSF_def BSR_def Let_def)

theorem BSF_BSR_correct_witness:
  "\<exists>i. fst (BSF (0x18 :: u16) sample_core) = Some (of_nat i) \<and> bit (0x18 :: u16) i"
proof -
  have "(0x18 :: u16) \<noteq> 0" by simp
  then show ?thesis using BSF_BSR_correct [of "0x18 :: u16" sample_core] by (auto simp del: bit_numeral_simps)
qed

text \<open>BT copies the selected bit into the carry; BTS, BTR and BTC do so too and set, clear
  and flip that bit, leaving every other bit alone; the V20 forms change the same bit, and
  TEST1 sets the zero flag when the bit is set, the opposite of what its name asks.\<close>

theorem bit_ops_correct:
  fixes x i :: "'a::len word"
  assumes "unat i < LENGTH('a)" "bit_count TYPE('a) n = unat i"
  shows "carry (BT x i f) = bit x (unat i) \<and> snd (BTS x i f) = BT x i f \<and> snd (BTR x i f) = BT x i f
    \<and> snd (BTC x i f) = BT x i f
    \<and> fst (BTS x i f) = set_bit (unat i) x \<and> fst (BTR x i f) = unset_bit (unat i) x
    \<and> fst (BTC x i f) = flip_bit (unat i) x
    \<and> SET1 x n = fst (BTS x i f) \<and> CLR1 x n = fst (BTR x i f) \<and> NOT1 x n = fst (BTC x i f)
    \<and> zero (TEST1 x n f) = bit x (unat i)"
proof -
  have b: "x AND push_bit (unat i) 1 = 0 \<longleftrightarrow> \<not> bit x (unat i)"
    by (metis and_exp_eq_0_iff_not_bit push_bit_of_1)
  show ?thesis using assms b
    by (simp add: BT_def BTS_def BTR_def BTC_def SET1_def CLR1_def NOT1_def TEST1_def Let_def
        set_bit_eq_or unset_bit_eq_and_not flip_bit_eq_xor)
qed

theorem bit_ops_correct_witness:
  "fst (BTS (0x10 :: u16) 3 sample_core) = 0x18 \<and> zero (TEST1 (0x10 :: u16) 4 sample_core)"
  using bit_ops_correct [of "3 :: u16" 3 "0x10" sample_core] bit_ops_correct [of "4 :: u16" 4 "0x10" sample_core]
  by (simp add: bit_count_def)

text \<open>SHRD shifts the operand right and brings in the low bits of the second operand; SHLD,
  meant as its mirror image, loses the operand and returns the second one shifted left.\<close>

theorem SHLD_SHRD:
  fixes x y :: "'a::len word"
  assumes "k = unat (shift_count cfg TYPE('a) n)" "0 < k" "k < LENGTH('a)" "LENGTH('a) \<le> 32"
  shows "fst (SHRD cfg x y n f) = drop_bit k x OR push_bit (LENGTH('a) - k) y
    \<and> fst (SHLD cfg x y n f) = push_bit k y
    \<and> carry (snd (SHRD cfg x y n f)) = bit x (k - 1)
    \<and> carry (snd (SHLD cfg x y n f)) = bit x (LENGTH('a) - k)"
proof -
  have u: "uint (shift_count cfg TYPE('a) n) = int k" using assms(1) by simp
  have nz: "shift_count cfg TYPE('a) n \<noteq> 0" using assms(1,2) by auto
  have 1: "int k - 1 = int (k - 1)" "2 * int LENGTH('a) - int k = int (2 * LENGTH('a) - k)"
    using assms by simp_all
  have l: "k < 64" "2 * LENGTH('a) - k < 64" using assms by simp_all
  have "bit (shr64 (ucast y OR push_bit LENGTH('a) (ucast x)) (int (2 * LENGTH('a) - k))) 0 = bit x (LENGTH('a) - k)"
    using assms(2-4) l by (subst shr64_small)
      (auto simp: bit_drop_bit_eq bit_or_iff bit_push_bit_iff bit_ucast_iff dest: bit_imp_le_length)
  moreover have "bit (shr64 (ucast x OR push_bit LENGTH('a) (ucast y)) (int (k - 1))) 0 = bit x (k - 1)"
    using assms(2-4) l by (subst shr64_small)
      (auto simp: bit_drop_bit_eq bit_or_iff bit_push_bit_iff bit_ucast_iff dest: bit_imp_le_length)
  moreover have "ucast (shr64 (ucast x OR push_bit LENGTH('a) (ucast y)) (int k)) = drop_bit k x OR push_bit (LENGTH('a) - k) y"
    using assms(2-4) l by (subst shr64_small, simp, intro bit_word_eqI)
      (auto simp: add.commute [of k] bit_drop_bit_eq bit_or_iff bit_push_bit_iff bit_ucast_iff dest: bit_imp_le_length)
  moreover have "ucast (shl64 (ucast y OR push_bit LENGTH('a) (ucast x)) (int k)) = push_bit k y"
    using assms(2-4) l by (subst shl64_small, simp, intro bit_word_eqI)
      (auto simp: bit_or_iff bit_push_bit_iff bit_ucast_iff dest: bit_imp_le_length)
  ultimately show ?thesis
    unfolding SHLD_def SHRD_def Let_def u 1 using nz by (simp add: and_1_bit)
qed

theorem SHLD_SHRD_witness:
  "fst (SHLD z80186 (0xABCD :: u16) 0x1234 4 sample_core) = 0x2340"
  using SHLD_SHRD [where k = 4 and cfg = z80186 and n = 4 and x = "0xABCD :: u16" and y = "0x1234" and f = sample_core]
  by (simp add: shift_count_def z80186_def z8086_def)

end
