(* ===== verification/Z86_Stack.thy ===== *)
theory Z86_Stack
  imports Z86_Regs
begin

text \<open>
  The stack: \<^verbatim>\<open>PUSH_impl\<close>, \<^verbatim>\<open>POP_impl\<close> and the instructions made of
  them alone.  Both take their operand by reference, so a push reads its source after SP
  has moved and a pop stores its result before SP moves; the source of a push is therefore a
  function of the state and the destination of a pop a state change.  On a real-mode core
  every one of these operations returns \<open>NO_FAULT\<close>, so the model returns the state only.
\<close>

section \<open>Push and pop\<close>

definition PUSH_impl :: "quirks \<Rightarrow> (z86Core \<Rightarrow> 'a::len word) \<Rightarrow> z86Core \<Rightarrow> z86Core" where
  "PUSH_impl cfg src c =
     (let c = c\<lparr>gpr := (gpr c)(SP := gpr c SP - of_nat (max (mem_size TYPE('a word)) 2))\<rparr>
      in c\<lparr>mem := addr_write cfg (ctx_stack c) 0 (src c) (mem c)\<rparr>)"

definition PUSH :: "quirks \<Rightarrow> u16 \<Rightarrow> z86Core \<Rightarrow> z86Core" where
  "PUSH cfg v c = PUSH_impl cfg (\<lambda>_. v) c"

definition POP_impl :: "quirks \<Rightarrow> (u16 \<Rightarrow> z86Core \<Rightarrow> z86Core) \<Rightarrow> z86Core \<Rightarrow> z86Core" where
  "POP_impl cfg dst c =
     (let c = dst (addr_read cfg (ctx_stack c) 0 (mem c)) c
      in c\<lparr>gpr := (gpr c)(SP := gpr c SP + 2)\<rparr>)"

text \<open>A pop into a local variable.\<close>

definition POP :: "quirks \<Rightarrow> z86Core \<Rightarrow> u16 \<times> z86Core" where
  "POP cfg c = (addr_read cfg (ctx_stack c) 0 (mem c), POP_impl cfg (\<lambda>_ c. c) c)"

definition PUSHS :: "quirks \<Rightarrow> nat \<Rightarrow> z86Core \<Rightarrow> z86Core" where
  "PUSHS cfg seg_index c = PUSH cfg (get_seg cfg c seg_index) c"

definition POPS :: "quirks \<Rightarrow> nat \<Rightarrow> z86Core \<Rightarrow> z86Core" where
  "POPS cfg seg_index c = (case POP cfg c of (s, c) \<Rightarrow> write_seg cfg seg_index s c)"

definition push_reg :: "quirks \<Rightarrow> nat \<Rightarrow> z86Core \<Rightarrow> z86Core" where
  "push_reg cfg i = PUSH_impl cfg (\<lambda>c. gpr c i)"

definition pop_reg :: "quirks \<Rightarrow> nat \<Rightarrow> z86Core \<Rightarrow> z86Core" where
  "pop_reg cfg i = POP_impl cfg (set_word_reg i)"

definition PUSHA :: "quirks \<Rightarrow> z86Core \<Rightarrow> z86Core" where
  "PUSHA cfg c =
     (let temp = gpr c SP;
          c = push_reg cfg AX c;
          c = push_reg cfg CX c;
          c = push_reg cfg DX c;
          c = push_reg cfg BX c;
          c = PUSH cfg temp c;
          c = push_reg cfg BP c;
          c = push_reg cfg SI c
      in push_reg cfg DI c)"

definition POPA :: "quirks \<Rightarrow> z86Core \<Rightarrow> z86Core" where
  "POPA cfg c =
     (let c = pop_reg cfg DI c;
          c = pop_reg cfg SI c;
          c = pop_reg cfg BP c;
          c = snd (POP cfg c);
          c = pop_reg cfg BX c;
          c = pop_reg cfg DX c;
          c = pop_reg cfg CX c
      in pop_reg cfg AX c)"

definition PUSHI :: "quirks \<Rightarrow> z86Addr \<Rightarrow> z86Core \<Rightarrow> z86Addr \<times> z86Core" where
  "PUSHI cfg pc c =
     (case addr_read_advance cfg (mem c) 2 pc of (imm, pc) \<Rightarrow> (pc, PUSH cfg imm c))"

definition PUSHF :: "quirks \<Rightarrow> z86Core \<Rightarrow> z86Core" where
  "PUSHF cfg c = PUSH cfg (get_flags c) c"

definition POPF :: "quirks \<Rightarrow> z86Core \<Rightarrow> z86Core" where
  "POPF cfg c = (case POP cfg c of (flags, c) \<Rightarrow> set_flags flags c)"

section \<open>Procedure frames\<close>

text \<open>
  \<^verbatim>\<open>ENTER_impl<uint16_t>\<close>.  The \<^verbatim>\<open>switch\<close> falls through: the default case
  copies \<open>nesting - 1\<close> frame pointers in a do-while loop that counts \<open>nesting\<close> down to
  one, then case 1 pushes the new frame pointer.
\<close>

fun ENTER_copy :: "quirks \<Rightarrow> nat \<Rightarrow> z86Addr \<Rightarrow> z86Core \<Rightarrow> z86Core" where
  "ENTER_copy cfg 0 stack_bp c = c"
| "ENTER_copy cfg (Suc n) stack_bp c =
     (let stack_bp = addr_add stack_bp (-2)
      in ENTER_copy cfg n stack_bp (PUSH cfg (addr_read cfg stack_bp 0 (mem c)) c))"

definition ENTER_impl :: "quirks \<Rightarrow> u16 \<Rightarrow> u8 \<Rightarrow> z86Core \<Rightarrow> z86Core" where
  "ENTER_impl cfg alloc nesting c =
     (let cur_bp = gpr c BP;
          new_bp = gpr c SP - 2;
          c = PUSH cfg cur_bp c;
          c = (if nesting = 0 \<or> nesting = 1 then c
               else ENTER_copy cfg (unat nesting - 1) \<lparr>segment = seg c SS, offset = cur_bp\<rparr> c);
          c = (if nesting = 0 then c else PUSH cfg new_bp c);
          c = c\<lparr>gpr := (gpr c)(BP := new_bp)\<rparr>
      in c\<lparr>gpr := (gpr c)(SP := gpr c SP - alloc)\<rparr>)"

definition ENTER :: "quirks \<Rightarrow> u16 \<Rightarrow> u8 \<Rightarrow> z86Core \<Rightarrow> z86Core" where
  "ENTER cfg alloc nesting c =
     (let nesting = (if \<not> UNMASK_ENTER cfg then nesting AND 0x1F else nesting)
      in ENTER_impl cfg alloc nesting c)"

definition LEAVE :: "quirks \<Rightarrow> z86Core \<Rightarrow> z86Core" where
  "LEAVE cfg c =
     (let c = c\<lparr>gpr := (gpr c)(SP := gpr c BP)\<rparr>
      in POP_impl cfg (set_word_reg BP) c)"

section \<open>The interface of a stack of words\<close>

text \<open>
  What the clients of a stack rely on: pushing makes a new top and moves every other entry one
  place down, dropping moves every entry one place up.  The stack lives in a ring of memory, so
  only \<open>limit\<close> entries survive a push.
\<close>

locale word_stack =
  fixes push :: "'v \<Rightarrow> 's \<Rightarrow> 's"
    and drop_top :: "'s \<Rightarrow> 's"
    and peek :: "'s \<Rightarrow> nat \<Rightarrow> 'v"
    and limit :: nat
    and ok :: "'s \<Rightarrow> bool"
  assumes ok_push: "ok s \<Longrightarrow> ok (push v s)"
    and ok_drop: "ok s \<Longrightarrow> ok (drop_top s)"
    and peek_push_0: "ok s \<Longrightarrow> peek (push v s) 0 = v"
    and peek_push_Suc: "ok s \<Longrightarrow> k < limit \<Longrightarrow> peek (push v s) (Suc k) = peek s k"
    and peek_drop: "ok s \<Longrightarrow> peek (drop_top s) k = peek s (Suc k)"
begin

lemma ok_pushes: "ok s \<Longrightarrow> ok (fold push vs s)"
  by (induction vs arbitrary: s) (simp_all add: ok_push)

lemma ok_drops: "ok s \<Longrightarrow> ok ((drop_top ^^ n) s)"
  by (induction n) (simp_all add: ok_drop)

lemma peek_drops: "ok s \<Longrightarrow> peek ((drop_top ^^ n) s) k = peek s (n + k)"
  by (induction n arbitrary: k) (simp_all add: peek_drop ok_drops)

lemma peek_below_pushes:
  "ok s \<Longrightarrow> length vs + k \<le> limit \<Longrightarrow> peek (fold push vs s) (length vs + k) = peek s k"
proof (induction vs arbitrary: s k)
  case (Cons v vs)
  then have "peek (fold push vs (push v s)) (length vs + Suc k) = peek (push v s) (Suc k)"
    by (intro Cons.IH) (simp_all add: ok_push)
  with Cons.prems show ?case by (simp add: peek_push_Suc)
qed simp

lemma peek_pushes:
  "ok s \<Longrightarrow> length vs \<le> limit \<Longrightarrow> k < length vs \<Longrightarrow> peek (fold push vs s) k = rev vs ! k"
proof (induction vs arbitrary: s k)
  case (Cons v vs)
  show ?case
  proof (cases "k < length vs")
    case True
    with Cons show ?thesis by (simp add: ok_push nth_append)
  next
    case False
    with Cons.prems have "k = length vs + 0" by simp
    with Cons.prems peek_below_pushes [of "push v s" vs 0] show ?thesis
      by (simp add: ok_push peek_push_0 nth_append)
  qed
qed simp

lemma pops_pushes:
  "ok s \<Longrightarrow> length vs \<le> limit \<Longrightarrow> k < length vs \<Longrightarrow>
     peek ((drop_top ^^ k) (fold push vs s)) 0 = rev vs ! k"
  by (simp add: peek_drops ok_pushes peek_pushes)

end

section \<open>The stack segment as such a stack\<close>

definition no_gate :: "z86Core \<Rightarrow> bool" where
  "no_gate c \<longleftrightarrow> a20 (mem c) = None"

definition stack_word :: "quirks \<Rightarrow> z86Core \<Rightarrow> nat \<Rightarrow> u16" where
  "stack_word cfg c k = addr_read cfg (ctx_stack c) (2 * int k) (mem c)"

lemma ctx_stack_simps [simp]:
  "segment (ctx_stack c) = seg c SS" "offset (ctx_stack c) = gpr c SP"
  by (simp_all add: ctx_stack_def ctx_addr_force_def)

lemma addr_read_add: "addr_read cfg (addr_add a d) off m = addr_read cfg a (d + off) m"
  by (simp add: addr_read_def addr_addr_def addr_limit_def Let_def)

lemma addr_write_add: "addr_write cfg (addr_add a d) off v m = addr_write cfg a (d + off) v m"
  by (simp add: addr_write_def addr_addr_def addr_limit_def Let_def)

lemma PUSH_impl_eq:
  "PUSH_impl cfg (src :: z86Core \<Rightarrow> u16) c =
     c\<lparr>gpr := (gpr c)(SP := gpr c SP - 2),
       mem := addr_write cfg (ctx_stack c) (-2)
                (src (c\<lparr>gpr := (gpr c)(SP := gpr c SP - 2)\<rparr>)) (mem c)\<rparr>"
proof -
  have st: "ctx_stack (c\<lparr>gpr := (gpr c)(SP := gpr c SP - 2)\<rparr>) = addr_add (ctx_stack c) (-2)"
    by (simp add: ctx_stack_def ctx_addr_force_def addr_add_def)
  show ?thesis
    by (simp add: PUSH_impl_def Let_def mem_size_def st addr_write_add)
qed

lemma PUSH_eq:
  "PUSH cfg v c = c\<lparr>gpr := (gpr c)(SP := gpr c SP - 2),
     mem := addr_write cfg (ctx_stack c) (-2) v (mem c)\<rparr>"
  by (simp add: PUSH_def PUSH_impl_eq)

lemma POP_eq: "POP cfg c = (stack_word cfg c 0, c\<lparr>gpr := (gpr c)(SP := gpr c SP + 2)\<rparr>)"
  by (simp add: POP_def POP_impl_def stack_word_def)

lemma pop_reg_eq:
  "i \<noteq> SP \<Longrightarrow> pop_reg cfg i c = set_word_reg i (stack_word cfg c 0) (snd (POP cfg c))"
  by (simp add: pop_reg_def POP_impl_def POP_eq stack_word_def set_word_reg_def fun_upd_twist)

lemma push_reg_eq: "i \<noteq> SP \<Longrightarrow> push_reg cfg i c = PUSH cfg (gpr c i) c"
  by (simp add: push_reg_def PUSH_impl_eq PUSH_eq)

lemma apart_stack: "k < 32767 \<Longrightarrow> apart (2 * int k) (-2)"
  by (simp add: apart_def)

lemma stack_word_move:
  assumes "seg c' SS = seg c SS" "gpr c' SP = gpr c SP + word_of_int d"
  shows "stack_word cfg c' k = addr_read cfg (ctx_stack c) (d + 2 * int k) (mem c')"
proof -
  have "ctx_stack c' = addr_add (ctx_stack c) d"
    using assms by (simp add: ctx_stack_def ctx_addr_force_def addr_add_def)
  then show ?thesis by (simp add: stack_word_def addr_read_add)
qed

interpretation ss: word_stack "PUSH cfg" "\<lambda>c. snd (POP cfg c)" "stack_word cfg" 32767 no_gate
  for cfg
proof unfold_locales
  fix c :: z86Core and v :: u16 and k :: nat
  assume ok: "no_gate c"
  then show "no_gate (PUSH cfg v c)" "no_gate (snd (POP cfg c))"
    by (simp_all add: no_gate_def PUSH_eq POP_eq)
  have push: "stack_word cfg (PUSH cfg v c) j =
      addr_read cfg (ctx_stack c) (-2 + 2 * int j) (addr_write cfg (ctx_stack c) (-2) v (mem c))"
    for j
    by (subst stack_word_move [of _ c "-2"]) (simp_all add: PUSH_eq)
  show "stack_word cfg (PUSH cfg v c) 0 = v"
    using ok by (simp add: push no_gate_def)
  show "stack_word cfg (PUSH cfg v c) (Suc k) = stack_word cfg c k" if "k < 32767"
    unfolding push using ok that
    by (simp add: no_gate_def addr_read_write_apart16 apart_stack stack_word_def)
  show "stack_word cfg (snd (POP cfg c)) k = stack_word cfg c (Suc k)"
    by (subst stack_word_move [of _ c 2]) (simp_all add: POP_eq stack_word_def)
qed

lemma no_gate_PUSH [simp]: "no_gate (PUSH cfg v c) = no_gate c"
  by (simp add: no_gate_def PUSH_eq)

lemma ctx_stack_mem_upd: "ctx_stack (c\<lparr>mem := m\<rparr>) = ctx_stack c"
  by (simp add: ctx_stack_def ctx_addr_force_def)

lemma PUSH_fields [simp, z86_frame]:
  "gpr (PUSH cfg v c) = (gpr c)(SP := gpr c SP - 2)"
  "seg (PUSH cfg v c) = seg c" "rip (PUSH cfg v c) = rip c"
  "get_flags (PUSH cfg v c) = (get_flags c :: 'a::len word)"
  by (simp_all add: PUSH_eq get_flags_def get_iopl_def)

text \<open>Pushing a list of words changes SP and the memory only.\<close>

definition pushes_mem :: "quirks \<Rightarrow> u16 list \<Rightarrow> z86Core \<Rightarrow> z86Memory" where
  "pushes_mem cfg vs c = mem (fold (PUSH cfg) vs c)"

lemma fold_PUSH:
  "fold (PUSH cfg) vs c =
     c\<lparr>gpr := (gpr c)(SP := gpr c SP - 2 * of_nat (length vs)), mem := pushes_mem cfg vs c\<rparr>"
proof (induction vs arbitrary: c)
  case Nil
  then show ?case by (simp add: pushes_mem_def)
next
  case (Cons v vs)
  have m: "mem (fold (PUSH cfg) vs (PUSH cfg v c)) = pushes_mem cfg (v # vs) c"
    by (simp add: pushes_mem_def)
  have "fold (PUSH cfg) (v # vs) c = fold (PUSH cfg) vs (PUSH cfg v c)" by simp
  also have "\<dots> = (PUSH cfg v c)\<lparr>gpr := (gpr (PUSH cfg v c))
        (SP := gpr (PUSH cfg v c) SP - 2 * of_nat (length vs)),
      mem := pushes_mem cfg (v # vs) c\<rparr>"
    by (subst Cons.IH) (simp add: pushes_mem_def)
  also have "\<dots> = c\<lparr>gpr := (gpr c)(SP := gpr c SP - 2 * of_nat (length (v # vs))),
      mem := pushes_mem cfg (v # vs) c\<rparr>"
    by (simp add: PUSH_eq algebra_simps)
  finally show ?case .
qed

lemma PUSHA_eq:
  "PUSHA cfg c =
     fold (PUSH cfg) [gpr c AX, gpr c CX, gpr c DX, gpr c BX, gpr c SP, gpr c BP, gpr c SI, gpr c DI] c"
  by (simp add: PUSHA_def Let_def push_reg_eq)

lemma stack_word_popped:
  assumes "g SP = gpr c SP + 2 * of_nat n"
  shows "stack_word cfg (c\<lparr>gpr := g\<rparr>) k = stack_word cfg c (n + k)"
proof -
  have "g SP = gpr c SP + word_of_int (2 * int n)" using assms by simp
  then show ?thesis
    by (subst stack_word_move [of _ c "2 * int n"]) (simp_all add: stack_word_def algebra_simps)
qed

lemma pop_reg_popped:
  assumes "g SP = gpr c SP + 2 * of_nat n" "i \<noteq> SP"
  shows "pop_reg cfg i (c\<lparr>gpr := g\<rparr>) =
    c\<lparr>gpr := g(i := stack_word cfg c n, SP := gpr c SP + 2 * of_nat (Suc n))\<rparr>"
  using assms stack_word_popped [of g c n cfg 0]
  by (simp add: pop_reg_eq POP_eq set_word_reg_def fun_upd_twist algebra_simps)

lemma POP_popped:
  assumes "g SP = gpr c SP + 2 * of_nat n"
  shows "snd (POP cfg (c\<lparr>gpr := g\<rparr>)) = c\<lparr>gpr := g(SP := gpr c SP + 2 * of_nat (Suc n))\<rparr>"
  using assms by (simp add: POP_eq algebra_simps)

lemma POPA_eq:
  "POPA cfg c = c\<lparr>gpr := (gpr c)
     (DI := stack_word cfg c 0, SI := stack_word cfg c 1, BP := stack_word cfg c 2,
      BX := stack_word cfg c 4, DX := stack_word cfg c 5, CX := stack_word cfg c 6,
      AX := stack_word cfg c 7, SP := gpr c SP + 16)\<rparr>"
proof -
  have "POPA cfg c = POPA cfg (c\<lparr>gpr := gpr c\<rparr>)" by simp
  also have "\<dots> = c\<lparr>gpr := (gpr c)
     (DI := stack_word cfg c 0, SI := stack_word cfg c 1, BP := stack_word cfg c 2,
      BX := stack_word cfg c 4, DX := stack_word cfg c 5, CX := stack_word cfg c 6,
      AX := stack_word cfg c 7, SP := gpr c SP + 16)\<rparr>"
    unfolding POPA_def Let_def
    apply (subst pop_reg_popped [of _ _ 0], simp, simp)
    apply (subst pop_reg_popped [of _ _ 1], simp, simp)
    apply (subst pop_reg_popped [of _ _ 2], simp, simp)
    apply (subst POP_popped [of _ _ 3], simp)
    apply (subst pop_reg_popped [of _ _ 4], simp, simp)
    apply (subst pop_reg_popped [of _ _ 5], simp, simp)
    apply (subst pop_reg_popped [of _ _ 6], simp, simp)
    apply (subst pop_reg_popped [of _ _ 7], simp, simp)
    apply (simp add: fun_upd_twist)
    done
  finally show ?thesis .
qed

section \<open>Frames are pushes\<close>

lemma ENTER_copy_pushes:
  "\<exists>vs. length vs = n \<and> ENTER_copy cfg n bp c = fold (PUSH cfg) vs c"
proof (induction n arbitrary: bp c)
  case (Suc n)
  let ?bp = "addr_add bp (-2)"
  let ?v = "addr_read cfg ?bp 0 (mem c)"
  obtain vs where "length vs = n" "ENTER_copy cfg n ?bp (PUSH cfg ?v c) = fold (PUSH cfg) vs (PUSH cfg ?v c)"
    using Suc.IH by blast
  then have "length (?v # vs) = Suc n \<and> ENTER_copy cfg (Suc n) bp c = fold (PUSH cfg) (?v # vs) c"
    by (simp add: Let_def)
  then show ?case by blast
qed simp

definition enter_words :: "u8 \<Rightarrow> nat" where
  "enter_words nesting = (if nesting = 0 then 0 else unat nesting)"

lemma enter_words_bound: "enter_words nesting < 256"
proof -
  have "unat nesting < 2 ^ LENGTH(8)" by (rule unsigned_less)
  then show ?thesis by (simp add: enter_words_def)
qed

lemma ENTER_impl_pushes:
  "\<exists>vs. length vs = enter_words nesting \<and>
     ENTER_impl cfg alloc nesting c =
       (let c' = fold (PUSH cfg) (gpr c BP # vs) c
        in c'\<lparr>gpr := (gpr c')(BP := gpr c SP - 2, SP := gpr c' SP - alloc)\<rparr>)"
proof (cases "nesting = 0")
  case True
  then show ?thesis
    by (intro exI [of _ "[]"]) (simp add: ENTER_impl_def enter_words_def Let_def)
next
  case False
  let ?a = "\<lparr>segment = seg c SS, offset = gpr c BP\<rparr>"
  let ?n = "unat nesting - 1"
  obtain ws where ws: "length ws = ?n"
    "ENTER_copy cfg ?n ?a (PUSH cfg (gpr c BP) c) = fold (PUSH cfg) ws (PUSH cfg (gpr c BP) c)"
    using ENTER_copy_pushes by blast
  have pos: "0 < unat nesting" using False by (simp add: unat_gt_0)
  have one: "ws = []" if "nesting = 1" using ws(1) that by simp
  show ?thesis
  proof (rule exI [of _ "ws @ [gpr c SP - 2]"], rule conjI)
    show "length (ws @ [gpr c SP - 2]) = enter_words nesting"
      using ws(1) pos False by (simp add: enter_words_def)
    show "ENTER_impl cfg alloc nesting c =
       (let c' = fold (PUSH cfg) (gpr c BP # ws @ [gpr c SP - 2]) c
        in c'\<lparr>gpr := (gpr c')(BP := gpr c SP - 2, SP := gpr c' SP - alloc)\<rparr>)"
      using False one ws(2) by (cases "nesting = 1") (simp_all add: ENTER_impl_def Let_def)
  qed
qed

lemma LEAVE_eq:
  "LEAVE cfg c = (let c' = c\<lparr>gpr := (gpr c)(SP := gpr c BP)\<rparr>
     in c'\<lparr>gpr := (gpr c')(BP := stack_word cfg c' 0, SP := gpr c BP + 2)\<rparr>)"
  by (simp add: LEAVE_def Let_def POP_impl_def stack_word_def set_word_reg_def)

lemma frame_top:
  assumes "no_gate c" "length vs < 32767"
  shows "stack_word cfg (c\<lparr>gpr := (gpr c)(SP := gpr c SP - 2), mem := pushes_mem cfg (v # vs) c\<rparr>) 0 = v"
proof -
  let ?c = "fold (PUSH cfg) (v # vs) c"
  have "stack_word cfg (c\<lparr>gpr := (gpr c)(SP := gpr c SP - 2), mem := pushes_mem cfg (v # vs) c\<rparr>) 0
      = stack_word cfg ?c (length vs)"
    by (subst (2) stack_word_move [of _ "c\<lparr>gpr := (gpr c)(SP := gpr c SP - 2)\<rparr>" "- 2 * int (length vs)"])
       (simp_all only: fold_PUSH, simp_all add: stack_word_def ctx_stack_def ctx_addr_force_def algebra_simps)
  also have "\<dots> = v"
    using ss.peek_pushes [of c "v # vs" "length vs" cfg] assms by (simp add: nth_append)
  finally show ?thesis .
qed

lemma no_gate_sample [simp]: "no_gate sample_core"
  by (simp add: no_gate_def sample_defs)

section \<open>Round trips\<close>

text \<open>C12: What is pushed is what the next POP returns, the registers come back, and every
  other word of the stack segment that the ring leaves room for is still there.\<close>

theorem push_pop:
  assumes "no_gate c"
  shows "POP cfg (PUSH cfg v c) = (v, c\<lparr>mem := mem (PUSH cfg v c)\<rparr>) \<and>
    (\<forall>k < 32767. stack_word cfg (snd (POP cfg (PUSH cfg v c))) k = stack_word cfg c k)"
proof
  show "POP cfg (PUSH cfg v c) = (v, c\<lparr>mem := mem (PUSH cfg v c)\<rparr>)"
    using ss.peek_push_0 [OF assms, of cfg v] by (simp add: POP_eq) (simp add: PUSH_eq)
  show "\<forall>k < 32767. stack_word cfg (snd (POP cfg (PUSH cfg v c))) k = stack_word cfg c k"
    using assms by (simp add: ss.peek_drop ss.peek_push_Suc)
qed

theorem push_pop_witness:
  "POP z8086 (PUSH z8086 0xBEEF sample_core) =
     (0xBEEF, sample_core\<lparr>mem := mem (PUSH z8086 0xBEEF sample_core)\<rparr>)"
  using push_pop [OF no_gate_sample, of z8086 "0xBEEF"] by blast

text \<open>PUSHA followed by POPA restores all eight registers, SP included; only the memory
  below the old top of the stack has changed.\<close>

theorem pusha_popa:
  assumes "no_gate c"
  shows "POPA cfg (PUSHA cfg c) = c\<lparr>mem := mem (PUSHA cfg c)\<rparr>"
proof -
  let ?vs = "[gpr c AX, gpr c CX, gpr c DX, gpr c BX, gpr c SP, gpr c BP, gpr c SI, gpr c DI]"
  have w: "stack_word cfg (PUSHA cfg c) k = rev ?vs ! k" if "k < 8" for k
    unfolding PUSHA_eq using ss.peek_pushes [OF assms, of ?vs k cfg] that by simp
  have g: "gpr (PUSHA cfg c) = (gpr c)(SP := gpr c SP - 16)"
    unfolding PUSHA_eq fold_PUSH by simp
  have rest: "PUSHA cfg c = c\<lparr>gpr := gpr (PUSHA cfg c), mem := mem (PUSHA cfg c)\<rparr>"
    unfolding PUSHA_eq fold_PUSH by simp
  have regs: "(gpr c)(SP := gpr c SP - 16, DI := gpr c DI, SI := gpr c SI, BP := gpr c BP,
      BX := gpr c BX, DX := gpr c DX, CX := gpr c CX, AX := gpr c AX, SP := gpr c SP) = gpr c"
    by (rule ext) simp
  have "POPA cfg (PUSHA cfg c) = (PUSHA cfg c)\<lparr>gpr := gpr c\<rparr>"
    unfolding POPA_eq using regs by (simp add: w g)
  also have "\<dots> = c\<lparr>mem := mem (PUSHA cfg c)\<rparr>" by (subst rest) simp
  finally show ?thesis .
qed

theorem pusha_popa_witness:
  "POPA z80186 (PUSHA z80186 sample_core) = sample_core\<lparr>mem := mem (PUSHA z80186 sample_core)\<rparr>"
  by (rule pusha_popa [OF no_gate_sample])

text \<open>PUSH SP stores the value SP has after the push, and POP SP ends with SP two above the
  word it popped, since the pop adds to the register it has just loaded.\<close>

theorem push_pop_sp:
  assumes "no_gate c"
  shows "stack_word cfg (push_reg cfg SP c) 0 = gpr c SP - 2 \<and>
    gpr (pop_reg cfg SP c) SP = stack_word cfg c 0 + 2"
proof
  have "push_reg cfg SP c = PUSH cfg (gpr c SP - 2) c"
    by (simp add: push_reg_def PUSH_impl_eq PUSH_eq)
  then show "stack_word cfg (push_reg cfg SP c) 0 = gpr c SP - 2"
    using ss.peek_push_0 [OF assms] by simp
  show "gpr (pop_reg cfg SP c) SP = stack_word cfg c 0 + 2"
    by (simp add: pop_reg_def POP_impl_def set_word_reg_def stack_word_def)
qed

theorem push_pop_sp_witness:
  "stack_word z8086 (push_reg z8086 SP sample_core) 0 = 0xFE \<and>
   gpr (pop_reg z8086 SP sample_core) SP = stack_word z8086 sample_core 0 + 2"
  using push_pop_sp [OF no_gate_sample, of z8086] by (simp add: sample_core_def)

text \<open>C28: LEAVE undoes ENTER at every nesting level and every allocation: BP and SP come back,
  and so does every other register.\<close>

theorem enter_leave:
  assumes "no_gate c"
  shows "LEAVE cfg (ENTER cfg alloc nesting c) = c\<lparr>mem := mem (ENTER cfg alloc nesting c)\<rparr>"
proof -
  obtain n where enter: "ENTER cfg alloc nesting c = ENTER_impl cfg alloc n c"
    by (simp add: ENTER_def)
  obtain vs where vs: "length vs = enter_words n"
    and impl: "ENTER_impl cfg alloc n c = (let c' = fold (PUSH cfg) (gpr c BP # vs) c
        in c'\<lparr>gpr := (gpr c')(BP := gpr c SP - 2, SP := gpr c' SP - alloc)\<rparr>)"
    using ENTER_impl_pushes by blast
  let ?m = "pushes_mem cfg (gpr c BP # vs) c"
  have st: "ENTER cfg alloc nesting c =
      c\<lparr>gpr := (gpr c)(BP := gpr c SP - 2, SP := gpr c SP - 2 * of_nat (length (gpr c BP # vs)) - alloc),
        mem := ?m\<rparr>"
    unfolding enter impl fold_PUSH Let_def by (simp add: fun_upd_twist)
  have top: "stack_word cfg (c\<lparr>gpr := (gpr c)(BP := gpr c SP - 2, SP := gpr c SP - 2), mem := ?m\<rparr>) 0
      = gpr c BP"
    using frame_top [OF assms, of vs cfg "gpr c BP"] vs enter_words_bound [of n]
    by (simp add: stack_word_def ctx_stack_def ctx_addr_force_def)
  show ?thesis
    unfolding st LEAVE_eq Let_def using top
    by (simp add: fun_upd_twist stack_word_def ctx_stack_def ctx_addr_force_def)
qed

theorem enter_leave_witness:
  "LEAVE z80186 (ENTER z80186 0x20 3 sample_core) =
     sample_core\<lparr>mem := mem (ENTER z80186 0x20 3 sample_core)\<rparr>"
  by (rule enter_leave [OF no_gate_sample])

end
