(* ===== verification/Z86_Control.thy ===== *)
theory Z86_Control
  imports Z86_Stack
begin

text \<open>
  Control transfer: the condition codes and the jumps and loops that test them, calls and
  returns near and far, and interrupts from the moment one is raised until the handler
  is entered (\<^verbatim>\<open>z86Context\<close> in \<^verbatim>\<open>8086_cpu.cpp\<close>).  \<open>pc\<close> is the local copy of
  CS:IP that the decoder advances; the transfers read their operand through it and store the
  new offset to \<open>rip\<close>.  A displacement is sign extended by reading a signed word.
\<close>

section \<open>Condition codes\<close>

datatype CONDITION_CODE =
  CondO | CondNO | CondC | CondNC | CondZ | CondNZ | CondBE | CondA
| CondS | CondNS | CondP | CondNP | CondL | CondGE | CondLE | CondG

definition cond_O :: "'r z86Flags_scheme \<Rightarrow> bool \<Rightarrow> bool" where "cond_O f val = (overflow f = val)"
definition cond_NO :: "'r z86Flags_scheme \<Rightarrow> bool \<Rightarrow> bool" where "cond_NO f val = (overflow f \<noteq> val)"
definition cond_C :: "'r z86Flags_scheme \<Rightarrow> bool \<Rightarrow> bool" where "cond_C f val = (carry f = val)"
definition cond_NC :: "'r z86Flags_scheme \<Rightarrow> bool \<Rightarrow> bool" where "cond_NC f val = (carry f \<noteq> val)"
definition cond_Z :: "'r z86Flags_scheme \<Rightarrow> bool \<Rightarrow> bool" where "cond_Z f val = (zero f = val)"
definition cond_NZ :: "'r z86Flags_scheme \<Rightarrow> bool \<Rightarrow> bool" where "cond_NZ f val = (zero f \<noteq> val)"
definition cond_BE :: "'r z86Flags_scheme \<Rightarrow> bool \<Rightarrow> bool" where
  "cond_BE f val = ((carry f \<or> zero f) = val)"
definition cond_A :: "'r z86Flags_scheme \<Rightarrow> bool \<Rightarrow> bool" where
  "cond_A f val = ((carry f \<or> zero f) \<noteq> val)"
definition cond_S :: "'r z86Flags_scheme \<Rightarrow> bool \<Rightarrow> bool" where "cond_S f val = (sign f = val)"
definition cond_NS :: "'r z86Flags_scheme \<Rightarrow> bool \<Rightarrow> bool" where "cond_NS f val = (sign f \<noteq> val)"
definition cond_P :: "'r z86Flags_scheme \<Rightarrow> bool \<Rightarrow> bool" where "cond_P f val = (parity f = val)"
definition cond_NP :: "'r z86Flags_scheme \<Rightarrow> bool \<Rightarrow> bool" where "cond_NP f val = (parity f \<noteq> val)"
definition cond_L :: "'r z86Flags_scheme \<Rightarrow> bool \<Rightarrow> bool" where
  "cond_L f val = ((sign f \<noteq> overflow f) = val)"
definition cond_GE :: "'r z86Flags_scheme \<Rightarrow> bool \<Rightarrow> bool" where
  "cond_GE f val = ((sign f \<noteq> overflow f) \<noteq> val)"
definition cond_LE :: "'r z86Flags_scheme \<Rightarrow> bool \<Rightarrow> bool" where
  "cond_LE f val = ((zero f \<or> sign f \<noteq> overflow f) = val)"
definition cond_G :: "'r z86Flags_scheme \<Rightarrow> bool \<Rightarrow> bool" where
  "cond_G f val = ((zero f \<or> sign f \<noteq> overflow f) \<noteq> val)"

lemmas cond_defs = cond_O_def cond_NO_def cond_C_def cond_NC_def cond_Z_def cond_NZ_def
  cond_BE_def cond_A_def cond_S_def cond_NS_def cond_P_def cond_NP_def cond_L_def cond_GE_def
  cond_LE_def cond_G_def

fun cond :: "CONDITION_CODE \<Rightarrow> 'r z86Flags_scheme \<Rightarrow> bool \<Rightarrow> bool" where
  "cond CondO f val = cond_O f val"
| "cond CondNO f val = cond_NO f val"
| "cond CondC f val = cond_C f val"
| "cond CondNC f val = cond_NC f val"
| "cond CondZ f val = cond_Z f val"
| "cond CondNZ f val = cond_NZ f val"
| "cond CondBE f val = cond_BE f val"
| "cond CondA f val = cond_A f val"
| "cond CondS f val = cond_S f val"
| "cond CondNS f val = cond_NS f val"
| "cond CondP f val = cond_P f val"
| "cond CondNP f val = cond_NP f val"
| "cond CondL f val = cond_L f val"
| "cond CondGE f val = cond_L f val"
| "cond CondLE f val = cond_LE f val"
| "cond CondG f val = cond_G f val"

definition CMOVCC :: "CONDITION_CODE \<Rightarrow> 'r z86Flags_scheme \<Rightarrow> 'a \<Rightarrow> 'a \<Rightarrow> bool \<Rightarrow> 'a" where
  "CMOVCC cc f dst src val = (if cond cc f val then src else dst)"

definition SETCC :: "CONDITION_CODE \<Rightarrow> 'r z86Flags_scheme \<Rightarrow> bool \<Rightarrow> 'a::len word" where
  "SETCC cc f val = of_bool (cond cc f val)"

section \<open>Displacements\<close>

definition exec_i8 :: "quirks \<Rightarrow> z86Addr \<Rightarrow> z86Core \<Rightarrow> u16" where
  "exec_i8 cfg pc c = scast (addr_read cfg pc 0 (mem c) :: u8)"

definition exec_i16 :: "quirks \<Rightarrow> z86Addr \<Rightarrow> z86Core \<Rightarrow> u16" where
  "exec_i16 cfg pc c = addr_read cfg pc 0 (mem c)"

section \<open>Jumps and loops\<close>

definition JMP_byte :: "quirks \<Rightarrow> z86Addr \<Rightarrow> z86Core \<Rightarrow> z86Core" where
  "JMP_byte cfg pc c = c\<lparr>rip := offset pc + 1 + exec_i8 cfg pc c\<rparr>"

definition JMP :: "quirks \<Rightarrow> z86Addr \<Rightarrow> z86Core \<Rightarrow> z86Core" where
  "JMP cfg pc c = c\<lparr>rip := offset pc + 2 + exec_i16 cfg pc c\<rparr>"

definition JCC_byte :: "quirks \<Rightarrow> CONDITION_CODE \<Rightarrow> z86Addr \<Rightarrow> bool \<Rightarrow> z86Core \<Rightarrow> z86Core" where
  "JCC_byte cfg cc pc val c =
     (let new_ip = offset pc + 1;
          new_ip = (if cond cc c val then new_ip + exec_i8 cfg pc c else new_ip)
      in c\<lparr>rip := new_ip\<rparr>)"

definition JCC :: "quirks \<Rightarrow> CONDITION_CODE \<Rightarrow> z86Addr \<Rightarrow> bool \<Rightarrow> z86Core \<Rightarrow> z86Core" where
  "JCC cfg cc pc val c =
     (let new_ip = offset pc + 2;
          new_ip = (if cond cc c val then new_ip + exec_i16 cfg pc c else new_ip)
      in c\<lparr>rip := new_ip\<rparr>)"

definition LOOP :: "quirks \<Rightarrow> z86Addr \<Rightarrow> z86Core \<Rightarrow> z86Core" where
  "LOOP cfg pc c =
     (let new_ip = offset pc + 1;
          c = set_word_reg CX (gpr c CX - 1) c;
          new_ip = (if gpr c CX \<noteq> 0 then new_ip + exec_i8 cfg pc c else new_ip)
      in c\<lparr>rip := new_ip\<rparr>)"

definition LOOPCC :: "quirks \<Rightarrow> z86Addr \<Rightarrow> bool \<Rightarrow> z86Core \<Rightarrow> z86Core" where
  "LOOPCC cfg pc val c =
     (let new_ip = offset pc + 1;
          c = set_word_reg CX (gpr c CX - 1) c;
          new_ip = (if gpr c CX \<noteq> 0 \<or> cond_Z c val then new_ip + exec_i8 cfg pc c else new_ip)
      in c\<lparr>rip := new_ip\<rparr>)"

definition JCXZ :: "quirks \<Rightarrow> z86Addr \<Rightarrow> z86Core \<Rightarrow> z86Core" where
  "JCXZ cfg pc c =
     (let new_ip = offset pc + 1;
          new_ip = (if gpr c CX = 0 then new_ip + exec_i8 cfg pc c else new_ip)
      in c\<lparr>rip := new_ip\<rparr>)"

section \<open>Calls and returns\<close>

text \<open>
  \<^verbatim>\<open>CALLABS<T>\<close> and \<^verbatim>\<open>CALLFABS<T>\<close> push and jump with operands of type
  \<^verbatim>\<open>T\<close>, which is a byte in the encodings of group 4.
\<close>

definition CALLABS :: "quirks \<Rightarrow> 'a::len word \<Rightarrow> 'a word \<Rightarrow> z86Core \<Rightarrow> z86Core" where
  "CALLABS cfg next_ip new_ip c = JMPABS (ucast new_ip) (PUSH_impl cfg (\<lambda>_. next_ip) c)"

definition CALL :: "quirks \<Rightarrow> z86Addr \<Rightarrow> z86Core \<Rightarrow> z86Core" where
  "CALL cfg pc c =
     (let next_ip = offset pc + 2
      in CALLABS cfg (next_ip :: u16) (next_ip + exec_i16 cfg pc c) c)"

definition set_rip :: "u16 \<Rightarrow> z86Core \<Rightarrow> z86Core" where
  "set_rip v c = c\<lparr>rip := v\<rparr>"

definition set_cs :: "u16 \<Rightarrow> z86Core \<Rightarrow> z86Core" where
  "set_cs v c = c\<lparr>seg := (seg c)(CS := v)\<rparr>"

definition RET :: "quirks \<Rightarrow> z86Core \<Rightarrow> z86Core" where
  "RET cfg c = POP_impl cfg set_rip c"

definition RETI :: "quirks \<Rightarrow> z86Addr \<Rightarrow> z86Core \<Rightarrow> z86Core" where
  "RETI cfg pc c =
     (let c = RET cfg c
      in c\<lparr>gpr := (gpr c)(SP := gpr c SP + addr_read cfg pc 0 (mem c))\<rparr>)"

definition JMPFABS_pc :: "quirks \<Rightarrow> z86Addr \<Rightarrow> z86Core \<Rightarrow> z86Core" where
  "JMPFABS_pc cfg pc c = JMPFABS (addr_read cfg pc 0 (mem c)) (addr_read cfg pc 2 (mem c)) c"

definition CALLFABS :: "quirks \<Rightarrow> 'a::len word \<Rightarrow> 'a word \<Rightarrow> u16 \<Rightarrow> z86Core \<Rightarrow> z86Core" where
  "CALLFABS cfg next_ip new_ip new_cs c =
     (let c = PUSH_impl cfg (\<lambda>c. ucast (seg c CS) :: 'a word) c;
          c = PUSH_impl cfg (\<lambda>_. next_ip) c
      in JMPFABS (ucast new_ip) new_cs c)"

definition CALLFABS_pc :: "quirks \<Rightarrow> z86Addr \<Rightarrow> z86Core \<Rightarrow> z86Core" where
  "CALLFABS_pc cfg pc c =
     CALLFABS cfg (offset pc + 4 :: u16) (addr_read cfg pc 0 (mem c)) (addr_read cfg pc 2 (mem c)) c"

definition RETF :: "quirks \<Rightarrow> z86Core \<Rightarrow> z86Core" where
  "RETF cfg c = POP_impl cfg set_cs (POP_impl cfg set_rip c)"

definition RETFI :: "quirks \<Rightarrow> z86Addr \<Rightarrow> z86Core \<Rightarrow> z86Core" where
  "RETFI cfg pc c =
     (let c = RETF cfg c
      in c\<lparr>gpr := (gpr c)(SP := gpr c SP + addr_read cfg pc 0 (mem c))\<rparr>)"

definition IRET :: "quirks \<Rightarrow> z86Core \<Rightarrow> z86Core" where
  "IRET cfg c =
     (let c = POP_impl cfg set_rip c;
          c = POP_impl cfg set_cs c
      in (case POP cfg c of (flags, c) \<Rightarrow> set_flags flags c))"

section \<open>Interrupts\<close>

definition IntDE :: u8 where "IntDE = 0"
definition IntDB :: u8 where "IntDB = 1"
definition IntNMI :: u8 where "IntNMI = 2"
definition IntBP :: u8 where "IntBP = 3"
definition IntOF :: u8 where "IntOF = 4"
definition IntBR :: u8 where "IntBR = 5"
definition IntUD :: u8 where "IntUD = 6"

definition set_fault :: "quirks \<Rightarrow> u8 \<Rightarrow> z86Core \<Rightarrow> bool \<times> z86Core" where
  "set_fault cfg n c = (\<not> FAULTS_ARE_TRAPS cfg, software_interrupt n c)"

definition set_trap :: "u8 \<Rightarrow> z86Core \<Rightarrow> z86Core" where
  "set_trap n c = software_interrupt n c"

definition handle_pending_interrupt :: "quirks \<Rightarrow> u8 \<Rightarrow> z86Core \<Rightarrow> z86Core" where
  "handle_pending_interrupt cfg number c =
     (let c = PUSH cfg (get_flags c) c;
          c = c\<lparr>interrupt := False\<rparr>;
          c = c\<lparr>trap := False\<rparr>;
          c = PUSH cfg (seg c CS) c;
          c = PUSH cfg (rip c) c;
          interrupt_addr = uint number * 4;
          c = c\<lparr>rip := mem_read (mem c) interrupt_addr\<rparr>
      in c\<lparr>seg := (seg c)(CS := mem_read (mem c) (interrupt_addr + 2))\<rparr>)"

definition check_for_software_interrupt :: "quirks \<Rightarrow> z86Core \<Rightarrow> z86Core" where
  "check_for_software_interrupt cfg c =
     (let pending_software = pending_sinterrupt c
      in if pending_software > 0
         then handle_pending_interrupt cfg (word_of_int pending_software) (c\<lparr>pending_sinterrupt := -1\<rparr>)
         else c)"

definition check_for_nmi :: "quirks \<Rightarrow> bool \<Rightarrow> z86Core \<Rightarrow> z86Core" where
  "check_for_nmi cfg set_halt c =
     (let nmi = pending_nmi c;
          c = c\<lparr>pending_nmi := False\<rparr>
      in if nmi
         then handle_pending_interrupt cfg IntNMI (if set_halt then c\<lparr>halted := False\<rparr> else c)
         else c)"

definition check_for_external_interrupt :: "quirks \<Rightarrow> bool \<Rightarrow> z86Core \<Rightarrow> z86Core" where
  "check_for_external_interrupt cfg set_halt c =
     (if interrupt c
      then (let external = pending_einterrupt c;
                c = c\<lparr>pending_einterrupt := -1\<rparr>
            in if external > 0
               then handle_pending_interrupt cfg (word_of_int external)
                      (if set_halt then c\<lparr>halted := False\<rparr> else c)
               else c)
      else c)"

definition check_for_trap :: "quirks \<Rightarrow> z86Core \<Rightarrow> z86Core" where
  "check_for_trap cfg c = (if trap c then handle_pending_interrupt cfg IntDB c else c)"

definition execute_pending_interrupts :: "quirks \<Rightarrow> z86Core \<Rightarrow> z86Core" where
  "execute_pending_interrupts cfg c =
     (let c = check_for_software_interrupt cfg c;
          c = check_for_nmi cfg False c;
          c = check_for_external_interrupt cfg False c
      in check_for_trap cfg c)"

text \<open>
  HLT: what it does on entry, one turn of its busy-wait loop, and what it does once the loop has
  been left.  Between two turns other threads post interrupts.
\<close>

definition HLT_enter :: "quirks \<Rightarrow> z86Core \<Rightarrow> z86Core" where
  "HLT_enter cfg c = check_for_software_interrupt cfg (c\<lparr>halted := True\<rparr>)"

definition HLT_turn :: "quirks \<Rightarrow> z86Core \<Rightarrow> z86Core" where
  "HLT_turn cfg c = check_for_external_interrupt cfg True (check_for_nmi cfg True c)"

definition HLT_leave :: "quirks \<Rightarrow> z86Core \<Rightarrow> z86Core" where
  "HLT_leave cfg c = check_for_trap cfg c"

definition external_interrupt :: "u8 \<Rightarrow> z86Core \<Rightarrow> z86Core" where
  "external_interrupt number c = c\<lparr>pending_einterrupt := uint number\<rparr>"

definition nmi :: "z86Core \<Rightarrow> z86Core" where
  "nmi c = c\<lparr>pending_nmi := True\<rparr>"

definition cancel_interrupt :: "z86Core \<Rightarrow> z86Core" where
  "cancel_interrupt c = c\<lparr>pending_einterrupt := -1\<rparr>"

section \<open>Calls, returns and interrupts over the stack\<close>

lemma CALLABS_PUSH: "CALLABS cfg (next_ip :: u16) new_ip c = JMPABS new_ip (PUSH cfg next_ip c)"
  by (simp add: CALLABS_def PUSH_def)

lemma CALLFABS_PUSH:
  "CALLFABS cfg (next_ip :: u16) new_ip new_cs c =
     JMPFABS new_ip new_cs (fold (PUSH cfg) [seg c CS, next_ip] c)"
proof -
  have "PUSH_impl cfg (\<lambda>c. ucast (seg c CS) :: u16) c = PUSH cfg (seg c CS) c"
    by (simp add: PUSH_impl_eq PUSH_eq)
  then show ?thesis by (simp add: CALLFABS_def Let_def PUSH_def)
qed

lemma RET_eq:
  "RET cfg c = c\<lparr>rip := stack_word cfg c 0, gpr := (gpr c)(SP := gpr c SP + 2)\<rparr>"
  by (simp add: RET_def POP_impl_def Let_def set_rip_def stack_word_def)

lemma stack_word_upd [simp]:
  "stack_word cfg (c\<lparr>rip := x\<rparr>) k = stack_word cfg c k"
  "stack_word cfg (c\<lparr>interrupt := b\<rparr>) k = stack_word cfg c k"
  "stack_word cfg (c\<lparr>trap := b\<rparr>) k = stack_word cfg c k"
  by (simp_all add: stack_word_def ctx_stack_def ctx_addr_force_def)

lemma stack_word_cs [simp]:
  "stack_word cfg (c\<lparr>seg := (seg c)(CS := x)\<rparr>) k = stack_word cfg c k"
  by (simp add: stack_word_def ctx_stack_def ctx_addr_force_def)

lemma read_stack_next:
  "addr_read cfg (ctx_stack (c\<lparr>rip := x, gpr := (gpr c)(SP := gpr c SP + 2)\<rparr>)) 0 (mem c)
     = stack_word cfg c 1"
  using stack_word_move [of "c\<lparr>rip := x, gpr := (gpr c)(SP := gpr c SP + 2)\<rparr>" c 2 cfg 0]
  by (simp add: stack_word_def)

lemma RETF_eq:
  "RETF cfg c =
     c\<lparr>rip := stack_word cfg c 0, seg := (seg c)(CS := stack_word cfg c 1),
       gpr := (gpr c)(SP := gpr c SP + 4)\<rparr>"
  unfolding RETF_def POP_impl_def Let_def set_rip_def set_cs_def
  using read_stack_next [of cfg c]
  by (simp add: stack_word_def add.commute)

lemma IRET_eq:
  "IRET cfg c = set_flags (stack_word cfg c 2)
     (c\<lparr>rip := stack_word cfg c 0, seg := (seg c)(CS := stack_word cfg c 1),
        gpr := (gpr c)(SP := gpr c SP + 6)\<rparr>)"
proof -
  have "IRET cfg c = (case POP cfg (RETF cfg c) of (flags, c) \<Rightarrow> set_flags flags c)"
    by (simp add: IRET_def RETF_def Let_def)
  also have "\<dots> = set_flags (stack_word cfg (RETF cfg c) 0)
      ((RETF cfg c)\<lparr>gpr := (gpr (RETF cfg c))(SP := gpr (RETF cfg c) SP + 2)\<rparr>)"
    by (simp add: POP_eq)
  also have "stack_word cfg (RETF cfg c) 0 = stack_word cfg c 2"
    by (subst stack_word_move [of _ c 4]) (simp_all add: RETF_eq stack_word_def)
  also have "(gpr (RETF cfg c))(SP := gpr (RETF cfg c) SP + 2) = (gpr c)(SP := gpr c SP + 6)"
    by (simp add: RETF_eq fun_eq_iff)
  finally show ?thesis by (simp add: RETF_eq fun_upd_def)
qed

text \<open>Entering a handler pushes the flags, CS and IP, and loads the vector.\<close>

lemma handle_pending_interrupt_eq:
  "handle_pending_interrupt cfg n c =
     (let c' = fold (PUSH cfg) [get_flags c, seg c CS, rip c] (c\<lparr>interrupt := False, trap := False\<rparr>)
      in c'\<lparr>rip := mem_read (mem c') (uint n * 4),
            seg := (seg c')(CS := mem_read (mem c') (uint n * 4 + 2))\<rparr>)"
proof -
  have "(PUSH cfg v c)\<lparr>interrupt := False\<rparr>\<lparr>trap := False\<rparr> =
      PUSH cfg v (c\<lparr>interrupt := False, trap := False\<rparr>)" for v
    by (simp add: PUSH_eq ctx_stack_def ctx_addr_force_def)
  then show ?thesis by (simp add: handle_pending_interrupt_def Let_def)
qed

section \<open>Return to the caller\<close>

lemma POPF_eq:
  "POPF cfg c = set_flags (stack_word cfg c 0) (c\<lparr>gpr := (gpr c)(SP := gpr c SP + 2)\<rparr>)"
  by (simp add: POPF_def POP_eq)

text \<open>A near CALL jumps to the displaced address, and the RET that finds the stack as the
  call left it comes back behind the displacement with every register restored.\<close>

theorem call_ret:
  assumes "no_gate c"
  shows "rip (CALL cfg p c) = offset p + 2 + exec_i16 cfg p c \<and>
    RET cfg (CALL cfg p c) = c\<lparr>rip := offset p + 2, mem := mem (CALL cfg p c)\<rparr>"
proof -
  have call: "CALL cfg p c =
      JMPABS (offset p + 2 + exec_i16 cfg p c) (PUSH cfg (offset p + 2) c)"
    by (simp add: CALL_def Let_def CALLABS_PUSH)
  show ?thesis
    using ss.peek_push_0 [OF assms, of cfg "offset p + 2"]
    unfolding call RET_eq by (simp add: JMPABS_def) (simp add: PUSH_eq)
qed

theorem call_ret_witness:
  "RET z8086 (CALL z8086 \<lparr>segment = 0x1000, offset = 5\<rparr> sample_core) =
     sample_core\<lparr>rip := 7, mem := mem (CALL z8086 \<lparr>segment = 0x1000, offset = 5\<rparr> sample_core)\<rparr>"
  using call_ret [OF no_gate_sample, of z8086 "\<lparr>segment = 0x1000, offset = 5\<rparr>"] by simp

text \<open>A far CALL loads CS and IP from its operand, and the RETF restores both.\<close>

theorem callf_retf:
  assumes "no_gate c"
  shows "rip (CALLFABS_pc cfg p c) = addr_read cfg p 0 (mem c) \<and>
    seg (CALLFABS_pc cfg p c) CS = addr_read cfg p 2 (mem c) \<and>
    RETF cfg (CALLFABS_pc cfg p c) = c\<lparr>rip := offset p + 4, mem := mem (CALLFABS_pc cfg p c)\<rparr>"
proof -
  let ?vs = "[seg c CS, offset p + 4]"
  define m where "m = pushes_mem cfg ?vs c"
  define c1 where "c1 = c\<lparr>gpr := (gpr c)(SP := gpr c SP - 4), mem := m\<rparr>"
  have c1: "fold (PUSH cfg) ?vs c = c1"
    unfolding c1_def m_def by (subst fold_PUSH) simp
  have call: "CALLFABS_pc cfg p c =
      c1\<lparr>rip := addr_read cfg p 0 (mem c), seg := (seg c)(CS := addr_read cfg p 2 (mem c))\<rparr>"
    unfolding CALLFABS_pc_def CALLFABS_PUSH c1 by (simp add: JMPFABS_def JMPABS_def c1_def)
  have w: "stack_word cfg (CALLFABS_pc cfg p c) k = stack_word cfg c1 k" for k
    by (simp add: call stack_word_def ctx_stack_def ctx_addr_force_def c1_def)
  have v: "stack_word cfg c1 0 = offset p + 4" "stack_word cfg c1 1 = seg c CS"
    unfolding c1 [symmetric]
    using ss.peek_pushes [OF assms, of ?vs 0 cfg] ss.peek_pushes [OF assms, of ?vs 1 cfg]
    by simp_all
  have "RETF cfg (CALLFABS_pc cfg p c) = c\<lparr>rip := offset p + 4, mem := m\<rparr>"
    unfolding RETF_eq w v by (simp add: call c1_def)
  then show ?thesis by (simp add: call c1_def)
qed

theorem callf_retf_witness:
  "RETF z8086 (CALLFABS_pc z8086 \<lparr>segment = 0x1000, offset = 5\<rparr> sample_core) =
     sample_core\<lparr>rip := 9, mem := mem (CALLFABS_pc z8086 \<lparr>segment = 0x1000, offset = 5\<rparr> sample_core)\<rparr>"
  using callf_retf [OF no_gate_sample, of z8086 "\<lparr>segment = 0x1000, offset = 5\<rparr>"] by simp

lemma interrupt_then_iret:
  assumes "no_gate c"
  shows "interrupt (handle_pending_interrupt cfg n c) = False \<and>
    trap (handle_pending_interrupt cfg n c) = False \<and>
    rip (handle_pending_interrupt cfg n c) = mem_read (mem (handle_pending_interrupt cfg n c)) (uint n * 4) \<and>
    seg (handle_pending_interrupt cfg n c) CS = mem_read (mem (handle_pending_interrupt cfg n c)) (uint n * 4 + 2) \<and>
    map (stack_word cfg (handle_pending_interrupt cfg n c)) [0, 1, 2] = [rip c, seg c CS, get_flags c] \<and>
    IRET cfg (handle_pending_interrupt cfg n c) = c\<lparr>mem := mem (handle_pending_interrupt cfg n c)\<rparr>"
proof -
  let ?vs = "[get_flags c, seg c CS, rip c]"
  let ?c0 = "c\<lparr>interrupt := False, trap := False\<rparr>"
  define m where "m = pushes_mem cfg ?vs ?c0"
  define c1 where "c1 = ?c0\<lparr>gpr := (gpr c)(SP := gpr c SP - 6), mem := m\<rparr>"
  have ok: "no_gate ?c0" using assms by (simp add: no_gate_def)
  have c1: "fold (PUSH cfg) ?vs ?c0 = c1"
    unfolding c1_def m_def by (subst fold_PUSH) simp
  have h: "handle_pending_interrupt cfg n c = c1\<lparr>rip := mem_read m (uint n * 4),
      seg := (seg c)(CS := mem_read m (uint n * 4 + 2))\<rparr>"
    unfolding handle_pending_interrupt_eq Let_def c1 by (simp add: c1_def)
  have w: "stack_word cfg (handle_pending_interrupt cfg n c) k = stack_word cfg c1 k" for k
    by (simp add: h stack_word_def ctx_stack_def ctx_addr_force_def c1_def)
  have v: "stack_word cfg c1 0 = rip c" "stack_word cfg c1 1 = seg c CS"
      "stack_word cfg c1 2 = get_flags c"
    unfolding c1 [symmetric]
    using ss.peek_pushes [OF ok, of ?vs 0 cfg] ss.peek_pushes [OF ok, of ?vs 1 cfg]
      ss.peek_pushes [OF ok, of ?vs 2 cfg] by simp_all
  have "IRET cfg (handle_pending_interrupt cfg n c) = c\<lparr>mem := m\<rparr>"
    unfolding IRET_eq w v set_flags_cong by (simp add: h c1_def)
  moreover have "map (stack_word cfg (handle_pending_interrupt cfg n c)) [0, 1, 2] = [rip c, seg c CS, get_flags c]"
    using v by (simp add: w)
  ultimately show ?thesis by (simp add: h c1_def)
qed

text \<open>C4: Taking interrupt n enters the handler whose offset is the word at address 4 n and whose
  segment is the word behind it, with interrupts and single-stepping off and IP, CS and the flags on
  the stack, and IRET from there restores CS, IP, SP and all nine flags.\<close>

theorem interrupt_iret:
  assumes "no_gate c"
  shows "interrupt (handle_pending_interrupt cfg n c) = False \<and>
    trap (handle_pending_interrupt cfg n c) = False \<and>
    rip (handle_pending_interrupt cfg n c) = mem_read (mem (handle_pending_interrupt cfg n c)) (uint n * 4) \<and>
    seg (handle_pending_interrupt cfg n c) CS = mem_read (mem (handle_pending_interrupt cfg n c)) (uint n * 4 + 2) \<and>
    map (stack_word cfg (handle_pending_interrupt cfg n c)) [0, 1, 2] = [rip c, seg c CS, get_flags c] \<and>
    IRET cfg (handle_pending_interrupt cfg n c) = c\<lparr>mem := mem (handle_pending_interrupt cfg n c)\<rparr>"
  using assms by (rule interrupt_then_iret)

theorem interrupt_iret_witness:
  "IRET z8086 (handle_pending_interrupt z8086 0x21 sample_core) =
     sample_core\<lparr>mem := mem (handle_pending_interrupt z8086 0x21 sample_core)\<rparr>"
  using interrupt_iret [OF no_gate_sample, of z8086 "0x21"] by blast

end
