(* ===== verification/Z86_MulDiv.thy ===== *)
theory Z86_MulDiv
  imports Z86_Shift Z86_Control
begin

text \<open>
  Multiplication, division, the decimal adjustments and BOUND.  A product or a dividend has
  the type of twice the operand's width (\<^verbatim>\<open>dbl_int_t<T>\<close>), the type variable
  \<open>'b\<close> below; where it occurs in no argument the definition takes \<open>TYPE('b)\<close>.  The
  result of an operation that can fault is the pair of the fault flag and the state.
\<close>

section \<open>Multiplication\<close>

definition MUL_impl :: "quirks \<Rightarrow> 'a::len word \<Rightarrow> 'a word \<Rightarrow> z86Core \<Rightarrow> 'b::len word \<times> z86Core" where
  "MUL_impl cfg lhs rhs c =
     (let ret = ucast lhs :: 'b word;
          ret = ret * ucast rhs;
          ret = (if REP_INVERT_MUL cfg
                 then (if has_rep c then word_of_int (- sint (ucast ret :: 'a word)) else ret)
                 else ret);
          hi = drop_bit LENGTH('a) ret \<noteq> 0
      in (ret, c\<lparr>overflow := hi, carry := hi\<rparr>))"

definition MUL :: "'b::len itself \<Rightarrow> quirks \<Rightarrow> 'a::len word \<Rightarrow> z86Core \<Rightarrow> z86Core" where
  "MUL _ cfg src c =
     (let (value, c) = MUL_impl cfg (reg_A c) src c :: 'b word \<times> z86Core
      in if REP_MUL_MISSTORE cfg \<and> has_rep c
         then (if LENGTH('a) = 8 then set_byte_reg 4 (ucast value) c
               else set_word_reg 4 (ucast value) c)
         else write_AD value c)"

definition IMUL_impl :: "quirks \<Rightarrow> 'a::len word \<Rightarrow> 'a word \<Rightarrow> z86Core \<Rightarrow> 'b::len word \<times> z86Core" where
  "IMUL_impl cfg lhs rhs c =
     (let ret = ucast lhs :: 'b word;
          ret = ret * scast rhs;
          ret = (if REP_INVERT_MUL cfg then (if has_rep c then - ret else ret) else ret);
          hi = uint (ucast (signed_drop_bit LENGTH('a) ret) :: 'a word)
               \<noteq> drop_bit (LENGTH('a) - 1) (sint (ucast ret :: 'a word))
      in (ret, c\<lparr>overflow := hi, carry := hi\<rparr>))"

definition IMUL :: "'b::len itself \<Rightarrow> quirks \<Rightarrow> 'a::len word \<Rightarrow> z86Core \<Rightarrow> z86Core" where
  "IMUL _ cfg src c =
     (let (value, c) = IMUL_impl cfg (reg_A c) src c :: 'b word \<times> z86Core
      in if REP_MUL_MISSTORE cfg \<and> has_rep c
         then (if LENGTH('a) = 8 then set_byte_reg 5 (ucast value) c
               else set_word_reg 5 (ucast value) c)
         else write_AD value c)"

text \<open>The forms with two and three operands: the product cut to the operand's width.\<close>

definition IMUL2 :: "'b::len itself \<Rightarrow> quirks \<Rightarrow> 'a::len word \<Rightarrow> 'a word \<Rightarrow> z86Core \<Rightarrow> 'a word \<times> z86Core" where
  "IMUL2 _ cfg dst src c =
     (let (value, c) = IMUL_impl cfg dst src c :: 'b word \<times> z86Core in (ucast value, c))"

definition IMUL3 ::
  "'b::len itself \<Rightarrow> quirks \<Rightarrow> 'a::len word \<Rightarrow> 'i::len word \<Rightarrow> z86Core \<Rightarrow> 'a word \<times> z86Core" where
  "IMUL3 _ cfg src val c =
     (let (value, c) = IMUL_impl cfg src (scast val) c :: 'b word \<times> z86Core in (ucast value, c))"

section \<open>Division\<close>

definition DIV :: "'b::len itself \<Rightarrow> quirks \<Rightarrow> 'a::len word \<Rightarrow> z86Core \<Rightarrow> bool \<times> z86Core" where
  "DIV _ cfg src c =
     (if src \<noteq> 0
      then (let temp = read_AD c :: 'b word;
                quot = temp div ucast src;
                store = (\<lambda>c. set_ADH (ucast (temp mod ucast src) :: 'a word)
                               (set_A (ucast quot :: 'a word) c));
                c = (if DE_IS_TRAP cfg then store c else c)
            in if uint quot > 2 ^ LENGTH('a) - 1 then set_fault cfg IntDE c
               else (False, if \<not> DE_IS_TRAP cfg then store c else c))
      else set_fault cfg IntDE c)"

text \<open>
  \<^verbatim>\<open>IDIV\<close>: the dividend is signed, the divisor keeps its unsigned type and is widened
  with zeros.  \<open>sdiv\<close> and \<open>smod\<close> truncate towards zero, as C++ does.
\<close>

definition IDIV :: "'b::len itself \<Rightarrow> quirks \<Rightarrow> 'a::len word \<Rightarrow> z86Core \<Rightarrow> bool \<times> z86Core" where
  "IDIV _ cfg src c =
     (if src \<noteq> 0
      then (let temp = sint (read_AD c :: 'b word);
                quot = word_of_int (temp sdiv uint src) :: 'b word;
                quot = (if REP_INVERT_IDIV cfg then (if has_rep c then - quot else quot) else quot);
                store = (\<lambda>c. set_ADH (word_of_int (temp smod uint src) :: 'a word)
                               (set_A (ucast quot :: 'a word) c));
                c = (if DE_IS_TRAP cfg then store c else c)
            in if (if \<not> MIN_DIV_FAULT cfg
                   then sint quot \<noteq> sint (ucast quot :: 'a word)
                   else quot \<noteq> quot AND word_of_int (smax TYPE('a word)))
               then set_fault cfg IntDE c
               else (False, if \<not> DE_IS_TRAP cfg then store c else c))
      else set_fault cfg IntDE c)"

section \<open>Decimal adjustment\<close>

definition set_al :: "u8 \<Rightarrow> z86Core \<Rightarrow> z86Core" where "set_al v c = set_byte_reg 0 v c"
definition set_ah :: "u8 \<Rightarrow> z86Core \<Rightarrow> z86Core" where "set_ah v c = set_byte_reg 4 v c"
definition al :: "z86Core \<Rightarrow> u8" where "al c = index_byte_reg c 0"
definition ah :: "z86Core \<Rightarrow> u8" where "ah c = index_byte_reg c 4"

definition AAA :: "quirks \<Rightarrow> z86Core \<Rightarrow> z86Core" where
  "AAA cfg c =
     (let c = (if auxiliary c \<or> al c AND 0xF > 9
               then (let c = c\<lparr>carry := True, auxiliary := True\<rparr>
                     in if \<not> OLD_AAA cfg then set_word_reg AX (gpr c AX + 0x106) c
                        else (let c = set_al (al c + 6) c in set_ah (ah c + 1) c))
               else c\<lparr>carry := False\<rparr>)
      in set_al (al c AND 0xF) c)"

definition AAS :: "z86Core \<Rightarrow> z86Core" where
  "AAS c =
     (let c = (if auxiliary c \<or> al c AND 0xF > 9
               then (let c = c\<lparr>carry := True, auxiliary := True\<rparr>
                     in set_word_reg AX (gpr c AX - 0x106) c)
               else c\<lparr>carry := False\<rparr>)
      in set_al (al c AND 0xF) c)"

definition DAA :: "z86Core \<Rightarrow> z86Core" where
  "DAA c =
     (let temp = al c;
          c = (if auxiliary c \<or> temp AND 0xF > 9
               then (let c = c\<lparr>auxiliary := True\<rparr> in set_al (al c - 0x06) c) else c);
          c = (if carry c \<or> temp > 0x99
               then (let c = c\<lparr>carry := True\<rparr> in set_al (al c - 0x60) c) else c)
      in update_pzs (al c) c)"

definition DAS :: "z86Core \<Rightarrow> z86Core" where
  "DAS c =
     (let temp = al c;
          c = (if auxiliary c \<or> temp AND 0xF > 9
               then (let c = c\<lparr>auxiliary := True\<rparr> in set_al (al c + 0x06) c) else c);
          c = (if carry c \<or> temp > 0x99
               then (let c = c\<lparr>carry := True\<rparr> in set_al (al c + 0x60) c) else c)
      in update_pzs (al c) c)"

definition AAM :: "quirks \<Rightarrow> u8 \<Rightarrow> z86Core \<Rightarrow> bool \<times> z86Core" where
  "AAM cfg imm c =
     (if imm \<noteq> 0
      then (let c = set_ah (al c div imm) c;
                c = set_al (al c mod imm) c
            in (False, update_pzs (al c) c))
      else if \<not> AAM_NO_DE cfg then set_fault cfg IntDE c
      else (let c = set_ah 0xFF c in (False, update_pzs (al c) c)))"

definition AAD :: "u8 \<Rightarrow> z86Core \<Rightarrow> z86Core" where
  "AAD imm c =
     (let temp = al c + ah c * imm;
          c = set_word_reg AX (ucast temp) c
      in update_pzs temp c)"

section \<open>BOUND\<close>

definition BOUND :: "quirks \<Rightarrow> 'a::len word \<Rightarrow> 'a word \<Rightarrow> 'a word \<Rightarrow> z86Core \<Rightarrow> bool \<times> z86Core" where
  "BOUND cfg index lower upper c =
     (if REP_BOUND cfg
      then (if sint index < sint lower \<or> (\<not> has_rep c \<and> sint index > sint upper)
            then (True, snd (set_fault cfg IntBR c))
            else (False, c))
      else (if \<not> in_range_inclusive index lower upper
            then (True, snd (set_fault cfg IntBR c))
            else (False, c)))"

section \<open>The accumulator pair\<close>

lemma read_AD_write_AD [simp]:
  "read_AD (write_AD (v :: u16) c) = v" "read_AD (write_AD (w :: u32) c) = w"
proof -
  show "read_AD (write_AD (v :: u16) c) = v" by (simp add: read_AD_def write_AD_def)
  show "read_AD (write_AD (w :: u32) c) = w"
    by (rule bit_word_eqI)
      (auto simp: read_AD_def write_AD_def bit_or_iff bit_push_bit_iff bit_ucast_word bit_drop_bit_eq)
qed

lemma uint_read_AD16: "uint (read_AD c :: u16) = uint (reg_ADH c :: u8) * 256 + uint (reg_A c :: u8)"
  by (simp add: read_AD_def reg_ADH_def reg_A_def uint_hi8 uint_lo8)

lemma uint_read_AD32:
  "uint (read_AD c :: u32) = uint (reg_ADH c :: u16) * 2 ^ 16 + uint (reg_A c :: u16)"
proof -
  have "push_bit 16 (ucast (gpr c DX)) OR ucast (gpr c AX) =
      (push_bit 16 (ucast (gpr c DX)) + ucast (gpr c AX) :: u32)"
    by (rule disjunctive_add [symmetric]) (auto simp: bit_push_bit_iff bit_ucast_word dest: bit_imp_le_length)
  then have "read_AD c = (push_bit 16 (ucast (gpr c DX)) + ucast (gpr c AX) :: u32)"
    by (simp add: read_AD_def)
  moreover have "uint (push_bit 16 (ucast (gpr c DX)) + ucast (gpr c AX) :: u32) =
      uint (gpr c DX) * 2 ^ 16 + uint (gpr c AX)"
    using uint_lt_2p [of "gpr c DX"] uint_lt_2p [of "gpr c AX"]
    by (simp add: uint_word_ariths push_bit_eq_mult unsigned_ucast_eq take_bit_eq_mod)
  ultimately show ?thesis by (simp add: reg_ADH_def reg_A_def reg_D_def)
qed

lemma has_rep_flags [simp]: "has_rep (c\<lparr>overflow := u, carry := v\<rparr>) = has_rep c"
  by (simp add: has_rep_def)

text \<open>The repeat prefix changes no multiplication: there is none, or the core has neither quirk.\<close>

definition mul_exact :: "quirks \<Rightarrow> z86Core \<Rightarrow> bool" where
  "mul_exact cfg c \<longleftrightarrow> has_rep c \<longrightarrow> \<not> REP_INVERT_MUL cfg \<and> \<not> REP_MUL_MISSTORE cfg"

lemma MUL_plain:
  fixes src :: "'a::len word"
  assumes "mul_exact cfg c"
  shows "MUL TYPE('b::len) cfg src c =
    (let p = ucast (reg_A c :: 'a word) * ucast src :: 'b word; hi = drop_bit LENGTH('a) p \<noteq> 0
     in write_AD p (c\<lparr>overflow := hi, carry := hi\<rparr>))"
  using assms by (auto simp: MUL_def MUL_impl_def Let_def mul_exact_def)

lemma uint_ucast_mult:
  fixes x y :: "'a::len word"
  assumes "LENGTH('b::len) = 2 * LENGTH('a)"
  shows "uint (ucast x * ucast y :: 'b word) = uint x * uint y"
proof -
  have "uint x * uint y < 2 ^ LENGTH('a) * 2 ^ LENGTH('a)"
    by (intro mult_strict_mono uint_lt_2p) auto
  then have "uint x * uint y < 2 ^ LENGTH('b)" by (simp add: assms power_add mult_2)
  moreover have "uint (ucast x :: 'b word) = uint x" "uint (ucast y :: 'b word) = uint y"
    by (simp_all add: unsigned_ucast_eq take_bit_int_eq_self_iff assms
        order_less_le_trans [OF uint_lt_2p])
  ultimately show ?thesis by (simp add: uint_word_ariths)
qed

lemma reg_A_store [simp]:
  "reg_A (set_ADH (r :: u8) (set_A (q :: u8) c)) = q" "reg_ADH (set_ADH (r :: u8) (set_A (q :: u8) c)) = r"
  "reg_A (set_ADH (s :: u16) (set_A (p :: u16) c)) = p" "reg_ADH (set_ADH (s :: u16) (set_A (p :: u16) c)) = s"
  by (simp_all add: reg_defs Let_def)

lemma uint_ucast_double:
  "LENGTH('b::len) = 2 * LENGTH('a::len) \<Longrightarrow> uint (ucast (x :: 'a word) :: 'b word) = uint x"
  by (simp add: unsigned_ucast_eq take_bit_int_eq_self_iff order_less_le_trans [OF uint_lt_2p])

lemma ucast_word_of_int: "LENGTH('a::len) \<le> LENGTH('b::len) \<Longrightarrow>
    (ucast (w :: 'b word) :: 'a word) = word_of_int (uint w)"
  by (simp add: word_uint_eq_iff unsigned_ucast_eq uint_word_of_int take_bit_eq_mod)

lemma DIV_cases:
  fixes src :: "'a::len word" and c
  assumes "src \<noteq> 0" "LENGTH('b::len) = 2 * LENGTH('a)" "n = uint (read_AD c :: 'b word)"
    "st = set_ADH (word_of_int (n mod uint src) :: 'a word) (set_A (word_of_int (n div uint src) :: 'a word) c)"
  shows "DIV TYPE('b) cfg src c =
    (if n div uint src < 2 ^ LENGTH('a) then (False, st)
     else set_fault cfg IntDE (if DE_IS_TRAP cfg then st else c))"
proof -
  let ?v = "read_AD c :: 'b word" and ?s = "ucast src :: 'b word"
  have q: "uint (?v div ?s) = n div uint src" "uint (?v mod ?s) = n mod uint src"
    by (simp_all add: assms(3) uint_div uint_mod uint_ucast_double [OF assms(2)])
  have "LENGTH('a) \<le> LENGTH('b)" using assms(2) by simp
  note w = ucast_word_of_int [OF this, of "?v div ?s", unfolded q]
    ucast_word_of_int [OF this, of "?v mod ?s", unfolded q]
  have nz: "(src \<noteq> 0) = True" using assms(1) by simp
  have le: "(n div uint src > 2 ^ LENGTH('a) - 1) = (\<not> n div uint src < 2 ^ LENGTH('a))" by linarith
  show ?thesis
    unfolding DIV_def Let_def q w nz if_True le by (simp add: assms(4))
qed

lemma uint_drop_bit_div: "uint (drop_bit k p) = uint (p :: 'a::len word) div 2 ^ k"
  using uint_lt_2p [of p]
  by (simp add: unsigned_drop_bit_eq drop_bit_eq_div [where 'a = int] take_bit_int_eq_self)

lemma drop_bit_nonzero: "drop_bit k p = 0 \<longleftrightarrow> uint (p :: 'a::len word) < 2 ^ k"
proof -
  have "drop_bit k p = 0 \<longleftrightarrow> uint p div 2 ^ k = 0"
    by (simp only: word_uint_eq_iff uint_drop_bit_div unsigned_0)
  then show ?thesis using uint_ge_0 [of p] by (auto simp: zdiv_eq_0_iff)
qed

lemma MUL_carry:
  fixes src :: "'a::len word"
  assumes "mul_exact cfg c" "LENGTH('b::len) = 2 * LENGTH('a)"
  shows "carry (MUL TYPE('b) cfg src c) \<longleftrightarrow> 2 ^ LENGTH('a) \<le> uint (reg_A c :: 'a word) * uint src"
    "overflow (MUL TYPE('b) cfg src c) = carry (MUL TYPE('b) cfg src c)"
  by (simp_all add: MUL_plain [OF assms(1)] Let_def write_AD_def set_word_reg_def drop_bit_nonzero
      uint_ucast_mult [OF assms(2)] not_less)

lemma uint_read_AD_MUL:
  fixes x :: u8 and y :: u16
  assumes "mul_exact cfg c"
  shows "uint (read_AD (MUL TYPE(16) cfg x c) :: u16) = uint (reg_A c :: u8) * uint x"
    "uint (read_AD (MUL TYPE(32) cfg y c) :: u32) = uint (reg_A c :: u16) * uint y"
  by (simp_all add: MUL_plain [OF assms] Let_def uint_ucast_mult)

text \<open>MUL leaves the exact product in AX or DX:AX, and sets the carry and the overflow flag
  exactly when the upper half is not zero.\<close>

theorem MUL_correct:
  fixes x :: u8 and y :: u16
  assumes "mul_exact cfg c"
  shows "uint (read_AD (MUL TYPE(16) cfg x c) :: u16) = uint (reg_A c :: u8) * uint x
    \<and> (carry (MUL TYPE(16) cfg x c) \<longleftrightarrow> 2 ^ 8 \<le> uint (reg_A c :: u8) * uint x)
    \<and> overflow (MUL TYPE(16) cfg x c) = carry (MUL TYPE(16) cfg x c)
    \<and> uint (read_AD (MUL TYPE(32) cfg y c) :: u32) = uint (reg_A c :: u16) * uint y
    \<and> (carry (MUL TYPE(32) cfg y c) \<longleftrightarrow> 2 ^ 16 \<le> uint (reg_A c :: u16) * uint y)
    \<and> overflow (MUL TYPE(32) cfg y c) = carry (MUL TYPE(32) cfg y c)"
  using uint_read_AD_MUL [OF assms] MUL_carry [OF assms, where src = x and 'b = 16]
    MUL_carry [OF assms, where src = y and 'b = 32]
  by simp

theorem MUL_correct_witness:
  "carry (MUL TYPE(32) z8086 (0x4321 :: u16) sample_core)"
  using MUL_correct [where c = sample_core and cfg = z8086 and x = 0 and y = "0x4321"]
  by (simp add: mul_exact_def has_rep_def sample_core_def rep_defs reg_A_def)

text \<open>What DIV by an operand of a given width does, with the dividend in the accumulator pair.\<close>

definition divides :: "'b::len itself \<Rightarrow> quirks \<Rightarrow> 'a::len word \<Rightarrow> z86Core \<Rightarrow> bool" where
  "divides _ cfg src c \<longleftrightarrow>
     (let n = uint (read_AD c :: 'b word); r = DIV TYPE('b) cfg src c
      in if src \<noteq> 0 \<and> n div uint src < 2 ^ LENGTH('a)
         then fst r = False \<and> uint (reg_A (snd r) :: 'a word) = n div uint src
           \<and> uint (reg_ADH (snd r) :: 'a word) = n mod uint src
         else fst r = (\<not> FAULTS_ARE_TRAPS cfg) \<and> pending_sinterrupt (snd r) = 0
           \<and> (src = 0 \<or> \<not> DE_IS_TRAP cfg \<longrightarrow> gpr (snd r) = gpr c))"

lemma divides_width:
  fixes src :: "'a::len word"
  assumes "LENGTH('b::len) = 2 * LENGTH('a)"
    and "\<And>q r c. reg_A (set_ADH (r :: 'a word) (set_A (q :: 'a word) c)) = q"
    and "\<And>q r c. reg_ADH (set_ADH (r :: 'a word) (set_A (q :: 'a word) c)) = r"
  shows "divides TYPE('b) cfg src c"
proof (cases "src = 0")
  case True
  then show ?thesis by (simp add: divides_def DIV_def set_fault_def software_interrupt_def IntDE_def Let_def)
next
  case False
  let ?n = "uint (read_AD c :: 'b word)"
  from False have pos: "0 < uint src" by (simp add: word_neq_0_conv word_less_def)
  have m: "0 \<le> ?n mod uint src" "?n mod uint src < 2 ^ LENGTH('a)"
    using pos_mod_bound [OF pos, of ?n] pos_mod_sign [OF pos, of ?n] uint_lt_2p [of src] by linarith+
  have d: "0 \<le> ?n div uint src" using pos by (simp add: pos_imp_zdiv_nonneg_iff)
  have u: "uint (word_of_int k :: 'a word) = k" if "0 \<le> k" "k < 2 ^ LENGTH('a)" for k
    using that by (simp add: uint_word_of_int)
  show ?thesis
    using False m d u assms(2,3) unfolding divides_def DIV_cases [OF False assms(1) refl refl]
    by (simp add: set_fault_def software_interrupt_def IntDE_def)
qed

text \<open>C14: DIV, at both operand sizes, leaves the quotient and the remainder of the accumulator pair
  when the quotient fits into the operand's width; otherwise, and for a divisor of zero, it raises
  the divide error, and then the registers are kept, unless the core stores before it tests.\<close>

theorem DIV_correct: "divides TYPE(16) cfg (x :: u8) c \<and> divides TYPE(32) cfg (y :: u16) c"
  by (intro conjI divides_width) simp_all

theorem DIV_correct_witness:
  "uint (reg_A (snd (DIV TYPE(32) z8086 (7 :: u16) sample_core)) :: u16) = 0x1234 div 7"
  using DIV_correct [of z8086 1 sample_core 7]
  by (simp add: divides_def Let_def read_AD_def sample_core_def)

text \<open>C36: Dividing a product by the factor it was multiplied with gives the accumulator back
  with no remainder and raises no fault, at both operand sizes: without a repeat prefix, or on a
  core that has neither of the quirks by which the prefix changes a multiplication.\<close>

theorem MUL_DIV:
  fixes x :: u8 and y :: u16
  assumes "mul_exact cfg c" "x \<noteq> 0" "y \<noteq> 0"
  shows "fst (DIV TYPE(16) cfg x (MUL TYPE(16) cfg x c)) = False
    \<and> reg_A (snd (DIV TYPE(16) cfg x (MUL TYPE(16) cfg x c))) = (reg_A c :: u8)
    \<and> reg_ADH (snd (DIV TYPE(16) cfg x (MUL TYPE(16) cfg x c))) = (0 :: u8)
    \<and> fst (DIV TYPE(32) cfg y (MUL TYPE(32) cfg y c)) = False
    \<and> reg_A (snd (DIV TYPE(32) cfg y (MUL TYPE(32) cfg y c))) = (reg_A c :: u16)
    \<and> reg_ADH (snd (DIV TYPE(32) cfg y (MUL TYPE(32) cfg y c))) = (0 :: u16)"
proof -
  have l: "LENGTH(16) = 2 * LENGTH(8)" "LENGTH(32) = 2 * LENGTH(16)" by simp_all
  have nz: "uint x \<noteq> 0" "uint y \<noteq> 0" using assms by (simp_all add: unsigned_eq_0_iff)
  show ?thesis
    using nz uint_lt_2p [of "reg_A c :: u8"] uint_lt_2p [of "reg_A c :: u16"]
    by (simp add: DIV_cases [OF assms(2) l(1) refl refl] DIV_cases [OF assms(3) l(2) refl refl]
        uint_read_AD_MUL [OF assms(1)])
qed

theorem MUL_DIV_witness:
  "reg_A (snd (DIV TYPE(32) z8086 (0x4321 :: u16) (MUL TYPE(32) z8086 (0x4321 :: u16) sample_core))) = (0x1234 :: u16)"
proof -
  have "mul_exact z8086 sample_core" "(1 :: u8) \<noteq> 0" "(0x4321 :: u16) \<noteq> 0" "reg_A sample_core = (0x1234 :: u16)"
    by (simp_all add: mul_exact_def has_rep_def sample_core_def rep_defs reg_A_def)
  then show ?thesis using MUL_DIV [of z8086 sample_core 1 "0x4321"] by simp
qed

section \<open>Signed division\<close>

lemma uint_src_pos: "src \<noteq> 0 \<Longrightarrow> 0 < uint (src :: 'a::len word)"
  by (simp add: word_neq_0_conv word_less_def)

text \<open>IDIV widens the divisor with zeros: the quotient it leaves is the one by the unsigned
  divisor, so that a negative divisor whose signed quotient is not zero never gives the right
  quotient.  The range accepted without a fault excludes the negative quotients on the 8086.\<close>

theorem IDIV_unsigned_divisor:
  fixes src :: u16
  assumes "\<not> has_rep c" "src \<noteq> 0" "n = sint (read_AD c :: u32)" "q = n sdiv uint src"
    "(if MIN_DIV_FAULT cfg then 0 else - (2 ^ 15)) \<le> q" "q < 2 ^ 15"
  shows "fst (IDIV TYPE(32) cfg src c) = False
    \<and> sint (reg_A (snd (IDIV TYPE(32) cfg src c)) :: u16) = q
    \<and> (sint src < 0 \<and> n sdiv sint src \<noteq> 0 \<longrightarrow> q \<noteq> n sdiv sint src)"
proof -
  have pos: "0 < uint src" using assms(2) by (rule uint_src_pos)
  have sgn: "q \<noteq> n sdiv sint src" if s: "sint src < 0" "n sdiv sint src \<noteq> 0"
  proof
    assume e: "q = n sdiv sint src"
    then have "sgn (n * uint src) = sgn (n * sint src)"
      using s(2) sgn_sdiv_eq_sgn_mult [of n "sint src"] sgn_sdiv_eq_sgn_mult [of n "uint src"]
      by (simp add: assms(4))
    moreover have "n \<noteq> 0" using s(2) by auto
    ultimately show False using s(1) pos
      by (cases "0 < n") (auto simp: sgn_mult sgn_if zero_less_mult_iff split: if_splits)
  qed
  define Q where "Q = (word_of_int q :: u32)"
  have Q: "sint Q = q" "ucast Q = (word_of_int q :: u16)" "sint (word_of_int q :: u16) = q"
  proof -
    have b: "- (2 ^ 15) \<le> q" using assms(5) by (simp split: if_splits)
    show "sint Q = q" "sint (word_of_int q :: u16) = q"
      unfolding Q_def using b assms(6) by (auto intro!: sint_in_half simp: half_def)
    show "ucast Q = (word_of_int q :: u16)" unfolding Q_def by transfer simp
  qed
  have m: "Q AND word_of_int (smax TYPE(u16)) = Q" if "MIN_DIV_FAULT cfg"
  proof -
    have "Q AND mask 15 = Q"
      using assms(5,6) that unfolding Q_def
      by (simp only: word_and_mask_low) (simp add: take_bit_of_int take_bit_int_eq_self)
    then show ?thesis by (simp add: smax_def mask_eq_exp_minus_1)
  qed
  show ?thesis
    using assms(1,2) sgn m unfolding IDIV_def Let_def assms(3) [symmetric] assms(4) [symmetric] Q_def [symmetric]
    by (simp add: Q)
qed

theorem IDIV_unsigned_divisor_witness:
  "sint (reg_A (snd (IDIV TYPE(32) z80186 (0xFFFE :: u16) sample_core)) :: u16) \<noteq> 0x1234 sdiv - 2"
proof -
  have h: "\<not> has_rep sample_core" by (simp add: has_rep_def sample_core_def rep_defs)
  have n: "sint (read_AD sample_core :: u32) = 0x1234" by (simp add: read_AD_def sample_core_def)
  have q: "(if MIN_DIV_FAULT z80186 then 0 else - (2 ^ 15)) \<le> (0x1234 :: int) sdiv uint (0xFFFE :: u16)"
    "(0x1234 :: int) sdiv uint (0xFFFE :: u16) < 2 ^ 15"
    by (simp_all add: z80186_def z8086_def)
  show ?thesis
    using IDIV_unsigned_divisor [OF h _ n [symmetric] refl q] by simp
qed

section \<open>Decimal adjustment\<close>

lemma update_pzs_frame [simp]:
  "gpr (update_pzs v (c :: z86Core)) = gpr c" "mem (update_pzs v (c :: z86Core)) = mem c"
  "seg (update_pzs v (c :: z86Core)) = seg c" "rip (update_pzs v (c :: z86Core)) = rip c"
  by (simp_all add: update_pzs_def update_parity_def Let_def)

text \<open>AAD undoes AAM for every base: splitting AL into a quotient and a remainder and
  joining them again gives AL, with AH cleared.\<close>

theorem AAM_AAD:
  assumes "imm \<noteq> 0"
  shows "gpr (AAD imm (snd (AAM cfg imm c))) = (gpr c)(AX := ucast (lo8 (gpr c AX)))
    \<and> fst (AAM cfg imm c) = False
    \<and> hi8 (gpr (snd (AAM cfg imm c)) AX) = lo8 (gpr c AX) div imm
    \<and> lo8 (gpr (snd (AAM cfg imm c)) AX) = lo8 (gpr c AX) mod imm"
proof -
  let ?a = "lo8 (gpr c AX)"
  have "?a mod imm + ?a div imm * imm = ?a" by (rule mod_div_mult_eq)
  then show ?thesis using assms
    by (simp add: AAM_def AAD_def Let_def al_def ah_def set_al_def set_ah_def reg_defs fun_eq_iff)
qed

theorem AAM_AAD_witness:
  "gpr (AAD 10 (snd (AAM z8086 10 sample_core))) AX = 0x34"
  using AAM_AAD [of 10 z8086 sample_core] by (simp add: sample_core_def lo8_def)

text \<open>Two decimal digits in a byte.\<close>

definition bcd :: "int \<Rightarrow> u8" where
  "bcd n = word_of_int (16 * (n div 10) + n mod 10)"

lemma uint_bcd: "0 \<le> n \<Longrightarrow> n < 100 \<Longrightarrow> uint (bcd n) = 16 * (n div 10) + n mod 10"
proof -
  assume "0 \<le> n" "n < 100"
  then have "0 \<le> 16 * (n div 10) + n mod 10" "16 * (n div 10) + n mod 10 < 256" by presburger+
  then show ?thesis by (simp only: bcd_def uint_word_of_int) (simp add: mod_pos_pos_trivial)
qed

lemma digits_10: "0 \<le> g \<Longrightarrow> g \<le> 9 \<Longrightarrow> (10 * a + g) div 10 = a \<and> (10 * a + g) mod 10 = (g :: int)"
  by presburger

lemma bcd_sum:
  fixes e g :: int
  assumes "0 \<le> e" "e \<le> 18" "0 \<le> g" "g \<le> 18" "s = 16 * e + g" "v = s mod 256"
  shows "(v + (if 16 \<le> g \<or> 9 < v mod 16 then 6 else 0) + (if 256 \<le> s \<or> 153 < v then 96 else 0)) mod 256
      = 16 * ((10 * e + g) mod 100 div 10) + (10 * e + g) mod 100 mod 10"
    "256 \<le> s \<or> 153 < v \<longleftrightarrow> 100 \<le> 10 * e + g"
proof -
  define g' where "g' = (if 10 \<le> g then g - 10 else g)"
  define e' where "e' = (if 10 \<le> g then e + 1 else e)"
  have d: "0 \<le> g'" "g' \<le> 9" "0 \<le> e'" "e' \<le> 19" "10 * e + g = 10 * e' + g'"
    "s + (if 10 \<le> g then 6 else 0) = 16 * e' + g'"
    using assms(1-5) by (auto simp: g'_def e'_def)
  have low: "16 \<le> g \<or> 9 < v mod 16 \<longleftrightarrow> 10 \<le> g"
  proof -
    have "v mod 16 = (16 * e + g) mod 16" unfolding assms(5,6) by (rule mod_mod_cancel) simp
    then have "v mod 16 = g mod 16" by simp
    moreover have "16 \<le> g \<or> 9 < g mod 16 \<longleftrightarrow> 10 \<le> g"
      using assms(3,4) by (cases "g < 16") auto
    ultimately show ?thesis by simp
  qed
  have "256 \<le> s \<or> 153 < v \<longleftrightarrow> 153 < s"
    using assms(1,3,5) unfolding assms(6) by (cases "s < 256") simp_all
  also have "\<dots> \<longleftrightarrow> 10 \<le> e'" using assms(3,4,5) by (auto simp: e'_def)
  finally have high: "256 \<le> s \<or> 153 < v \<longleftrightarrow> 10 \<le> e'" .
  then show "256 \<le> s \<or> 153 < v \<longleftrightarrow> 100 \<le> 10 * e + g" using d by linarith
  define a where "a = (if 10 \<le> e' then e' - 10 else e')"
  have a: "0 \<le> a" "a \<le> 9" using d(3,4) by (auto simp: a_def)
  have dd: "10 * e' + g' = 10 * a + g' + (if 10 \<le> e' then 100 else 0)"
    by (simp add: a_def)
  have "(10 * a + g') mod 100 = 10 * a + g'"
    using a d(1,2) by (intro mod_pos_pos_trivial) linarith+
  then have m: "(10 * e' + g') mod 100 = 10 * a + g'"
    using mod_add_self2 [of "10 * a + g'" 100] unfolding dd by (cases "10 \<le> e'") simp_all
  have "(v + (if 10 \<le> g then 6 else 0) + k) mod 256 = (16 * e' + g' + k) mod 256" for k
    unfolding d(6) [symmetric] assms(6) add.assoc by (rule mod_add_left_eq)
  moreover have "(16 * a + g') mod 256 = 16 * a + g'"
    using a d(1,2) by (intro mod_pos_pos_trivial) linarith+
  then have "(16 * e' + g' + (if 10 \<le> e' then 96 else 0)) mod 256 = 16 * a + g'"
    using mod_add_self2 [of "16 * a + g'" 256] by (auto simp: a_def algebra_simps split: if_splits)
  ultimately show "(v + (if 16 \<le> g \<or> 9 < v mod 16 then 6 else 0) + (if 256 \<le> s \<or> 153 < v then 96 else 0)) mod 256
      = 16 * ((10 * e + g) mod 100 div 10) + (10 * e + g) mod 100 mod 10"
    unfolding low high d(5) m using digits_10 [OF d(1,2), of a] by simp
qed

text \<open>The decimal adjustment after an addition is exchanged with the one after a
  subtraction: it is DAS that turns the sum of two packed decimal bytes into the decimal sum
  and its carry.\<close>

theorem DAS_after_ADD:
  assumes "0 \<le> x" "x < 100" "0 \<le> y" "y < 100"
  shows "(case ADD (bcd x) (bcd y) c of (r, c') \<Rightarrow>
      al (DAS (set_al r c')) = bcd ((x + y) mod 100) \<and> carry (DAS (set_al r c')) = (100 \<le> x + y))"
proof -
  let ?r = "bcd x + bcd y" and ?f = "snd (ADD (bcd x) (bcd y) c)"
  define e g s v where "e = x div 10 + y div 10" and "g = x mod 10 + y mod 10"
    and "s = uint (bcd x) + uint (bcd y)" and "v = uint ?r"
  have e: "0 \<le> e" "e \<le> 18" and g: "0 \<le> g" "g \<le> 18" and xy: "10 * e + g = x + y"
    using assms unfolding e_def g_def by presburger+
  have s: "s = 16 * e + g" using assms by (simp add: s_def e_def g_def uint_bcd)
  have v: "v = s mod 256" by (simp add: v_def s_def uint_word_ariths)
  have aux: "auxiliary ?f = (16 \<le> g)"
  proof -
    have "16 \<le> uint (bcd x) mod 16 + uint (bcd y) mod 16 \<longleftrightarrow> 16 \<le> g"
    proof -
      have "uint (bcd x) mod 16 = x mod 10" "uint (bcd y) mod 16 = y mod 10"
        using assms pos_mod_bound [of 10 x] pos_mod_bound [of 10 y]
        by (simp_all add: uint_bcd mod_pos_pos_trivial)
      then show ?thesis by (simp add: g_def)
    qed
    then show ?thesis using nibble_carry0 [of "bcd x" "bcd y"] by simp
  qed
  have cy: "carry ?f = (256 \<le> s)"
    using add_would_overflow_u_def [of "bcd x" "bcd y"] by (simp add: s_def)
  have "?r AND 0xF = take_bit 4 ?r"
    using word_and_mask_low [of ?r 4] by (simp add: mask_eq_exp_minus_1)
  moreover have "uint (take_bit 4 ?r) = v mod 16"
    by (simp only: unsigned_take_bit_eq v_def take_bit_eq_mod [where 'a = int]) simp
  ultimately have t: "(?r AND 0xF > 9) = (9 < v mod 16)" "(?r > 0x99) = (153 < v)"
    by (simp_all add: word_less_def v_def)
  define w :: u8 where "w = ?r + (if 16 \<le> g \<or> 9 < v mod 16 then 6 else 0)
    + (if 256 \<le> s \<or> 153 < v then 0x60 else 0)"
  have das: "al (DAS (set_al ?r ?f)) = w" "carry (DAS (set_al ?r ?f)) = (256 \<le> s \<or> 153 < v)"
    using t aux cy unfolding w_def
    by (simp_all add: DAS_def Let_def al_def set_al_def reg_defs)
  have "uint w = (v + (if 16 \<le> g \<or> 9 < v mod 16 then 6 else 0)
      + (if 256 \<le> s \<or> 153 < v then 96 else 0)) mod 256"
    unfolding w_def v_def by (simp add: uint_word_ariths mod_simps)
  also have "\<dots> = uint (bcd ((x + y) mod 100))"
    unfolding bcd_sum(1) [OF e g s v] xy by (subst uint_bcd) simp_all
  finally show ?thesis
    using bcd_sum(2) [OF e g s v] das
    by (simp add: case_prod_unfold word_uint_eq_iff xy)
qed

theorem DAS_after_ADD_witness:
  "carry (case ADD (bcd 58) (bcd 67) sample_core of (r, c') \<Rightarrow> DAS (set_al r c'))"
  using DAS_after_ADD [of 58 67 sample_core] by (simp add: case_prod_unfold)

end
