(* ===== verification/Z86_String.thy ===== *)
theory Z86_String
  imports Z86_ALU Z86_Control
begin

text \<open>
  The string instructions and port input and output (\<^verbatim>\<open>LODS_impl\<close> to \<^verbatim>\<open>INS_impl\<close>,
  \<^verbatim>\<open>port_in\<close> and \<^verbatim>\<open>port_out\<close>).  Addresses are copied into locals, moved by
  the operand size in the direction of the direction flag, and stored back to SI and DI when
  the instruction ends.  Where the operand's type occurs in no argument the definition takes
  it as \<open>TYPE('a)\<close>.
\<close>

section \<open>The repeat loop\<close>

text \<open>
  \<^verbatim>\<open>do { body } while (--C && again)\<close>.  The bodies do not touch CX, so the counter
  is carried beside the state and written back after every turn; it reaches zero, which is the
  termination argument.
\<close>

function rep_loop ::
  "('x \<Rightarrow> z86Core \<Rightarrow> 'x \<times> z86Core) \<Rightarrow> (z86Core \<Rightarrow> bool) \<Rightarrow> u16 \<Rightarrow> 'x \<Rightarrow> z86Core \<Rightarrow> 'x \<times> z86Core"
where
  "rep_loop body again cx x c =
     (let r = body x c;
          cx' = cx - 1;
          c' = set_word_reg CX cx' (snd r)
      in if cx' \<noteq> 0 \<and> again c' then rep_loop body again cx' (fst r) c' else (fst r, c'))"
  by auto

termination
proof (relation "measure (\<lambda>(body, again, cx, x, c). unat (cx - 1))")
  fix body :: "'x \<Rightarrow> z86Core \<Rightarrow> 'x \<times> z86Core" and again :: "z86Core \<Rightarrow> bool"
  fix cx cx' :: u16 and x :: 'x and c c' :: z86Core and r :: "'x \<times> z86Core"
  assume cx': "cx' = cx - 1" and go: "cx' \<noteq> 0 \<and> again c'"
  have "unat (cx' - 1) < unat cx'"
    using go by (simp add: unat_minus_one unat_gt_0)
  then show "((body, again, cx', fst r, c'), body, again, cx, x, c)
      \<in> measure (\<lambda>(body, again, cx, x, c). unat (cx - 1))"
    using cx' by simp
qed auto

declare rep_loop.simps [simp del]

definition rep_step :: "'a::len itself \<Rightarrow> z86Core \<Rightarrow> int" where
  "rep_step _ c =
     (if direction c then - int (mem_size TYPE('a word)) else int (mem_size TYPE('a word)))"

text \<open>
  The frame all string instructions share: once, or as often as CX says when a repeat prefix is
  there, and not at all when CX is zero; \<open>finish\<close> stores the moved addresses.
\<close>

definition string_op ::
  "('x \<Rightarrow> z86Core \<Rightarrow> 'x \<times> z86Core) \<Rightarrow> (z86Core \<Rightarrow> bool) \<Rightarrow> ('x \<Rightarrow> z86Core \<Rightarrow> z86Core)
     \<Rightarrow> 'x \<Rightarrow> z86Core \<Rightarrow> z86Core" where
  "string_op body again finish x c =
     (if has_rep c
      then (if gpr c CX \<noteq> 0
            then (let (x, c) = rep_loop body again (gpr c CX) x c in finish x c)
            else c)
      else (let (x, c) = body x c in finish x c))"

section \<open>Loads, moves and stores\<close>

definition LODS_body :: "'a::len itself \<Rightarrow> quirks \<Rightarrow> int \<Rightarrow> z86Addr \<Rightarrow> z86Core \<Rightarrow> z86Addr \<times> z86Core" where
  "LODS_body _ cfg off src_addr c =
     (let (v, src_addr) = addr_read_advance cfg (mem c) off src_addr :: 'a word \<times> z86Addr
      in (src_addr, set_A v c))"

definition LODS :: "'a::len itself \<Rightarrow> quirks \<Rightarrow> z86Core \<Rightarrow> z86Core" where
  "LODS T cfg c =
     string_op (LODS_body T cfg (rep_step T c)) (\<lambda>_. True)
       (\<lambda>src_addr. set_word_reg SI (offset src_addr))
       (ctx_str_src c) c"

definition MOVS_body ::
  "'a::len itself \<Rightarrow> quirks \<Rightarrow> int \<Rightarrow> z86Addr \<times> z86Addr \<Rightarrow> z86Core \<Rightarrow> (z86Addr \<times> z86Addr) \<times> z86Core" where
  "MOVS_body _ cfg off x c =
     (let (src_addr, dst_addr) = x;
          (v, src_addr) = addr_read_advance cfg (mem c) off src_addr :: 'a word \<times> z86Addr;
          (dst_addr, m) = addr_write_advance cfg v off (dst_addr, mem c)
      in ((src_addr, dst_addr), c\<lparr>mem := m\<rparr>))"

definition MOVS :: "'a::len itself \<Rightarrow> quirks \<Rightarrow> z86Core \<Rightarrow> z86Core" where
  "MOVS T cfg c =
     string_op (MOVS_body T cfg (rep_step T c)) (\<lambda>_. True)
       (\<lambda>x c. set_word_reg DI (offset (snd x)) (set_word_reg SI (offset (fst x)) c))
       (ctx_str_src c, ctx_str_dst c) c"

definition STOS_body :: "'a::len itself \<Rightarrow> quirks \<Rightarrow> int \<Rightarrow> z86Addr \<Rightarrow> z86Core \<Rightarrow> z86Addr \<times> z86Core" where
  "STOS_body _ cfg off dst_addr c =
     (let (dst_addr, m) = addr_write_advance cfg (reg_A c :: 'a word) off (dst_addr, mem c)
      in (dst_addr, c\<lparr>mem := m\<rparr>))"

definition STOS :: "'a::len itself \<Rightarrow> quirks \<Rightarrow> z86Core \<Rightarrow> z86Core" where
  "STOS T cfg c =
     string_op (STOS_body T cfg (rep_step T c)) (\<lambda>_. True)
       (\<lambda>dst_addr. set_word_reg DI (offset dst_addr))
       (ctx_str_dst c) c"

section \<open>Scans and comparisons\<close>

text \<open>
  The condition on which the loop goes on: REPC and REPNC of the V20 look at the carry, the
  others at the zero flag.
\<close>

definition rep_again :: "quirks \<Rightarrow> z86Core \<Rightarrow> z86Core \<Rightarrow> bool" where
  "rep_again cfg c0 c =
     (if is_repc cfg c0 then rep_type c = of_bool (carry c) + 2
      else rep_type c = of_bool (zero c))"

definition SCAS_body :: "'a::len itself \<Rightarrow> quirks \<Rightarrow> int \<Rightarrow> z86Addr \<Rightarrow> z86Core \<Rightarrow> z86Addr \<times> z86Core" where
  "SCAS_body _ cfg off dst_addr c =
     (let (v, dst_addr) = addr_read_advance cfg (mem c) off dst_addr :: 'a word \<times> z86Addr
      in (dst_addr, CMP (reg_A c) v c))"

definition SCAS :: "'a::len itself \<Rightarrow> quirks \<Rightarrow> z86Core \<Rightarrow> z86Core" where
  "SCAS T cfg c =
     string_op (SCAS_body T cfg (rep_step T c)) (rep_again cfg c)
       (\<lambda>dst_addr. set_word_reg DI (offset dst_addr))
       (ctx_str_dst c) c"

definition CMPS_body ::
  "'a::len itself \<Rightarrow> quirks \<Rightarrow> int \<Rightarrow> z86Addr \<times> z86Addr \<Rightarrow> z86Core \<Rightarrow> (z86Addr \<times> z86Addr) \<times> z86Core" where
  "CMPS_body _ cfg off x c =
     (let (src_addr, dst_addr) = x;
          (v, src_addr) = addr_read_advance cfg (mem c) off src_addr :: 'a word \<times> z86Addr;
          (w, dst_addr) = addr_read_advance cfg (mem c) off dst_addr :: 'a word \<times> z86Addr
      in ((src_addr, dst_addr), CMP v w c))"

definition CMPS :: "'a::len itself \<Rightarrow> quirks \<Rightarrow> z86Core \<Rightarrow> z86Core" where
  "CMPS T cfg c =
     string_op (CMPS_body T cfg (rep_step T c)) (rep_again cfg c)
       (\<lambda>x c. set_word_reg DI (offset (snd x)) (set_word_reg SI (offset (fst x)) c))
       (ctx_str_src c, ctx_str_dst c) c"

section \<open>Ports\<close>

definition port_out_impl :: "u16 \<Rightarrow> 'a::len word \<Rightarrow> z86Core \<Rightarrow> z86Core" where
  "port_out_impl port value c =
     (let full_port = ucast port
      in if LENGTH('a) = 8
         then c\<lparr>io_byte_devices := port_out8_loop full_port (ucast value) (io_byte_devices c)\<rparr>
         else c\<lparr>io_word_devices := port_out16_loop full_port (ucast value) (io_word_devices c)\<rparr>)"

definition port_in_impl :: "u16 \<Rightarrow> z86Core \<Rightarrow> 'a::len word \<times> z86Core" where
  "port_in_impl port c =
     (let full_port = ucast port
      in if LENGTH('a) = 8
         then (let (v, ds) = port_in8_loop 0 full_port (io_byte_devices c)
               in (ucast v, c\<lparr>io_byte_devices := ds\<rparr>))
         else (let (v, ds) = port_in16_loop 0 full_port (io_word_devices c)
               in (ucast v, c\<lparr>io_word_devices := ds\<rparr>)))"

definition port_out :: "'a::len itself \<Rightarrow> u16 \<Rightarrow> z86Core \<Rightarrow> z86Core" where
  "port_out _ port c = port_out_impl port (reg_A c :: 'a word) c"

definition port_in :: "'a::len itself \<Rightarrow> u16 \<Rightarrow> z86Core \<Rightarrow> z86Core" where
  "port_in _ port c = (let (v, c) = port_in_impl port c :: 'a word \<times> z86Core in set_A v c)"

definition OUTS_body :: "'a::len itself \<Rightarrow> quirks \<Rightarrow> u16 \<Rightarrow> int \<Rightarrow> z86Addr \<Rightarrow> z86Core \<Rightarrow> z86Addr \<times> z86Core" where
  "OUTS_body _ cfg port off src_addr c =
     (let (v, src_addr) = addr_read_advance cfg (mem c) off src_addr :: 'a word \<times> z86Addr
      in (src_addr, port_out_impl port v c))"

definition OUTS :: "'a::len itself \<Rightarrow> quirks \<Rightarrow> z86Core \<Rightarrow> z86Core" where
  "OUTS T cfg c =
     string_op (OUTS_body T cfg (gpr c DX) (rep_step T c)) (\<lambda>_. True)
       (\<lambda>src_addr. set_word_reg SI (offset src_addr))
       (ctx_str_src c) c"

definition INS_body :: "'a::len itself \<Rightarrow> quirks \<Rightarrow> u16 \<Rightarrow> int \<Rightarrow> z86Addr \<Rightarrow> z86Core \<Rightarrow> z86Addr \<times> z86Core" where
  "INS_body _ cfg port off dst_addr c =
     (let (v, c) = port_in_impl port c :: 'a word \<times> z86Core;
          (dst_addr, m) = addr_write_advance cfg v off (dst_addr, mem c)
      in (dst_addr, c\<lparr>mem := m\<rparr>))"

definition INS :: "'a::len itself \<Rightarrow> quirks \<Rightarrow> z86Core \<Rightarrow> z86Core" where
  "INS T cfg c =
     string_op (INS_body T cfg (gpr c DX) (rep_step T c)) (\<lambda>_. True)
       (\<lambda>dst_addr. set_word_reg DI (offset dst_addr))
       (ctx_str_dst c) c"

section \<open>Reasoning about the repeat loop\<close>

text \<open>
  \<open>J k\<close> holds when \<open>k\<close> turns are left before a turn, \<open>K k\<close> when \<open>k\<close> are left after one.
\<close>

lemma rep_loop_rule:
  assumes "J (unat cx) x c" "cx \<noteq> 0"
    "\<And>k x c. J (Suc k) x c \<Longrightarrow> K k (fst (body x c)) (set_word_reg CX (of_nat k) (snd (body x c)))"
    "\<And>k x c. K k x c \<Longrightarrow> k \<noteq> 0 \<Longrightarrow> again c \<Longrightarrow> J k x c"
  shows "\<exists>k. K k (fst (rep_loop body again cx x c)) (snd (rep_loop body again cx x c))
    \<and> (k = 0 \<or> \<not> again (snd (rep_loop body again cx x c)))"
  using assms
proof (induction body again cx x c rule: rep_loop.induct)
  case (1 body again cx x c)
  define r where "r = body x c"
  define c' where "c' = set_word_reg CX (cx - 1) (snd r)"
  have k: "unat cx = Suc (unat (cx - 1))"
    using 1(3) by (simp add: unat_minus_one unat_gt_0)
  have K: "K (unat (cx - 1)) (fst r) c'"
    using 1(4) [of "unat (cx - 1)" x c] 1(2) unfolding k by (simp add: r_def c'_def)
  show ?case
  proof (cases "cx - 1 \<noteq> 0 \<and> again c'")
    case True
    then have "unat (cx - 1) \<noteq> 0" by (simp add: unat_eq_zero)
    then have "J (unat (cx - 1)) (fst r) c'" using K 1(5) True by blast
    moreover have "rep_loop body again cx x c = rep_loop body again (cx - 1) (fst r) c'"
      using True by (subst rep_loop.simps) (simp add: r_def c'_def Let_def)
    ultimately show ?thesis
      using 1(1) [OF r_def refl c'_def True] True 1(4,5) by simp
  next
    case False
    moreover have "rep_loop body again cx x c = (fst r, c')"
      using False by (subst rep_loop.simps) (auto simp: r_def c'_def Let_def)
    ultimately show ?thesis using K by (auto simp: unat_eq_0)
  qed
qed

lemma rep_loop_all:
  assumes "J (unat cx) x c" "cx \<noteq> 0"
    "\<And>k x c. J (Suc k) x c \<Longrightarrow> J k (fst (body x c)) (set_word_reg CX (of_nat k) (snd (body x c)))"
  shows "J 0 (fst (rep_loop body (\<lambda>_. True) cx x c)) (snd (rep_loop body (\<lambda>_. True) cx x c))"
  using rep_loop_rule [of J cx x c J body "\<lambda>_. True"] assms by auto

text \<open>A loop that runs to the end, its states given in advance.\<close>

lemma rep_loop_count:
  assumes "n = unat cx" "cx \<noteq> 0" "x = pos 0" "c = st 0"
    "\<And>i. i < n \<Longrightarrow> fst (body (pos i) (st i)) = pos (Suc i)"
    "\<And>i. i < n \<Longrightarrow> set_word_reg CX (of_nat (n - Suc i)) (snd (body (pos i) (st i))) = st (Suc i)"
  shows "rep_loop body (\<lambda>_. True) cx x c = (pos n, st n)"
proof -
  define J where "J k y d \<longleftrightarrow> k \<le> n \<and> y = pos (n - k) \<and> d = st (n - k)" for k y d
  have "J 0 (fst (rep_loop body (\<lambda>_. True) cx x c)) (snd (rep_loop body (\<lambda>_. True) cx x c))"
  proof (rule rep_loop_all [OF _ assms(2)])
    show "J (unat cx) x c" using assms(1,3,4) by (simp add: J_def)
  next
    fix k y d assume "J (Suc k) y d"
    then have k: "n - Suc k < n" "Suc (n - Suc k) = n - k" "n - Suc (n - Suc k) = k"
      and y: "y = pos (n - Suc k)" "d = st (n - Suc k)" by (auto simp: J_def)
    then show "J k (fst (body y d)) (set_word_reg CX (of_nat k) (snd (body y d)))"
      using assms(5) [OF k(1)] assms(6) [OF k(1)] by (simp add: J_def)
  qed
  then show ?thesis by (simp add: J_def prod_eq_iff)
qed

lemma addr_step: "addr_add a (int (Suc i) * off) = addr_add (addr_add a (int i * off)) off"
  by (simp add: algebra_simps)

text \<open>The core in the middle of a repetition: memory changed, CX counted down.\<close>

definition rep_core :: "z86Core \<Rightarrow> nat \<Rightarrow> z86Memory \<Rightarrow> z86Core" where
  "rep_core c k m = c\<lparr>mem := m, gpr := (gpr c)(CX := of_nat k)\<rparr>"

lemma rep_core_simps [simp]:
  "mem (rep_core c k m) = m" "(rep_core c k m)\<lparr>mem := m'\<rparr> = rep_core c k m'"
  "set_word_reg CX (of_nat j) (rep_core c k m) = rep_core c j m"
  "reg_A (rep_core c k m) = (reg_A c :: 'a::len word)"
  by (simp_all add: rep_core_def set_word_reg_def reg_A_def)

lemma rep_core_start: "rep_core c (unat (gpr c CX)) (mem c) = c"
  by (simp add: rep_core_def)

text \<open>
  REP MOVS copies as many elements as CX says, one after the other, at every width and in both
  directions, each copy seeing the ones before it; it leaves SI and DI behind the last element
  and CX zero, and changes nothing else.
\<close>

lemma REP_MOVS_eq:
  assumes "has_rep c" "gpr c CX \<noteq> 0"
  shows "MOVS TYPE('a::len) cfg c =
    (let off = rep_step TYPE('a) c; n = unat (gpr c CX);
         copy = (\<lambda>i m. addr_write cfg (addr_add (ctx_str_dst c) (int i * off)) 0
           (addr_read cfg (addr_add (ctx_str_src c) (int i * off)) 0 m :: 'a word) m)
     in c\<lparr>mem := fold copy [0..<n] (mem c),
          gpr := (gpr c)(SI := gpr c SI + of_int (int n * off), DI := gpr c DI + of_int (int n * off), CX := 0)\<rparr>)"
proof -
  define off n where "off = rep_step TYPE('a) c" and "n = unat (gpr c CX)"
  define src dst where "src = ctx_str_src c" and "dst = ctx_str_dst c"
  define copy where "copy = (\<lambda>i m. addr_write cfg (addr_add dst (int i * off)) 0
      (addr_read cfg (addr_add src (int i * off)) 0 m :: 'a word) m)"
  define st where "st i = rep_core c (n - i) (fold copy [0..<i] (mem c))" for i
  define pos where "pos i = (addr_add src (int i * off), addr_add dst (int i * off))" for i
  have "rep_loop (MOVS_body TYPE('a) cfg off) (\<lambda>_. True) (gpr c CX) (src, dst) c = (pos n, st n)"
  proof (rule rep_loop_count [OF n_def assms(2)])
    show "(src, dst) = pos 0" "c = st 0"
      using rep_core_start [of c] by (simp_all add: pos_def st_def n_def)
  next
    fix i assume "i < n"
    have body: "MOVS_body TYPE('a) cfg off (pos i) (st i) =
        (pos (Suc i), rep_core c (n - i) (fold copy [0..<Suc i] (mem c)))"
      unfolding pos_def addr_step
      by (simp add: MOVS_body_def addr_read_advance_def addr_write_advance_def st_def copy_def)
    show "fst (MOVS_body TYPE('a) cfg off (pos i) (st i)) = pos (Suc i)" by (simp only: body fst_conv)
    show "set_word_reg CX (of_nat (n - Suc i)) (snd (MOVS_body TYPE('a) cfg off (pos i) (st i))) = st (Suc i)"
      unfolding body snd_conv by (simp only: rep_core_simps st_def)
  qed
  then show ?thesis
    using assms(1) assms(2)
    unfolding MOVS_def string_op_def off_def [symmetric] n_def [symmetric] src_def [symmetric]
      dst_def [symmetric] Let_def copy_def [symmetric]
    by (simp add: pos_def st_def rep_core_def set_word_reg_def fun_upd_def src_def dst_def
        ctx_str_src_def ctx_str_dst_def ctx_addr_def ctx_addr_force_def fun_eq_iff)
qed

text \<open>Element-wise writes of bytes to distinct places.\<close>

lemma fold_byte_writes:
  assumes "a20 m = None" "inj_on D {..<n}" "k \<le> n"
    "\<And>i m'. i < n \<Longrightarrow> a20 m' = None \<Longrightarrow> (\<And>a. a \<notin> D ` {..<i} \<Longrightarrow> raw m' a = raw m a) \<Longrightarrow>
       a20 (w i m') = None \<and> raw (w i m') = (raw m')(D i := f i)"
  shows "a20 (fold w [0..<k] m) = None \<and> (\<forall>i < k. raw (fold w [0..<k] m) (D i) = f i)
    \<and> (\<forall>a. a \<notin> D ` {..<k} \<longrightarrow> raw (fold w [0..<k] m) a = raw m a)"
  using assms(3)
proof (induction k)
  case 0
  then show ?case using assms(1) by simp
next
  case (Suc k)
  let ?m = "fold w [0..<k] m"
  have w: "a20 (w k ?m) = None" "raw (w k ?m) = (raw ?m)(D k := f k)"
    using assms(4) [of k ?m] Suc by auto
  have "D i \<noteq> D k" if "i < k" for i
    using inj_onD [OF assms(2), of i k] that Suc.prems by auto
  then show ?case using Suc w by (auto simp: less_Suc_eq lessThan_Suc)
qed

lemma inj_element_addr:
  assumes "off = 1 \<or> off = - 1" "n \<le> 65536"
  shows "inj_on (\<lambda>i. addr_addr a (int i * off)) {..<n}"
proof (rule inj_onI)
  fix i j assume i: "i \<in> {..<n}" and j: "j \<in> {..<n}" and "addr_addr a (int i * off) = addr_addr a (int j * off)"
  then have "(uint (offset a) + int i * off) mod 65536 = (uint (offset a) + int j * off) mod 65536"
    by (simp add: addr_addr_def addr_ptr_mod)
  then have "65536 dvd (int i - int j) * off"
    by (simp add: mod_eq_dvd_iff algebra_simps)
  then have "65536 dvd int i - int j" using assms(1) by (auto simp: dvd_diff_commute)
  moreover have "\<bar>int i - int j\<bar> < 65536" using i j assms(2) by auto
  ultimately show "i = j" using dvd_imp_le_int [of "int i - int j" 65536] by force
qed

lemma addr_addr_add: "addr_addr (addr_add a d) 0 = addr_addr a d"
  by (simp add: addr_addr_def)

lemma rep_step8: "rep_step TYPE(8) c = 1 \<or> rep_step TYPE(8) c = - 1"
  by (simp add: rep_step_def mem_size_def)

text \<open>C13: REP MOVSB between blocks that do not overlap copies the block: every byte of the
  destination has the value its source had, in either direction and round the end of the
  segment, and no other byte of memory changes.\<close>

theorem REP_MOVSB_copies:
  assumes "has_rep c" "gpr c CX \<noteq> 0" "no_gate c"
    and "S = (\<lambda>i. addr_addr (ctx_str_src c) (int i * rep_step TYPE(8) c))"
    and "D = (\<lambda>i. addr_addr (ctx_str_dst c) (int i * rep_step TYPE(8) c))"
    and "\<And>i j. i < unat (gpr c CX) \<Longrightarrow> j < unat (gpr c CX) \<Longrightarrow> S i \<noteq> D j"
  shows "(\<forall>i < unat (gpr c CX). raw (mem (MOVS TYPE(8) cfg c)) (D i) = raw (mem c) (S i))
    \<and> (\<forall>a. a \<notin> D ` {..<unat (gpr c CX)} \<longrightarrow> raw (mem (MOVS TYPE(8) cfg c)) a = raw (mem c) a)"
proof -
  let ?n = "unat (gpr c CX)" and ?off = "rep_step TYPE(8) c"
  define w where "w = (\<lambda>i m. addr_write cfg (addr_add (ctx_str_dst c) (int i * ?off)) 0
      (addr_read cfg (addr_add (ctx_str_src c) (int i * ?off)) 0 m :: u8) m)"
  have n: "?n \<le> 65536" using unsigned_less [where 'a = nat and w = "gpr c CX"] by simp
  have inj: "inj_on D {..<?n}" unfolding assms(5) by (rule inj_element_addr [OF rep_step8 n])
  have "a20 (w i m') = None \<and> raw (w i m') = (raw m')(D i := raw (mem c) (S i))"
    if "i < ?n" "a20 m' = None" "\<And>a. a \<notin> D ` {..<i} \<Longrightarrow> raw m' a = raw (mem c) a" for i m'
  proof -
    have "S i \<notin> D ` {..<i}" using assms(6) that(1) by (metis imageE lessThan_iff order.strict_trans)
    then have "raw m' (S i) = raw (mem c) (S i)" by (rule that(3))
    then show ?thesis using that(2)
      by (simp add: w_def addr_read8 raw_addr_write8 addr_addr_add assms(4,5))
  qed
  then have "(\<forall>i < ?n. raw (fold w [0..<?n] (mem c)) (D i) = raw (mem c) (S i))
      \<and> (\<forall>a. a \<notin> D ` {..<?n} \<longrightarrow> raw (fold w [0..<?n] (mem c)) a = raw (mem c) a)"
    using fold_byte_writes [of "mem c" D ?n ?n w "\<lambda>i. raw (mem c) (S i)"] inj assms(3)
    by (simp add: no_gate_def)
  moreover have "mem (MOVS TYPE(8) cfg c) = fold w [0..<?n] (mem c)"
    using REP_MOVS_eq [OF assms(1,2), of cfg, where 'a = 8] by (simp add: w_def Let_def)
  ultimately show ?thesis by simp
qed

definition sample_rep :: z86Core where
  "sample_rep = set_rep_type 0xF3 sample_core"

lemma sample_rep_facts:
  "has_rep sample_rep" "gpr sample_rep CX \<noteq> 0" "no_gate sample_rep"
  by (simp_all add: sample_rep_def set_rep_type_def has_rep_def rep_defs sample_defs no_gate_def)

theorem REP_MOVSB_copies_witness:
  "raw (mem (MOVS TYPE(8) z8086 sample_rep)) 0x40002 = raw (mem sample_rep) 0x30002"
proof -
  let ?S = "\<lambda>i. addr_addr (ctx_str_src sample_rep) (int i * rep_step TYPE(8) sample_rep)"
  let ?D = "\<lambda>i. addr_addr (ctx_str_dst sample_rep) (int i * rep_step TYPE(8) sample_rep)"
  have v: "?S 2 = 0x30002" "?D 2 = 0x40002" "unat (gpr sample_rep CX) = 3"
    and s: "addr_seg (ctx_str_src sample_rep) = 0x30000" "addr_seg (ctx_str_dst sample_rep) = 0x40000"
    by (simp_all add: sample_rep_def set_rep_type_def sample_core_def ctx_str_src_def ctx_str_dst_def
        ctx_addr_def ctx_segment_def ctx_addr_force_def addr_addr_def addr_seg_def addr_ptr_def rep_step_def mem_size_def)
  have "?S i \<noteq> ?D j" for i j
    using addr_ptr_bounds [of "ctx_str_src sample_rep" "int i * rep_step TYPE(8) sample_rep"]
      addr_ptr_bounds [of "ctx_str_dst sample_rep" "int j * rep_step TYPE(8) sample_rep"]
    by (simp add: addr_addr_def s)
  then have "\<forall>i < unat (gpr sample_rep CX). raw (mem (MOVS TYPE(8) z8086 sample_rep)) (?D i) = raw (mem sample_rep) (?S i)"
    using REP_MOVSB_copies [OF sample_rep_facts refl refl, of z8086] by blast
  then have "raw (mem (MOVS TYPE(8) z8086 sample_rep)) (?D 2) = raw (mem sample_rep) (?S 2)"
    unfolding v(3) by (elim allE [of _ 2] impE) simp_all
  then show ?thesis unfolding v .
qed

text \<open>
  The store repeated: what REP STOS does at every width.
\<close>

lemma REP_STOS_eq:
  assumes "has_rep c" "gpr c CX \<noteq> 0"
  shows "STOS TYPE('a::len) cfg c =
    (let off = rep_step TYPE('a) c; n = unat (gpr c CX);
         put = (\<lambda>i m. addr_write cfg (addr_add (ctx_str_dst c) (int i * off)) 0 (reg_A c :: 'a word) m)
     in c\<lparr>mem := fold put [0..<n] (mem c),
          gpr := (gpr c)(DI := gpr c DI + of_int (int n * off), CX := 0)\<rparr>)"
proof -
  define off n where "off = rep_step TYPE('a) c" and "n = unat (gpr c CX)"
  define dst where "dst = ctx_str_dst c"
  define put where "put = (\<lambda>i m. addr_write cfg (addr_add dst (int i * off)) 0 (reg_A c :: 'a word) m)"
  define st where "st i = rep_core c (n - i) (fold put [0..<i] (mem c))" for i
  define pos where "pos i = addr_add dst (int i * off)" for i
  have "rep_loop (STOS_body TYPE('a) cfg off) (\<lambda>_. True) (gpr c CX) dst c = (pos n, st n)"
  proof (rule rep_loop_count [OF n_def assms(2)])
    show "dst = pos 0" "c = st 0"
      using rep_core_start [of c] by (simp_all add: pos_def st_def n_def)
  next
    fix i assume "i < n"
    have body: "STOS_body TYPE('a) cfg off (pos i) (st i) =
        (pos (Suc i), rep_core c (n - i) (fold put [0..<Suc i] (mem c)))"
      unfolding pos_def addr_step by (simp add: STOS_body_def addr_write_advance_def st_def put_def)
    show "fst (STOS_body TYPE('a) cfg off (pos i) (st i)) = pos (Suc i)" by (simp only: body fst_conv)
    show "set_word_reg CX (of_nat (n - Suc i)) (snd (STOS_body TYPE('a) cfg off (pos i) (st i))) = st (Suc i)"
      unfolding body snd_conv by (simp only: rep_core_simps st_def)
  qed
  then show ?thesis
    using assms
    unfolding STOS_def string_op_def off_def [symmetric] n_def [symmetric] dst_def [symmetric]
      Let_def put_def [symmetric]
    by (simp add: pos_def st_def rep_core_def set_word_reg_def fun_upd_def dst_def
        ctx_str_dst_def ctx_addr_force_def fun_eq_iff)
qed

text \<open>REP STOSB fills the block of CX bytes with AL and changes no other byte of memory; DI
  ends behind the block and CX is zero.\<close>

theorem REP_STOSB_fills:
  assumes "has_rep c" "gpr c CX \<noteq> 0" "no_gate c"
    and "D = (\<lambda>i. addr_addr (ctx_str_dst c) (int i * rep_step TYPE(8) c))"
  shows "(\<forall>i < unat (gpr c CX). raw (mem (STOS TYPE(8) cfg c)) (D i) = lo8 (gpr c AX))
    \<and> (\<forall>a. a \<notin> D ` {..<unat (gpr c CX)} \<longrightarrow> raw (mem (STOS TYPE(8) cfg c)) a = raw (mem c) a)
    \<and> gpr (STOS TYPE(8) cfg c) CX = 0
    \<and> gpr (STOS TYPE(8) cfg c) DI = gpr c DI + of_int (int (unat (gpr c CX)) * rep_step TYPE(8) c)"
proof -
  let ?n = "unat (gpr c CX)" and ?off = "rep_step TYPE(8) c"
  define w where "w = (\<lambda>i m. addr_write cfg (addr_add (ctx_str_dst c) (int i * ?off)) 0 (reg_A c :: u8) m)"
  have n: "?n \<le> 65536" using unsigned_less [where 'a = nat and w = "gpr c CX"] by simp
  have inj: "inj_on D {..<?n}" unfolding assms(4) by (rule inj_element_addr [OF rep_step8 n])
  have "(\<forall>i < ?n. raw (fold w [0..<?n] (mem c)) (D i) = lo8 (gpr c AX))
      \<and> (\<forall>a. a \<notin> D ` {..<?n} \<longrightarrow> raw (fold w [0..<?n] (mem c)) a = raw (mem c) a)"
    using fold_byte_writes [of "mem c" D ?n ?n w "\<lambda>_. lo8 (gpr c AX)"] inj assms(3)
    by (simp add: no_gate_def w_def raw_addr_write8 addr_addr_add assms(4) reg_A_def)
  then show ?thesis
    using REP_STOS_eq [OF assms(1,2), of cfg, where 'a = 8] by (simp add: w_def Let_def)
qed

theorem REP_STOSB_fills_witness:
  "gpr (STOS TYPE(8) z8086 sample_rep) CX = 0"
  using REP_STOSB_fills [OF sample_rep_facts refl, of z8086] by blast

lemma CMP_frame [simp]:
  "mem (CMP x y (c :: z86Core)) = mem c" "gpr (CMP x y (c :: z86Core)) = gpr c"
  "rep_type (CMP x y (c :: z86Core)) = rep_type c" "direction (CMP x y (c :: z86Core)) = direction c"
  "zero (CMP x y (c :: z86Core)) = (x = y)"
  by (simp_all add: CMP_def update_pzs_def update_parity_def Let_def)

text \<open>REPNE SCASB stops at the first byte that equals AL: the zero flag tells whether there is
  one among the CX bytes, DI ends one element behind the last byte looked at, CX counts the
  bytes not looked at, and the memory is unchanged.\<close>

theorem REPNE_SCASB:
  assumes "rep_type c = REP_NZ" "gpr c CX \<noteq> 0" "no_gate c" "n = unat (gpr c CX)"
    "v = (\<lambda>i. raw (mem c) (addr_addr (ctx_str_dst c) (int i * rep_step TYPE(8) c)))"
  shows "\<exists>i < n. (\<forall>l < i. v l \<noteq> lo8 (gpr c AX))
    \<and> zero (SCAS TYPE(8) cfg c) = (v i = lo8 (gpr c AX)) \<and> (v i \<noteq> lo8 (gpr c AX) \<longrightarrow> Suc i = n)
    \<and> gpr (SCAS TYPE(8) cfg c) CX = of_nat (n - Suc i)
    \<and> gpr (SCAS TYPE(8) cfg c) DI = gpr c DI + of_int (int (Suc i) * rep_step TYPE(8) c)
    \<and> mem (SCAS TYPE(8) cfg c) = mem c"
proof -
  define off dst a where "off = rep_step TYPE(8) c" and "dst = ctx_str_dst c" and "a = lo8 (gpr c AX)"
  define same where "same k d \<longleftrightarrow> mem d = mem c \<and> gpr d = (gpr c)(CX := of_nat k) \<and> rep_type d = REP_NZ" for k and d :: z86Core
  define J where "J k x d \<longleftrightarrow> (\<exists>i. i + k = n \<and> x = addr_add dst (int i * off) \<and> (\<forall>l < i. v l \<noteq> a) \<and> same k d)" for k x and d :: z86Core
  define K where "K k x d \<longleftrightarrow> (\<exists>i. Suc i + k = n \<and> x = addr_add dst (int (Suc i) * off) \<and> (\<forall>l < i. v l \<noteq> a)
      \<and> zero d = (v i = a) \<and> same k d)" for k x and d :: z86Core
  let ?r = "rep_loop (SCAS_body TYPE(8) cfg off) (rep_again cfg c) (gpr c CX) dst c"
  have again: "rep_again cfg c d \<longleftrightarrow> \<not> zero d" if "rep_type d = REP_NZ" for d
    using assms(1) that by (simp add: rep_again_def is_repc_def rep_defs)
  have "\<exists>k. K k (fst ?r) (snd ?r) \<and> (k = 0 \<or> \<not> rep_again cfg c (snd ?r))"
  proof (rule rep_loop_rule [OF _ assms(2)])
    show "J (unat (gpr c CX)) dst c" using assms(1) by (simp add: J_def same_def assms(4))
  next
    fix k x d assume "J (Suc k) x d"
    then obtain i where i: "i + Suc k = n" "x = addr_add dst (int i * off)" "\<forall>l < i. v l \<noteq> a" "same (Suc k) d"
      by (auto simp: J_def)
    have b: "SCAS_body TYPE(8) cfg off x d = (addr_add dst (int (Suc i) * off), CMP a (v i) d)"
      unfolding addr_step i(2) using i(4) assms(3)
      by (simp add: SCAS_body_def addr_read_advance_def addr_read8 addr_addr_add same_def no_gate_def
          assms(5) dst_def off_def reg_A_def a_def)
    have "same k (set_word_reg CX (of_nat k) (CMP a (v i) d))"
      using i(4) by (simp add: same_def set_word_reg_def)
    then show "K k (fst (SCAS_body TYPE(8) cfg off x d)) (set_word_reg CX (of_nat k) (snd (SCAS_body TYPE(8) cfg off x d)))"
      unfolding b K_def using i(1,3) by (intro exI [of _ i]) (auto simp: set_word_reg_def)
  next
    fix k x d assume "K k x d" "k \<noteq> 0" "rep_again cfg c d"
    then obtain i where i: "Suc i + k = n" "x = addr_add dst (int (Suc i) * off)" "\<forall>l < i. v l \<noteq> a" "v i \<noteq> a" "same k d"
      using again [of d] by (auto simp: K_def same_def)
    then show "J k x d" unfolding J_def by (intro exI [of _ "Suc i"]) (auto simp: less_Suc_eq)
  qed
  then obtain k i where r: "Suc i + k = n" "fst ?r = addr_add dst (int (Suc i) * off)" "\<forall>l < i. v l \<noteq> a"
      "zero (snd ?r) = (v i = a)" "same k (snd ?r)" "k = 0 \<or> \<not> rep_again cfg c (snd ?r)"
    by (auto simp: K_def)
  have "SCAS TYPE(8) cfg c = set_word_reg DI (offset (fst ?r)) (snd ?r)"
    using assms(1,2) by (simp add: SCAS_def string_op_def has_rep_def rep_defs Let_def split_beta off_def dst_def)
  moreover have "v i \<noteq> a \<longrightarrow> k = 0" using r(4,5,6) again [of "snd ?r"] by (auto simp: same_def)
  ultimately show ?thesis
    using r unfolding a_def [symmetric] off_def [symmetric]
    by (intro exI [of _ i]) (auto simp: same_def set_word_reg_def dst_def ctx_str_dst_def ctx_addr_force_def)
qed

theorem REPNE_SCASB_witness:
  "mem (SCAS TYPE(8) z8086 (set_rep_type 0xF2 sample_core)) = sample_mem"
proof -
  have "rep_type (set_rep_type 0xF2 sample_core) = REP_NZ" "gpr (set_rep_type 0xF2 sample_core) CX \<noteq> 0"
    "no_gate (set_rep_type 0xF2 sample_core)" "mem (set_rep_type 0xF2 sample_core) = sample_mem"
    by (simp_all add: set_rep_type_def rep_defs sample_core_def no_gate_def sample_mem_def)
  then show ?thesis using REPNE_SCASB [OF _ _ _ refl refl, of "set_rep_type 0xF2 sample_core" z8086] by auto
qed

end
