(* ===== verification/Z86_ModRM.thy ===== *)
theory Z86_ModRM
  imports Z86_MulDiv Z86_String
begin

text \<open>
  The ModRM byte with 16 bit addressing, and the operand wrappers of \<^verbatim>\<open>z86Base\<close>
  (\<^verbatim>\<open>binopMR_impl\<close>, \<^verbatim>\<open>unopM_impl\<close> and their kin), which decode an operand, hand a
  reference to it to a lambda and write memory back.  A reference is either the local
  variable that holds the memory operand or a register, so a lambda works on a frame: the
  local variable, the program counter it may read immediates from, and the context.
\<close>

section \<open>The ModRM byte\<close>

definition modrm_Mod :: "u8 \<Rightarrow> nat" where "modrm_Mod modrm = unat (drop_bit 6 modrm)"
definition modrm_R :: "u8 \<Rightarrow> nat" where "modrm_R modrm = unat (drop_bit 3 (modrm AND 0x38))"
definition modrm_M :: "u8 \<Rightarrow> nat" where "modrm_M modrm = unat (modrm AND 7)"

definition modrm_is_mem :: "u8 \<Rightarrow> bool" where "modrm_is_mem modrm \<longleftrightarrow> modrm_Mod modrm \<noteq> 3"

definition modrm_extra_length :: "u8 \<Rightarrow> nat" where
  "modrm_extra_length modrm =
     (let md = modrm_Mod modrm
      in if md = 3 then 0
         else if md = 0 then (if modrm_M modrm = 6 then 2 else 0)
         else if md = 1 then 1
         else 2)"

definition modrm_length :: "u8 \<Rightarrow> nat" where
  "modrm_length modrm = 1 + modrm_extra_length modrm"

definition first_reg16 :: "nat list" where
  "first_reg16 = [BX, BX, BP, BP, SI, DI, BP, BX]"

definition segment_mask16 :: u32 where "segment_mask16 = 0b10110011"

text \<open>The data address and the advanced program counter.\<close>

definition parse_memM :: "quirks \<Rightarrow> u8 \<Rightarrow> z86Addr \<Rightarrow> z86Core \<Rightarrow> z86Addr \<times> z86Addr" where
  "parse_memM cfg modrm pc c =
     (let m = modrm_M modrm;
          md = modrm_Mod modrm;
          off = index_word_reg c (first_reg16 ! m);
          off = (if m < 4 then off + index_word_reg c (SI OR m) else off);
          (m, off, pc) =
            (if md = 1
             then (let (d, pc) = addr_read_advance cfg (mem c) 1 pc :: u8 \<times> z86Addr
                   in (m, off + scast d, pc))
             else if md = 0 \<and> m \<noteq> 6 then (m, off, pc)
             else (let (m, off) = (if md = 0 then (0, 0) else (m, off));
                       (d, pc) = addr_read_advance cfg (mem c) 2 pc :: u16 \<times> z86Addr
                   in (m, off + d, pc)))
      in (ctx_addr c (SS + of_bool (bit segment_mask16 m)) off, pc))"

section \<open>Operand references\<close>

record 'v frame =
  mval :: 'v
  pc :: z86Addr
  ctx :: z86Core

datatype operand = Local | Reg nat

definition read_op :: "operand \<Rightarrow> 'a::len word frame \<Rightarrow> 'a word" where
  "read_op r s = (case r of Local \<Rightarrow> mval s | Reg i \<Rightarrow> index_reg (ctx s) i)"

definition write_op :: "operand \<Rightarrow> 'a::len word \<Rightarrow> 'a word frame \<Rightarrow> 'a word frame" where
  "write_op r v s =
     (case r of Local \<Rightarrow> s\<lparr>mval := v\<rparr> | Reg i \<Rightarrow> s\<lparr>ctx := set_index_reg i v (ctx s)\<rparr>)"

definition OP_NO_WRITE :: u8 where "OP_NO_WRITE = 0"
definition OP_WRITE :: u8 where "OP_WRITE = 1"
definition OP_FAULT :: u8 where "OP_FAULT = 2"

definition OP_NEEDS_WRITE :: "u8 \<Rightarrow> bool" where "OP_NEEDS_WRITE ret \<longleftrightarrow> ret AND 1 \<noteq> 0"
definition OP_HAD_FAULT :: "u8 \<Rightarrow> bool" where "OP_HAD_FAULT ret \<longleftrightarrow> ret AND 2 \<noteq> 0"

text \<open>A handler's result: the fault flag, the program counter and the context.\<close>

type_synonym handler = "z86Addr \<Rightarrow> z86Core \<Rightarrow> bool \<times> z86Addr \<times> z86Core"

type_synonym 'a unop = "operand \<Rightarrow> nat \<Rightarrow> 'a word frame \<Rightarrow> u8 \<times> 'a word frame"
type_synonym 'a binop = "operand \<Rightarrow> operand \<Rightarrow> 'a word frame \<Rightarrow> u8 \<times> 'a word frame"
type_synonym 'a binop_rm = "operand \<Rightarrow> 'a word \<Rightarrow> 'a word frame \<Rightarrow> 'a word frame"

definition fetch8 :: "quirks \<Rightarrow> z86Addr \<Rightarrow> z86Core \<Rightarrow> u8 \<times> z86Addr" where
  "fetch8 cfg p c = addr_read_advance cfg (mem c) 1 p"

section \<open>The wrappers\<close>

definition binopMR_impl :: "quirks \<Rightarrow> bool \<Rightarrow> 'a::len binop \<Rightarrow> handler" where
  "binopMR_impl cfg skips_read lambda p c =
     (let (modrm, p) = fetch8 cfg p c;
          rval = Reg (modrm_R modrm)
      in if modrm_is_mem modrm
         then (let (data_addr, p) = parse_memM cfg modrm p c;
                   m = (if \<not> skips_read then addr_read cfg data_addr 0 (mem c) else 0);
                   (ret, s) = lambda Local rval \<lparr>mval = m, pc = p, ctx = c\<rparr>;
                   c = ctx s;
                   c = (if ret \<noteq> 0 then c\<lparr>mem := addr_write cfg data_addr 0 (mval s) (mem c)\<rparr> else c)
               in (False, pc s, c))
         else (let (ret, s) = lambda (Reg (modrm_M modrm)) rval \<lparr>mval = 0, pc = p, ctx = c\<rparr>
               in (False, pc s, ctx s)))"

definition binopRM_impl :: "quirks \<Rightarrow> 'a::len binop_rm \<Rightarrow> handler" where
  "binopRM_impl cfg lambda p c =
     (let (modrm, p) = fetch8 cfg p c;
          (m, p) = (if modrm_is_mem modrm
                    then (let (data_addr, p) = parse_memM cfg modrm p c
                          in (addr_read cfg data_addr 0 (mem c), p))
                    else (index_reg c (modrm_M modrm), p));
          s = lambda (Reg (modrm_R modrm)) m \<lparr>mval = m, pc = p, ctx = c\<rparr>
      in (False, pc s, ctx s))"

definition LEA_impl :: "quirks \<Rightarrow> handler" where
  "LEA_impl cfg p c =
     (let (modrm, p) = fetch8 cfg p c
      in if modrm_is_mem modrm
         then (let (addr, p) = parse_memM cfg modrm p c
               in (False, p, set_word_reg (modrm_R modrm) (offset addr) c))
         else if NO_UD cfg then (False, p, c)
         else (True, p, snd (set_fault cfg IntUD c)))"

text \<open>LDS and LES: the far pointer as one value of 32 bits.\<close>

definition binopRMF_impl :: "quirks \<Rightarrow> (nat \<Rightarrow> u32 \<Rightarrow> z86Core \<Rightarrow> u8 \<times> z86Core) \<Rightarrow> handler" where
  "binopRMF_impl cfg lambda p c =
     (let (modrm, p) = fetch8 cfg p c
      in if modrm_is_mem modrm
         then (let (data_addr, p) = parse_memM cfg modrm p c;
                   temp = ucast (addr_read cfg data_addr 0 (mem c) :: u16) :: u32;
                   temp = temp OR push_bit 16 (ucast (addr_read cfg data_addr 2 (mem c) :: u16));
                   (ret, c) = lambda (modrm_R modrm) temp c
               in (OP_HAD_FAULT ret, p, c))
         else if NO_UD cfg then (OP_HAD_FAULT 0, p, c)
         else (True, p, snd (set_fault cfg IntUD c)))"

text \<open>BOUND.\<close>

definition binopRM2_impl ::
  "quirks \<Rightarrow> (u16 \<Rightarrow> u16 \<Rightarrow> u16 \<Rightarrow> z86Core \<Rightarrow> bool \<times> z86Core) \<Rightarrow> handler" where
  "binopRM2_impl cfg lambda p c =
     (let (modrm, p) = fetch8 cfg p c
      in if modrm_is_mem modrm
         then (let (data_addr, p) = parse_memM cfg modrm p c;
                   (f, c) = lambda (index_word_reg c (modrm_R modrm))
                              (addr_read cfg data_addr 0 (mem c)) (addr_read cfg data_addr 2 (mem c)) c
               in (f, p, c))
         else if NO_UD cfg then (False, p, c)
         else (True, p, snd (set_fault cfg IntUD c)))"

definition binopMS_impl :: "quirks \<Rightarrow> handler" where
  "binopMS_impl cfg p c =
     (let (modrm, p) = fetch8 cfg p c;
          rval = get_seg cfg c (modrm_R modrm)
      in if modrm_is_mem modrm
         then (let (data_addr, p) = parse_memM cfg modrm p c
               in (False, p, c\<lparr>mem := addr_write cfg data_addr 0 rval (mem c)\<rparr>))
         else (False, p, set_word_reg (modrm_M modrm) rval c))"

definition binopSM_impl :: "quirks \<Rightarrow> handler" where
  "binopSM_impl cfg p c =
     (let (modrm, p) = fetch8 cfg p c;
          (m, p) = (if modrm_is_mem modrm
                    then (let (data_addr, p) = parse_memM cfg modrm p c
                          in (addr_read cfg data_addr 0 (mem c), p))
                    else (index_word_reg c (modrm_M modrm), p))
      in (False, p, write_seg cfg (modrm_R modrm) m c))"

definition unopM_impl :: "quirks \<Rightarrow> bool \<Rightarrow> 'a::len unop \<Rightarrow> handler" where
  "unopM_impl cfg skips_read lambda p c =
     (let (modrm, p) = fetch8 cfg p c;
          r = modrm_R modrm;
          (ret, p, c) =
            (if modrm_is_mem modrm
             then (let (data_addr, p) = parse_memM cfg modrm p c;
                       m = (if \<not> skips_read then addr_read cfg data_addr 0 (mem c) else 0);
                       (ret, s) = lambda Local r \<lparr>mval = m, pc = p, ctx = c\<rparr>;
                       c = ctx s;
                       c = (if OP_NEEDS_WRITE ret
                            then c\<lparr>mem := addr_write cfg data_addr 0 (mval s) (mem c)\<rparr> else c)
                   in (ret, pc s, c))
             else (let (ret, s) = lambda (Reg (modrm_M modrm)) r \<lparr>mval = 0, pc = p, ctx = c\<rparr>
                   in (ret, pc s, ctx s)))
      in if FAULTS_ARE_TRAPS cfg then (False, p, c) else (OP_HAD_FAULT ret, p, c))"

text \<open>
  \<^verbatim>\<open>unopMS_impl\<close>, groups 4 and 5.  The flag of the result tells that the instruction has
  set \<open>rip\<close> itself.
\<close>

definition unopMS_transfer ::
  "quirks \<Rightarrow> nat \<Rightarrow> 'a::len word \<Rightarrow> u16 \<Rightarrow> z86Addr \<Rightarrow> z86Core \<Rightarrow> bool \<times> z86Core" where
  "unopMS_transfer cfg r m sval p c =
     (if r = 2 then (True, CALLABS cfg (ucast (offset p) :: 'a word) m c)
      else if r = 3 then (True, CALLFABS cfg (ucast (offset p) :: 'a word) m sval c)
      else if r = 4 then (True, JMPABS (ucast m) c)
      else if r = 5 then (True, JMPFABS (ucast m) sval c)
      else (False, PUSH_impl cfg (\<lambda>_. m) c))"

definition unopMS_impl :: "'a::len itself \<Rightarrow> quirks \<Rightarrow> handler" where
  "unopMS_impl _ cfg p c =
     (let (modrm, p) = fetch8 cfg p c;
          r = modrm_R modrm
      in if modrm_is_mem modrm
         then (let (data_addr, p) = parse_memM cfg modrm p c;
                   m = addr_read cfg data_addr 0 (mem c) :: 'a word
               in if r = 0 \<or> r = 1
                  then (let (m, c) = (if r = 0 then INC m c else DEC m c)
                        in (False, p, c\<lparr>mem := addr_write cfg data_addr 0 m (mem c)\<rparr>))
                  else (let sval = (if r = 3 \<or> r = 5
                                    then addr_read cfg data_addr (int (mem_size TYPE('a word))) (mem c)
                                    else 0);
                            (j, c) = unopMS_transfer cfg r m sval p c
                        in (j, p, c)))
         else (let m = index_reg c (modrm_M modrm) :: 'a word
               in if r = 0 \<or> r = 1
                  then (let (m, c) = (if r = 0 then INC m c else DEC m c)
                        in (False, p, set_index_reg (modrm_M modrm) m c))
                  else (let (j, c) = unopMS_transfer cfg r m 0 p c in (j, p, c))))"

section \<open>Operations as lambdas\<close>

text \<open>
  The shapes of lambda the decoder uses: an operation that assigns its destination, one that
  only sets flags, and a plain assignment.
\<close>

definition mr_write ::
  "('a::len word \<Rightarrow> 'a word \<Rightarrow> z86Core \<Rightarrow> 'a word \<times> z86Core) \<Rightarrow> 'a binop" where
  "mr_write f dst src s =
     (let (v, c) = f (read_op dst s) (read_op src s) (ctx s)
      in (OP_WRITE, write_op dst v (s\<lparr>ctx := c\<rparr>)))"

definition mr_flags :: "('a::len word \<Rightarrow> 'a word \<Rightarrow> z86Core \<Rightarrow> z86Core) \<Rightarrow> 'a binop" where
  "mr_flags f dst src s =
     (OP_NO_WRITE, s\<lparr>ctx := f (read_op dst s) (read_op src s) (ctx s)\<rparr>)"

definition mr_xchg :: "'a::len binop" where
  "mr_xchg dst src s =
     (let (d, r) = XCHG (read_op dst s) (read_op src s)
      in (OP_WRITE, write_op src r (write_op dst d s)))"

definition rm_write ::
  "('a::len word \<Rightarrow> 'a word \<Rightarrow> z86Core \<Rightarrow> 'a word \<times> z86Core) \<Rightarrow> 'a binop_rm" where
  "rm_write f dst v s =
     (let (v, c) = f (read_op dst s) v (ctx s) in write_op dst v (s\<lparr>ctx := c\<rparr>))"

definition rm_flags :: "('a::len word \<Rightarrow> 'a word \<Rightarrow> z86Core \<Rightarrow> z86Core) \<Rightarrow> 'a binop_rm" where
  "rm_flags f dst v s = s\<lparr>ctx := f (read_op dst s) v (ctx s)\<rparr>"

definition MOV :: "'a::len word \<Rightarrow> 'a word \<Rightarrow> z86Core \<Rightarrow> 'a word \<times> z86Core" where
  "MOV dst src c = (src, c)"

section \<open>The addressing modes\<close>

text \<open>
  The table of the processor's manual: base and index registers, the default segment and the
  displacement of a memory operand.
\<close>

definition ea_base :: "nat \<Rightarrow> z86Core \<Rightarrow> u16" where
  "ea_base m c = [gpr c BX + gpr c SI, gpr c BX + gpr c DI, gpr c BP + gpr c SI, gpr c BP + gpr c DI,
     gpr c SI, gpr c DI, gpr c BP, gpr c BX] ! m"

definition ea_reference :: "quirks \<Rightarrow> nat \<Rightarrow> nat \<Rightarrow> z86Addr \<Rightarrow> z86Core \<Rightarrow> z86Addr" where
  "ea_reference cfg md m p c =
     (let disp8 = scast (addr_read cfg p 0 (mem c) :: u8); disp16 = addr_read cfg p 0 (mem c)
      in if md = 0 \<and> m = 6 then ctx_addr c DS disp16
         else ctx_addr c (if m \<in> {2, 3, 6} then SS else DS)
           (ea_base m c + (if md = 0 then 0 else if md = 1 then disp8 else disp16)))"

lemma modrm_bounds: "modrm_M modrm < 8" "modrm_R modrm < 8" "modrm_Mod modrm < 4"
proof -
  have "modrm AND 7 \<le> 7" "drop_bit 3 modrm AND 7 \<le> 7" by (rule word_and_le1)+
  then have "unat (modrm AND 7) \<le> 7" "unat (drop_bit 3 modrm AND 7) \<le> 7" by (simp_all add: word_le_nat_alt)
  moreover have "unat modrm < 256" using unsigned_less [where 'a = nat and w = modrm] by simp
  ultimately show "modrm_M modrm < 8" "modrm_R modrm < 8" "modrm_Mod modrm < 4"
    by (simp_all add: modrm_M_def modrm_R_def modrm_Mod_def unat_drop_bit_eq drop_bit_eq_div [where 'a = nat])
qed

lemma below_8: "(m :: nat) < 8 \<Longrightarrow> m \<in> {0, 1, 2, 3, 4, 5, 6, 7}"
  by auto

lemma parse_table:
  assumes "m < 8"
  shows "(if m < 4 then index_word_reg c (first_reg16 ! m) + index_word_reg c (SI OR m)
      else index_word_reg c (first_reg16 ! m)) = ea_base m c"
    "SS + of_bool (bit segment_mask16 m) = (if m \<in> {2, 3, 6} then SS else DS)"
  using below_8 [OF assms]
  by (auto simp: first_reg16_def index_word_reg_def ea_base_def segment_mask16_def add.commute)

lemma parse_table_0: "SS + of_bool (bit segment_mask16 0) = DS"
  by (simp add: segment_mask16_def)

text \<open>C34: A memory operand decodes to the address the manual's table gives, and decoding it
  consumes exactly the displacement bytes the length of the ModRM byte announces.\<close>

theorem parse_memM_reference:
  assumes "modrm_is_mem modrm"
  shows "parse_memM cfg modrm p c =
    (ea_reference cfg (modrm_Mod modrm) (modrm_M modrm) p c, addr_add p (int (modrm_extra_length modrm)))"
proof -
  have md: "modrm_Mod modrm = 0 \<or> modrm_Mod modrm = 1 \<or> modrm_Mod modrm = 2"
    using assms modrm_bounds(3) [of modrm] by (auto simp: modrm_is_mem_def)
  note table = parse_table [OF modrm_bounds(1) [of modrm]]
  show ?thesis
    unfolding parse_memM_def modrm_extra_length_def ea_reference_def addr_read_advance_def Let_def table
    using md by (elim disjE) (simp_all only: table parse_table_0 prod.case fst_conv snd_conv
        if_True if_False simp_thms zero_neq_one one_neq_zero zero_neq_numeral numeral_eq_one_iff
        num.distinct semiring_norm split: if_split, simp_all)
qed

theorem parse_memM_reference_witness:
  "parse_memM z8086 0x42 \<lparr>segment = 0x1000, offset = 1\<rparr> sample_core =
     (\<lparr>segment = 0x2000, offset = 0\<rparr>, \<lparr>segment = 0x1000, offset = 2\<rparr>)"
proof -
  have m: "modrm_is_mem 0x42" "modrm_Mod 0x42 = 1" "modrm_M 0x42 = 2" "modrm_extra_length 0x42 = 1"
    by (simp_all add: modrm_is_mem_def modrm_Mod_def modrm_M_def modrm_extra_length_def)
  show ?thesis
    unfolding parse_memM_reference [OF m(1)] m(2-4)
    by (simp add: ea_reference_def ea_base_def ctx_addr_def ctx_segment_def addr_add_def addr_read8 sample_defs)
qed

section \<open>Operands as storage cells\<close>

text \<open>
  An operand reference obeys the laws of \<open>cell\<close>, whether it is the local copy of a memory
  operand or a register of the operand's width.
\<close>

lemma index_reg_laws8:
  "index_reg (set_index_reg i (v :: u8) c) i = v" "set_index_reg i v (set_index_reg i (w :: u8) c) = set_index_reg i v c"
  "set_index_reg i (index_reg c i :: u8) c = c"
  by (simp_all add: index_reg_def set_index_reg_def byte_reg_get_put byte_reg_put_put byte_reg_put_get)

lemma index_reg_laws16:
  "index_reg (set_index_reg i (v :: u16) c) i = v" "set_index_reg i v (set_index_reg i (w :: u16) c) = set_index_reg i v c"
  "set_index_reg i (index_reg c i :: u16) c = c"
  by (simp_all add: index_reg_def set_index_reg_def index_word_reg_def set_word_reg_def)

interpretation operand8: cell "read_op r :: u8 frame \<Rightarrow> u8" "write_op r" for r
  by unfold_locales (cases r; simp add: read_op_def write_op_def index_reg_laws8)+

interpretation operand16: cell "read_op r :: u16 frame \<Rightarrow> u16" "write_op r" for r
  by unfold_locales (cases r; simp add: read_op_def write_op_def index_reg_laws16)+

end
