(* ===== verification/Z86_Decode.thy ===== *)
theory Z86_Decode
  imports Z86_ModRM
begin

text \<open>
  The one-byte opcodes, the \<^verbatim>\<open>switch\<close> of \<^verbatim>\<open>z86_execute_impl\<close> in
  \<^verbatim>\<open>8086_cpu.cpp\<close>, in the order of the file.  A case ends by one of the jumps of the C++, which
  are the constructors of \<open>outcome\<close>.  \<^verbatim>\<open>THROW_UD\<close> expands to nothing
  on a core with \<open>NO_UD\<close>, so that control falls into the case below it: the
  definitions say so by passing that case as the rest of \<open>THROW_UD\<close>.
\<close>

datatype outcome =
  Prefix z86Addr z86Core    \<comment> \<open>\<^verbatim>\<open>goto prefix_byte\<close>\<close>
| Break z86Addr z86Core     \<comment> \<open>\<^verbatim>\<open>break\<close> or \<^verbatim>\<open>goto trap\<close>: the instruction is over\<close>
| Next z86Core              \<comment> \<open>\<^verbatim>\<open>goto next_instr\<close>: \<open>rip\<close> is set already\<close>
| Fault z86Addr z86Core     \<comment> \<open>\<^verbatim>\<open>goto fault\<close>\<close>
| Continue z86Core          \<comment> \<open>\<^verbatim>\<open>continue\<close>: no interrupt is taken\<close>
| Halt z86Core              \<comment> \<open>inside \<^verbatim>\<open>HLT\<close>, before its busy wait\<close>
| TwoByte z86Addr z86Core   \<comment> \<open>\<^verbatim>\<open>map = 1; goto next_byte\<close>: not modelled further\<close>

definition fault_check :: "bool \<times> z86Addr \<times> z86Core \<Rightarrow> outcome" where
  "fault_check r = (case r of (f, p, c) \<Rightarrow> if f then Fault p c else Break p c)"

definition THROW_UD :: "quirks \<Rightarrow> z86Addr \<Rightarrow> z86Core \<Rightarrow> outcome \<Rightarrow> outcome" where
  "THROW_UD cfg p c below =
     (if \<not> NO_UD cfg then Fault p (snd (set_fault cfg IntUD c)) else below)"

definition fetch16 :: "quirks \<Rightarrow> z86Addr \<Rightarrow> z86Core \<Rightarrow> u16 \<times> z86Addr" where
  "fetch16 cfg p c = addr_read_advance cfg (mem c) 2 p"

definition exec8 :: "quirks \<Rightarrow> z86Addr \<Rightarrow> z86Core \<Rightarrow> u8" where
  "exec8 cfg p c = addr_read cfg p 0 (mem c)"

section \<open>The accumulator and immediate forms\<close>

definition binopAI ::
  "quirks \<Rightarrow> ('a::len word \<Rightarrow> 'a word \<Rightarrow> z86Core \<Rightarrow> 'a word \<times> z86Core) \<Rightarrow> z86Addr \<Rightarrow> z86Core \<Rightarrow> outcome" where
  "binopAI cfg f p c =
     (let (imm, p) = addr_read_advance cfg (mem c) (int (mem_size TYPE('a word))) p;
          (v, c) = f (reg_A c) imm c
      in Break p (set_A v c))"

definition binopAI_flags ::
  "quirks \<Rightarrow> ('a::len word \<Rightarrow> 'a word \<Rightarrow> z86Core \<Rightarrow> z86Core) \<Rightarrow> z86Addr \<Rightarrow> z86Core \<Rightarrow> outcome" where
  "binopAI_flags cfg f p c =
     (let (imm, p) = addr_read_advance cfg (mem c) (int (mem_size TYPE('a word))) p
      in Break p (f (reg_A c) imm c))"

definition binopAR :: "nat \<Rightarrow> z86Core \<Rightarrow> z86Core" where
  "binopAR i c =
     (let (a, r) = XCHG (gpr c AX) (gpr c i) in set_word_reg i r (set_word_reg AX a c))"

definition MOV_RI8 :: "quirks \<Rightarrow> nat \<Rightarrow> z86Addr \<Rightarrow> z86Core \<Rightarrow> outcome" where
  "MOV_RI8 cfg i p c = (let (imm, p) = fetch8 cfg p c in Break p (set_byte_reg i imm c))"

definition MOV_RI16 :: "quirks \<Rightarrow> nat \<Rightarrow> z86Addr \<Rightarrow> z86Core \<Rightarrow> outcome" where
  "MOV_RI16 cfg i p c = (let (imm, p) = fetch16 cfg p c in Break p (set_word_reg i imm c))"

text \<open>\<^verbatim>\<open>binopAO\<close> with the lambdas of A0 to A3.\<close>

definition MOV_AO :: "'a::len itself \<Rightarrow> quirks \<Rightarrow> z86Addr \<Rightarrow> z86Core \<Rightarrow> outcome" where
  "MOV_AO _ cfg p c =
     (let (off, p) = fetch16 cfg p c;
          a = ctx_addr c DS off
      in Break p (set_A (addr_read cfg a 0 (mem c) :: 'a word) c))"

definition MOV_OA :: "'a::len itself \<Rightarrow> quirks \<Rightarrow> z86Addr \<Rightarrow> z86Core \<Rightarrow> outcome" where
  "MOV_OA _ cfg p c =
     (let (off, p) = fetch16 cfg p c;
          a = ctx_addr c DS off
      in Break p (c\<lparr>mem := addr_write cfg a 0 (reg_A c :: 'a word) (mem c)\<rparr>))"

section \<open>Opcodes 00 to 3F\<close>

text \<open>
  The six forms every arithmetic operation has: \<^verbatim>\<open>Mb,Rb\<close>, \<^verbatim>\<open>Mv,Rv\<close>,
  \<^verbatim>\<open>Rb,Mb\<close>, \<^verbatim>\<open>Rv,Mv\<close>, \<^verbatim>\<open>Ab,Ib\<close>, \<^verbatim>\<open>Av,Is\<close>.  The operation is passed
  at both widths.
\<close>

definition alu_forms ::
  "quirks \<Rightarrow> u8 \<Rightarrow> (u8 \<Rightarrow> u8 \<Rightarrow> z86Core \<Rightarrow> u8 \<times> z86Core) \<Rightarrow>
     (u16 \<Rightarrow> u16 \<Rightarrow> z86Core \<Rightarrow> u16 \<times> z86Core) \<Rightarrow> z86Addr \<Rightarrow> z86Core \<Rightarrow> outcome" where
  "alu_forms cfg form f8 f16 p c =
     (if form = 0 then fault_check (binopMR_impl cfg False (mr_write f8) p c)
      else if form = 1 then fault_check (binopMR_impl cfg False (mr_write f16) p c)
      else if form = 2 then fault_check (binopRM_impl cfg (rm_write f8) p c)
      else if form = 3 then fault_check (binopRM_impl cfg (rm_write f16) p c)
      else if form = 4 then binopAI cfg f8 p c
      else binopAI cfg f16 p c)"

definition exec_ADD :: "quirks \<Rightarrow> u8 \<Rightarrow> z86Addr \<Rightarrow> z86Core \<Rightarrow> outcome" where
  "exec_ADD cfg op = alu_forms cfg (op AND 7) ADD ADD"

definition exec_OR :: "quirks \<Rightarrow> u8 \<Rightarrow> z86Addr \<Rightarrow> z86Core \<Rightarrow> outcome" where
  "exec_OR cfg op = alu_forms cfg (op AND 7) OR_op OR_op"

definition exec_ADC :: "quirks \<Rightarrow> u8 \<Rightarrow> z86Addr \<Rightarrow> z86Core \<Rightarrow> outcome" where
  "exec_ADC cfg op = alu_forms cfg (op AND 7) ADC ADC"

definition exec_SBB :: "quirks \<Rightarrow> u8 \<Rightarrow> z86Addr \<Rightarrow> z86Core \<Rightarrow> outcome" where
  "exec_SBB cfg op = alu_forms cfg (op AND 7) SBB SBB"

definition exec_AND :: "quirks \<Rightarrow> u8 \<Rightarrow> z86Addr \<Rightarrow> z86Core \<Rightarrow> outcome" where
  "exec_AND cfg op = alu_forms cfg (op AND 7) AND_op AND_op"

definition exec_SUB :: "quirks \<Rightarrow> u8 \<Rightarrow> z86Addr \<Rightarrow> z86Core \<Rightarrow> outcome" where
  "exec_SUB cfg op = alu_forms cfg (op AND 7) SUB SUB"

definition exec_XOR :: "quirks \<Rightarrow> u8 \<Rightarrow> z86Addr \<Rightarrow> z86Core \<Rightarrow> outcome" where
  "exec_XOR cfg op = alu_forms cfg (op AND 7) XOR_op XOR_op"

definition exec_CMP :: "quirks \<Rightarrow> u8 \<Rightarrow> z86Addr \<Rightarrow> z86Core \<Rightarrow> outcome" where
  "exec_CMP cfg op p c =
     (if op = 0x38 then fault_check (binopMR_impl cfg False (mr_flags CMP :: 8 binop) p c)
      else if op = 0x39 then fault_check (binopMR_impl cfg False (mr_flags CMP :: 16 binop) p c)
      else if op = 0x3A then fault_check (binopRM_impl cfg (rm_flags CMP :: 8 binop_rm) p c)
      else if op = 0x3B then fault_check (binopRM_impl cfg (rm_flags CMP :: 16 binop_rm) p c)
      else if op = 0x3C then binopAI_flags cfg (CMP :: u8 \<Rightarrow> u8 \<Rightarrow> z86Core \<Rightarrow> z86Core) p c
      else binopAI_flags cfg (CMP :: u16 \<Rightarrow> u16 \<Rightarrow> z86Core \<Rightarrow> z86Core) p c)"

text \<open>PUSH and POP of a segment register, 0F and the segment prefixes.\<close>

definition op_index :: "u8 \<Rightarrow> nat" where
  "op_index op = unat (op AND 7)"

definition op_seg :: "u8 \<Rightarrow> nat" where
  "op_seg op = unat (drop_bit 3 op)"

definition exec_seg_stack :: "quirks \<Rightarrow> u8 \<Rightarrow> z86Addr \<Rightarrow> z86Core \<Rightarrow> outcome" where
  "exec_seg_stack cfg op p c =
     (if op = 0x06 \<or> op = 0x0E \<or> op = 0x16 \<or> op = 0x1E
      then Break p (PUSHS cfg (op_seg op) c)
      else (let pop = Break p (POPS cfg (op_seg op) c)
            in if op = 0x0F
               then (if OPCODES_80286 cfg then TwoByte p c else THROW_UD cfg p c pop)
               else pop))"

definition exec_00_3F :: "quirks \<Rightarrow> u8 \<Rightarrow> z86Addr \<Rightarrow> z86Core \<Rightarrow> outcome" where
  "exec_00_3F cfg op p c =
     (if op AND 7 \<le> 5
      then (let row = drop_bit 3 op in
            if row = 0 then exec_ADD cfg op p c
            else if row = 1 then exec_OR cfg op p c
            else if row = 2 then exec_ADC cfg op p c
            else if row = 3 then exec_SBB cfg op p c
            else if row = 4 then exec_AND cfg op p c
            else if row = 5 then exec_SUB cfg op p c
            else if row = 6 then exec_XOR cfg op p c
            else exec_CMP cfg op p c)
      else if op < 0x20 then exec_seg_stack cfg op p c
      else if op AND 7 = 6 then Prefix p (set_seg_override (unat (drop_bit 3 op AND 3)) c)
      else if op = 0x27 then Break p (DAA c)
      else if op = 0x2F then Break p (DAS c)
      else if op = 0x37 then Break p (AAA cfg c)
      else Break p (AAS c))"

section \<open>Opcodes 40 to 7F\<close>

definition exec_40_5F :: "quirks \<Rightarrow> u8 \<Rightarrow> z86Addr \<Rightarrow> z86Core \<Rightarrow> outcome" where
  "exec_40_5F cfg op p c =
     (let i = op_index op in
      if op < 0x48 then (let (v, c) = INC (index_word_reg c i) c in Break p (set_word_reg i v c))
      else if op < 0x50 then (let (v, c) = DEC (index_word_reg c i) c in Break p (set_word_reg i v c))
      else if op < 0x58
      then (if OLD_PUSH_SP cfg then Break p (push_reg cfg i c)
            else (let temp = gpr c i in Break p (PUSH cfg temp c)))
      else Break p (pop_reg cfg i c))"

definition cc_of :: "u8 \<Rightarrow> CONDITION_CODE" where
  "cc_of op =
     [CondNO, CondNC, CondNZ, CondA, CondNS, CondNP, CondGE, CondG] ! unat (drop_bit 1 (op AND 0xF))"

text \<open>70 to 7F; an opcode that falls in from 60 to 6F keeps its own low bit.\<close>

definition exec_JCC :: "quirks \<Rightarrow> u8 \<Rightarrow> z86Addr \<Rightarrow> z86Core \<Rightarrow> outcome" where
  "exec_JCC cfg op p c = Next (JCC_byte cfg (cc_of op) p (bit op 0) c)"

definition modrm_nop :: "quirks \<Rightarrow> z86Addr \<Rightarrow> z86Core \<Rightarrow> outcome" where
  "modrm_nop cfg p c = Break (addr_add p (int (modrm_length (exec8 cfg p c)))) c"

definition exec_IMUL3_16 :: "quirks \<Rightarrow> z86Addr \<Rightarrow> z86Core \<Rightarrow> outcome" where
  "exec_IMUL3_16 cfg p c =
     fault_check (binopRM_impl cfg (\<lambda>dst (src :: u16) s.
       let (imm, p') = fetch16 cfg (pc s) (ctx s);
           (v, c') = IMUL3 TYPE(32) cfg src imm (ctx s)
       in write_op dst v (s\<lparr>pc := p', ctx := c'\<rparr>)) p c)"

definition exec_IMUL3_8 :: "quirks \<Rightarrow> z86Addr \<Rightarrow> z86Core \<Rightarrow> outcome" where
  "exec_IMUL3_8 cfg p c =
     (case binopRM_impl cfg (\<lambda>dst (src :: u16) s.
       let (v, c') = IMUL3 TYPE(32) cfg src (exec8 cfg (pc s) (ctx s)) (ctx s)
       in write_op dst v (s\<lparr>ctx := c'\<rparr>)) p c
      of (f, p, c) \<Rightarrow> if f then Fault p c else Break (addr_add p 1) c)"

definition exec_60_6F :: "quirks \<Rightarrow> u8 \<Rightarrow> z86Addr \<Rightarrow> z86Core \<Rightarrow> outcome" where
  "exec_60_6F cfg op p c =
     (let ud = THROW_UD cfg p c (exec_JCC cfg op p c);
          has186 = (\<lambda>r. if OPCODES_80186 cfg then r else ud)
      in if op = 0x60 then has186 (Break p (PUSHA cfg c))
         else if op = 0x61 then has186 (Break p (POPA cfg c))
         else if op = 0x62 then has186 (fault_check (binopRM2_impl cfg (BOUND cfg) p c))
         else if op = 0x63 then ud
         else if op = 0x64 \<or> op = 0x65
         then (if OPCODES_V20 cfg then Prefix p (set_repc_type cfg op c) else ud)
         else if op = 0x66 \<or> op = 0x67
         then (if OPCODES_V20 cfg then modrm_nop cfg p c else ud)
         else if op = 0x68 then has186 (case PUSHI cfg p c of (p, c) \<Rightarrow> Break p c)
         else if op = 0x69 then has186 (exec_IMUL3_16 cfg p c)
         else if op = 0x6A
         then has186 (Break (addr_add p 1) (PUSH cfg (scast (exec8 cfg p c)) c))
         else if op = 0x6B then has186 (exec_IMUL3_8 cfg p c)
         else if op = 0x6C then has186 (Break p (INS TYPE(8) cfg c))
         else if op = 0x6D then has186 (Break p (INS TYPE(16) cfg c))
         else if op = 0x6E then has186 (Break p (OUTS TYPE(8) cfg c))
         else has186 (Break p (OUTS TYPE(16) cfg c)))"

section \<open>Opcodes 80 to 9F\<close>

text \<open>Group 1: the operation the middle bits of ModRM select, at one width.\<close>

definition grp1 :: "'a::len word \<Rightarrow> 'a unop" where
  "grp1 val dst r s =
     (let d = read_op dst s;
          wr = (\<lambda>(v, c). (OP_WRITE, write_op dst v (s\<lparr>ctx := c\<rparr>)))
      in if r = 0 then wr (ADD d val (ctx s))
         else if r = 1 then wr (OR_op d val (ctx s))
         else if r = 2 then wr (ADC d val (ctx s))
         else if r = 3 then wr (SBB d val (ctx s))
         else if r = 4 then wr (AND_op d val (ctx s))
         else if r = 5 then wr (SUB d val (ctx s))
         else if r = 6 then wr (XOR_op d val (ctx s))
         else (OP_NO_WRITE, s\<lparr>ctx := CMP d val (ctx s)\<rparr>))"

definition fault_check_imm :: "int \<Rightarrow> bool \<times> z86Addr \<times> z86Core \<Rightarrow> outcome" where
  "fault_check_imm n r = (case r of (f, p, c) \<Rightarrow> if f then Fault p c else Break (addr_add p n) c)"

definition exec_80 :: "quirks \<Rightarrow> z86Addr \<Rightarrow> z86Core \<Rightarrow> outcome" where
  "exec_80 cfg p c =
     fault_check_imm 1 (unopM_impl cfg False
       (\<lambda>dst r s. grp1 (exec8 cfg (pc s) (ctx s)) dst r s) p c)"

definition exec_81 :: "quirks \<Rightarrow> z86Addr \<Rightarrow> z86Core \<Rightarrow> outcome" where
  "exec_81 cfg p c =
     fault_check (unopM_impl cfg False
       (\<lambda>dst r s. let (val, p) = fetch16 cfg (pc s) (ctx s) in grp1 val dst r (s\<lparr>pc := p\<rparr>)) p c)"

definition exec_83 :: "quirks \<Rightarrow> z86Addr \<Rightarrow> z86Core \<Rightarrow> outcome" where
  "exec_83 cfg p c =
     fault_check_imm 1 (unopM_impl cfg False
       (\<lambda>dst r s. grp1 (scast (exec8 cfg (pc s) (ctx s)) :: u16) dst r s) p c)"

text \<open>8F: POP to memory or to a register; the extra encodings fall into it on the 8086.\<close>

definition pop_op :: "quirks \<Rightarrow> 16 unop" where
  "pop_op cfg dst r s =
     (if r \<noteq> 0 \<and> \<not> NO_UD cfg
      then (OP_FAULT, s\<lparr>ctx := snd (set_fault cfg IntUD (ctx s))\<rparr>)
      else (let s = write_op dst (addr_read cfg (ctx_stack (ctx s)) 0 (mem (ctx s))) s;
                c = ctx s
            in (OP_WRITE, s\<lparr>ctx := c\<lparr>gpr := (gpr c)(SP := gpr c SP + 2)\<rparr>\<rparr>)))"

definition lds_op :: "quirks \<Rightarrow> nat \<Rightarrow> nat \<Rightarrow> u32 \<Rightarrow> z86Core \<Rightarrow> u8 \<times> z86Core" where
  "lds_op cfg sr r src c =
     (1, write_seg cfg sr (ucast (drop_bit 16 src)) (set_word_reg r (ucast src) c))"

definition exec_80_8F :: "quirks \<Rightarrow> u8 \<Rightarrow> z86Addr \<Rightarrow> z86Core \<Rightarrow> outcome" where
  "exec_80_8F cfg op p c =
     (if op = 0x80 \<or> op = 0x82 then exec_80 cfg p c
      else if op = 0x81 then exec_81 cfg p c
      else if op = 0x83 then exec_83 cfg p c
      else if op = 0x84 then fault_check (binopMR_impl cfg False (mr_flags TEST :: 8 binop) p c)
      else if op = 0x85 then fault_check (binopMR_impl cfg False (mr_flags TEST :: 16 binop) p c)
      else if op = 0x86 then fault_check (binopMR_impl cfg False (mr_xchg :: 8 binop) p c)
      else if op = 0x87 then fault_check (binopMR_impl cfg False (mr_xchg :: 16 binop) p c)
      else if op = 0x88 then fault_check (binopMR_impl cfg True (mr_write MOV :: 8 binop) p c)
      else if op = 0x89 then fault_check (binopMR_impl cfg True (mr_write MOV :: 16 binop) p c)
      else if op = 0x8A then fault_check (binopRM_impl cfg (rm_write MOV :: 8 binop_rm) p c)
      else if op = 0x8B then fault_check (binopRM_impl cfg (rm_write MOV :: 16 binop_rm) p c)
      else if op = 0x8C then fault_check (binopMS_impl cfg p c)
      else if op = 0x8D then fault_check (LEA_impl cfg p c)
      else if op = 0x8E then fault_check (binopSM_impl cfg p c)
      else fault_check (unopM_impl cfg False (pop_op cfg) p c))"

definition exec_90_9F :: "quirks \<Rightarrow> u8 \<Rightarrow> z86Addr \<Rightarrow> z86Core \<Rightarrow> outcome" where
  "exec_90_9F cfg op p c =
     (if op = 0x90 then Break p c
      else if op < 0x98 then Break p (binopAR (op_index op) c)
      else if op = 0x98 then Break p (CBW c)
      else if op = 0x99 then Break p (CWD c)
      else if op = 0x9A then Next (CALLFABS_pc cfg p c)
      else if op = 0x9B then Break p c
      else if op = 0x9C then Break p (PUSHF cfg c)
      else if op = 0x9D then Break p (POPF cfg c)
      else if op = 0x9E then Break p (set_flags (ah c) c)
      else Break p (set_ah (get_flags c) c))"

section \<open>Opcodes A0 to CF\<close>

definition exec_A0_AF :: "quirks \<Rightarrow> u8 \<Rightarrow> z86Addr \<Rightarrow> z86Core \<Rightarrow> outcome" where
  "exec_A0_AF cfg op p c =
     (if op = 0xA0 then MOV_AO TYPE(8) cfg p c
      else if op = 0xA1 then MOV_AO TYPE(16) cfg p c
      else if op = 0xA2 then MOV_OA TYPE(8) cfg p c
      else if op = 0xA3 then MOV_OA TYPE(16) cfg p c
      else if op = 0xA4 then Break p (MOVS TYPE(8) cfg c)
      else if op = 0xA5 then Break p (MOVS TYPE(16) cfg c)
      else if op = 0xA6 then Break p (CMPS TYPE(8) cfg c)
      else if op = 0xA7 then Break p (CMPS TYPE(16) cfg c)
      else if op = 0xA8 then binopAI_flags cfg (TEST :: u8 \<Rightarrow> u8 \<Rightarrow> z86Core \<Rightarrow> z86Core) p c
      else if op = 0xA9 then binopAI_flags cfg (TEST :: u16 \<Rightarrow> u16 \<Rightarrow> z86Core \<Rightarrow> z86Core) p c
      else if op = 0xAA then Break p (STOS TYPE(8) cfg c)
      else if op = 0xAB then Break p (STOS TYPE(16) cfg c)
      else if op = 0xAC then Break p (LODS TYPE(8) cfg c)
      else if op = 0xAD then Break p (LODS TYPE(16) cfg c)
      else if op = 0xAE then Break p (SCAS TYPE(8) cfg c)
      else Break p (SCAS TYPE(16) cfg c))"

definition exec_B0_BF :: "quirks \<Rightarrow> u8 \<Rightarrow> z86Addr \<Rightarrow> z86Core \<Rightarrow> outcome" where
  "exec_B0_BF cfg op p c =
     (if op < 0xB8 then MOV_RI8 cfg (op_index op) p c else MOV_RI16 cfg (op_index op) p c)"

text \<open>Group 2: rotates and shifts by a count.\<close>

definition grp2 :: "quirks \<Rightarrow> u8 \<Rightarrow> 'a::len unop" where
  "grp2 cfg count dst r s =
     (let d = read_op dst s;
          wr = (\<lambda>(v, c). (OP_WRITE, write_op dst v (s\<lparr>ctx := c\<rparr>)))
      in if r = 0 then wr (ROL cfg d count (ctx s))
         else if r = 1 then wr (ROR cfg d count (ctx s))
         else if r = 2 then wr (RCL cfg d count (ctx s))
         else if r = 3 then wr (RCR cfg d count (ctx s))
         else if r = 4 then wr (SHL cfg d count (ctx s))
         else if r = 5 then wr (SHR cfg d count (ctx s))
         else if r = 6 then wr (SETMO cfg d count (ctx s))
         else wr (SAR cfg d count (ctx s)))"

definition exec_grp2_imm :: "'a::len itself \<Rightarrow> quirks \<Rightarrow> z86Addr \<Rightarrow> z86Core \<Rightarrow> outcome" where
  "exec_grp2_imm _ cfg p c =
     fault_check_imm 1 (unopM_impl cfg False
       (\<lambda>dst r (s :: 'a word frame). grp2 cfg (exec8 cfg (pc s) (ctx s)) dst r s) p c)"

definition exec_grp2_1 :: "'a::len itself \<Rightarrow> quirks \<Rightarrow> z86Addr \<Rightarrow> z86Core \<Rightarrow> outcome" where
  "exec_grp2_1 _ cfg p c = fault_check (unopM_impl cfg False (grp2 cfg 1 :: 'a unop) p c)"

definition exec_grp2_CL :: "'a::len itself \<Rightarrow> quirks \<Rightarrow> z86Addr \<Rightarrow> z86Core \<Rightarrow> outcome" where
  "exec_grp2_CL _ cfg p c =
     fault_check (unopM_impl cfg False
       (\<lambda>dst r (s :: 'a word frame). grp2 cfg (reg_C (ctx s)) dst r s) p c)"

text \<open>Group 11: MOV of an immediate.\<close>

definition exec_C6 :: "quirks \<Rightarrow> z86Addr \<Rightarrow> z86Core \<Rightarrow> outcome" where
  "exec_C6 cfg p c =
     fault_check_imm 1 (unopM_impl cfg True
       (\<lambda>dst r s. if r \<noteq> 0 \<and> \<not> NO_UD cfg
          then (OP_FAULT, s\<lparr>ctx := snd (set_fault cfg IntUD (ctx s))\<rparr>)
          else (OP_WRITE, write_op dst (exec8 cfg (pc s) (ctx s)) s)) p c)"

definition exec_C7 :: "quirks \<Rightarrow> z86Addr \<Rightarrow> z86Core \<Rightarrow> outcome" where
  "exec_C7 cfg p c =
     fault_check (unopM_impl cfg True
       (\<lambda>dst r s. if r \<noteq> 0 \<and> \<not> NO_UD cfg
          then (OP_FAULT, s\<lparr>ctx := snd (set_fault cfg IntUD (ctx s))\<rparr>)
          else (let (imm, p) = fetch16 cfg (pc s) (ctx s)
                in (OP_WRITE, write_op dst imm (s\<lparr>pc := p\<rparr>)))) p c)"

definition exec_C0_CF :: "quirks \<Rightarrow> u8 \<Rightarrow> z86Addr \<Rightarrow> z86Core \<Rightarrow> outcome" where
  "exec_C0_CF cfg op p c =
     (let has186 = (\<lambda>r below. if OPCODES_80186 cfg then r else THROW_UD cfg p c below)
      in if op = 0xC0 then has186 (exec_grp2_imm TYPE(8) cfg p c) (Next (RETI cfg p c))
         else if op = 0xC1 then has186 (exec_grp2_imm TYPE(16) cfg p c) (Next (RET cfg c))
         else if op = 0xC2 then Next (RETI cfg p c)
         else if op = 0xC3 then Next (RET cfg c)
         else if op = 0xC4 then fault_check (binopRMF_impl cfg (lds_op cfg ES) p c)
         else if op = 0xC5 then fault_check (binopRMF_impl cfg (lds_op cfg DS) p c)
         else if op = 0xC6 then exec_C6 cfg p c
         else if op = 0xC7 then exec_C7 cfg p c
         else if op = 0xC8
         then has186 (Break (addr_add p 3)
                (ENTER cfg (addr_read cfg p 0 (mem c)) (addr_read cfg p 2 (mem c)) c))
                (Next (RETFI cfg p c))
         else if op = 0xC9 then has186 (Break p (LEAVE cfg c)) (Next (RETF cfg c))
         else if op = 0xCA then Next (RETFI cfg p c)
         else if op = 0xCB then Next (RETF cfg c)
         else if op = 0xCC then Break p (set_trap IntBP c)
         else if op = 0xCD then (let (n, p) = fetch8 cfg p c in Break p (set_trap n c))
         else if op = 0xCE then Break p (if overflow c then set_trap IntOF c else c)
         else Continue (IRET cfg c))"

section \<open>Opcodes D0 to FF\<close>

definition SALC :: "z86Core \<Rightarrow> z86Core" where
  "SALC c = set_al (if carry c then -1 else 0) c"

definition XLAT :: "quirks \<Rightarrow> z86Core \<Rightarrow> z86Core" where
  "XLAT cfg c =
     (let a = ctx_addr c DS (gpr c BX + ucast (al c)) in set_al (addr_read cfg a 0 (mem c)) c)"

definition exec_D0_DF :: "quirks \<Rightarrow> u8 \<Rightarrow> z86Addr \<Rightarrow> z86Core \<Rightarrow> outcome" where
  "exec_D0_DF cfg op p c =
     (if op = 0xD0 then exec_grp2_1 TYPE(8) cfg p c
      else if op = 0xD1 then exec_grp2_1 TYPE(16) cfg p c
      else if op = 0xD2 then exec_grp2_CL TYPE(8) cfg p c
      else if op = 0xD3 then exec_grp2_CL TYPE(16) cfg p c
      else if op = 0xD4
      then (let (imm, p) = fetch8 cfg p c; (f, c) = AAM cfg imm c in fault_check (f, p, c))
      else if op = 0xD5 then (let (imm, p) = fetch8 cfg p c in Break p (AAD imm c))
      else if op = 0xD6 \<and> \<not> OPCODES_V20 cfg then Break p (SALC c)
      else if op = 0xD6 \<or> op = 0xD7 then Break p (XLAT cfg c)
      else modrm_nop cfg p c)"

definition exec_E0_EF :: "quirks \<Rightarrow> u8 \<Rightarrow> z86Addr \<Rightarrow> z86Core \<Rightarrow> outcome" where
  "exec_E0_EF cfg op p c =
     (if op = 0xE0 \<or> op = 0xE1 then Next (LOOPCC cfg p (bit op 0) c)
      else if op = 0xE2 then Next (LOOP cfg p c)
      else if op = 0xE3 then Next (JCXZ cfg p c)
      else if op = 0xE4 then (let (n, p) = fetch8 cfg p c in Break p (port_in TYPE(8) (ucast n) c))
      else if op = 0xE5 then (let (n, p) = fetch8 cfg p c in Break p (port_in TYPE(16) (ucast n) c))
      else if op = 0xE6 then (let (n, p) = fetch8 cfg p c in Break p (port_out TYPE(8) (ucast n) c))
      else if op = 0xE7 then (let (n, p) = fetch8 cfg p c in Break p (port_out TYPE(16) (ucast n) c))
      else if op = 0xE8 then Next (CALL cfg p c)
      else if op = 0xE9 then Next (JMP cfg p c)
      else if op = 0xEA then Next (JMPFABS_pc cfg p c)
      else if op = 0xEB then Next (JMP_byte cfg p c)
      else if op = 0xEC then Break p (port_in TYPE(8) (gpr c DX) c)
      else if op = 0xED then Break p (port_in TYPE(16) (gpr c DX) c)
      else if op = 0xEE then Break p (port_out TYPE(8) (gpr c DX) c)
      else Break p (port_out TYPE(16) (gpr c DX) c))"

text \<open>
  Group 3.  \<open>fetch\<close> is the immediate of TEST with the program counter behind it;
  \<open>TYPE('b)\<close> is the double width.
\<close>

definition grp3 ::
  "'b::len itself \<Rightarrow> quirks \<Rightarrow> (z86Addr \<Rightarrow> z86Core \<Rightarrow> 'a::len word \<times> z86Addr) \<Rightarrow> 'a unop" where
  "grp3 D cfg fetch val r s =
     (let v = read_op val s; c = ctx s
      in if r = 0 \<or> r = 1
         then (let (imm, p) = fetch (pc s) c
               in (OP_NO_WRITE, s\<lparr>pc := p, ctx := TEST v imm c\<rparr>))
         else if r = 2 then (OP_WRITE, write_op val (NOT_op v) s)
         else if r = 3 then (let (w, c) = NEG v c in (OP_WRITE, write_op val w (s\<lparr>ctx := c\<rparr>)))
         else if r = 4 then (OP_NO_WRITE, s\<lparr>ctx := MUL D cfg v c\<rparr>)
         else if r = 5 then (OP_NO_WRITE, s\<lparr>ctx := IMUL D cfg v c\<rparr>)
         else (let (f, c) = (if r = 6 then DIV D cfg v c else IDIV D cfg v c)
               in (if f then OP_FAULT else OP_NO_WRITE, s\<lparr>ctx := c\<rparr>)))"

definition exec_F6 :: "quirks \<Rightarrow> z86Addr \<Rightarrow> z86Core \<Rightarrow> outcome" where
  "exec_F6 cfg p c = fault_check (unopM_impl cfg False (grp3 TYPE(16) cfg (fetch8 cfg)) p c)"

definition exec_F7 :: "quirks \<Rightarrow> z86Addr \<Rightarrow> z86Core \<Rightarrow> outcome" where
  "exec_F7 cfg p c = fault_check (unopM_impl cfg False (grp3 TYPE(32) cfg (fetch16 cfg)) p c)"

definition jump_check :: "bool \<times> z86Addr \<times> z86Core \<Rightarrow> outcome" where
  "jump_check r = (case r of (j, p, c) \<Rightarrow> if j then Next c else Break p c)"

definition exec_F0_FF :: "quirks \<Rightarrow> u8 \<Rightarrow> z86Addr \<Rightarrow> z86Core \<Rightarrow> outcome" where
  "exec_F0_FF cfg op p c =
     (let lock_prefix = Prefix p (set_lock c)
      in if op = 0xF0 then lock_prefix
         else if op = 0xF1
         then (if OPCODES_80286 cfg \<or> OPCODES_V20 cfg then lock_prefix
               else THROW_UD cfg p c lock_prefix)
         else if op = 0xF2 \<or> op = 0xF3 then Prefix p (set_rep_type op c)
         else if op = 0xF4 then Halt (HLT_enter cfg c)
         else if op = 0xF5 then Break p (c\<lparr>carry := \<not> carry c\<rparr>)
         else if op = 0xF6 then exec_F6 cfg p c
         else if op = 0xF7 then exec_F7 cfg p c
         else if op = 0xF8 \<or> op = 0xF9 then Break p (c\<lparr>carry := bit op 0\<rparr>)
         else if op = 0xFA \<or> op = 0xFB then Break p (c\<lparr>interrupt := bit op 0\<rparr>)
         else if op = 0xFC \<or> op = 0xFD then Break p (c\<lparr>direction := bit op 0\<rparr>)
         else if op = 0xFE then jump_check (unopMS_impl TYPE(8) cfg p c)
         else jump_check (unopMS_impl TYPE(16) cfg p c))"

section \<open>The switch\<close>

definition exec_opcode :: "quirks \<Rightarrow> u8 \<Rightarrow> z86Addr \<Rightarrow> z86Core \<Rightarrow> outcome" where
  "exec_opcode cfg op p c =
     (if op < 0x40 then exec_00_3F cfg op p c
      else if op < 0x60 then exec_40_5F cfg op p c
      else if op < 0x70 then exec_60_6F cfg op p c
      else if op < 0x80 then exec_JCC cfg op p c
      else if op < 0x90 then exec_80_8F cfg op p c
      else if op < 0xA0 then exec_90_9F cfg op p c
      else if op < 0xB0 then exec_A0_AF cfg op p c
      else if op < 0xC0 then exec_B0_BF cfg op p c
      else if op < 0xD0 then exec_C0_CF cfg op p c
      else if op < 0xE0 then exec_D0_DF cfg op p c
      else if op < 0xF0 then exec_E0_EF cfg op p c
      else exec_F0_FF cfg op p c)"

section \<open>Undocumented encodings\<close>

lemma cc_alias: "cc_of (op + 0x10) = cc_of op" "bit (op + 0x10) 0 = bit (op :: u8) 0"
proof -
  have "(op + 0x10) AND mask 4 = op AND mask 4"
    by (simp only: word_and_mask_low) (simp add: word_uint_eq_iff unsigned_take_bit_eq uint_word_ariths take_bit_eq_mod [where 'a = int] mod_mod_cancel)
  then show "cc_of (op + 0x10) = cc_of op" by (simp add: cc_of_def mask_eq_exp_minus_1)
  show "bit (op + 0x10) 0 = bit op 0" by (simp add: bit_0)
qed

text \<open>On the 8086, which raises no invalid-opcode fault, the opcodes 60 to 6F act as the jumps
  70 to 7F, C0, C1, C8 and C9 as the returns C2, C3, CA and CB, and 0F pops CS.\<close>

theorem aliases_8086:
  assumes "NO_UD cfg" "\<not> OPCODES_80186 cfg" "\<not> OPCODES_V20 cfg" "\<not> OPCODES_80286 cfg"
  shows "(0x60 \<le> op \<and> op < 0x70 \<longrightarrow> exec_opcode cfg op p c = exec_opcode cfg (op + 0x10) p c)
    \<and> exec_opcode cfg 0xC0 p c = exec_opcode cfg 0xC2 p c \<and> exec_opcode cfg 0xC1 p c = exec_opcode cfg 0xC3 p c
    \<and> exec_opcode cfg 0xC8 p c = exec_opcode cfg 0xCA p c \<and> exec_opcode cfg 0xC9 p c = exec_opcode cfg 0xCB p c
    \<and> exec_opcode cfg 0x0F p c = Break p (POPS cfg CS c)"
proof -
  have "exec_opcode cfg op p c = exec_opcode cfg (op + 0x10) p c" if "0x60 \<le> op" "op < 0x70"
  proof -
    have "uint (op + 0x10) = uint op + 16" using that by (simp add: word_less_def word_le_def uint_plus_carry)
    then have "\<not> op + 0x10 < 0x40" "\<not> op + 0x10 < 0x60" "\<not> op + 0x10 < 0x70" "op + 0x10 < 0x80"
      "\<not> op < 0x40" "\<not> op < 0x60"
      using that by (simp_all add: word_less_def word_le_def)
    then show ?thesis using that assms
      by (simp add: exec_opcode_def exec_60_6F_def exec_JCC_def THROW_UD_def Let_def cc_alias)
  qed
  moreover have "exec_opcode cfg 0x0F p c = Break p (POPS cfg CS c)"
    using assms by (simp add: exec_opcode_def exec_00_3F_def exec_seg_stack_def THROW_UD_def op_seg_def)
  ultimately show ?thesis
    using assms by (simp add: exec_opcode_def exec_C0_CF_def THROW_UD_def Let_def)
qed

theorem aliases_8086_witness:
  "exec_opcode z8086 0x64 (ctx_pc sample_core) sample_core = exec_opcode z8086 0x74 (ctx_pc sample_core) sample_core"
  using aliases_8086 [of z8086 "0x64" "ctx_pc sample_core" sample_core] by (simp add: z8086_def)

end
