(* ===== verification/Z86_Compare.thy ===== *)
theory Z86_Compare
  imports Z86_Decode
begin

text \<open>
  What a conditional jump sees after a comparison: the flags CMP leaves (\<open>Z86_ALU\<close>), read by
  the conditions (\<open>Z86_Control\<close>) the opcodes 70 to 7F select (\<open>Z86_Decode\<close>).
\<close>

definition jcc_taken :: "u8 \<Rightarrow> 'r z86Flags_scheme \<Rightarrow> bool" where
  "jcc_taken op f = cond (cc_of op) f (bit op 0)"

lemma exec_JCC_taken:
  "exec_JCC cfg op p c =
     Next (c\<lparr>rip := offset p + 1 + (if jcc_taken op c then exec_i8 cfg p c else 0)\<rparr>)"
  by (simp add: exec_JCC_def JCC_byte_def jcc_taken_def Let_def)

lemma cc_of_simps:
  "cc_of 0x72 = CondNC" "cc_of 0x73 = CondNC" "cc_of 0x74 = CondNZ" "cc_of 0x75 = CondNZ"
  "cc_of 0x76 = CondA" "cc_of 0x77 = CondA" "cc_of 0x7C = CondGE" "cc_of 0x7D = CondGE"
  "cc_of 0x7E = CondG" "cc_of 0x7F = CondG"
  by (simp_all add: cc_of_def)

lemmas taken_defs = jcc_taken_def cc_of_simps cond_defs CMP_SUB

text \<open>
  The signed conditions: the flag the code calls sign tells a positive difference, so
  together with the overflow it orders the operands the other way round.
\<close>

lemma CMP_less:
  "(sign (CMP x y f) \<noteq> overflow (CMP x y f)) \<longleftrightarrow> sint (y :: 'a::len word) < sint x"
proof -
  let ?d = "sint x - sint y"
  have "(if - half TYPE('a) \<le> ?d \<and> ?d < half TYPE('a) then sint (x - y) = ?d
      else if ?d < 0 then sint (x - y) = ?d + 2 * half TYPE('a) else sint (x - y) = ?d - 2 * half TYPE('a))"
    using sint_wrap [of ?d, where 'a = 'a] sint_half [of x] sint_half [of y] half_pos [where 'a = 'a]
    by (auto simp: sint_diff [of x y False, simplified])
  moreover have "overflow (CMP x y f) \<longleftrightarrow> sint (x - y) \<noteq> ?d"
    using would_overflow_wrap(2) [of x y] by (simp add: CMP_SUB)
  ultimately show ?thesis
    using sint_half [of x] sint_half [of y] by (auto simp: CMP_SUB split: if_splits)
qed

text \<open>After CMP the unsigned jumps (JB, JAE, JBE, JA) and the equality jumps (JE, JNE) are
  taken exactly when the operands compare that way.\<close>

theorem CMP_unsigned_jumps:
  fixes x y :: "'a::len word"
  shows "(jcc_taken 0x72 (CMP x y f) \<longleftrightarrow> x < y) \<and> (jcc_taken 0x73 (CMP x y f) \<longleftrightarrow> y \<le> x)
    \<and> (jcc_taken 0x76 (CMP x y f) \<longleftrightarrow> x \<le> y) \<and> (jcc_taken 0x77 (CMP x y f) \<longleftrightarrow> y < x)
    \<and> (jcc_taken 0x74 (CMP x y f) \<longleftrightarrow> x = y) \<and> (jcc_taken 0x75 (CMP x y f) \<longleftrightarrow> x \<noteq> y)"
  by (auto simp: taken_defs)

text \<open>After CMP the signed jumps do not compare as they are named: JL is taken when the
  first operand is at most the second, JGE when it is greater, JLE when it is at least the
  second and JG when it is less.\<close>

theorem CMP_signed_jumps:
  fixes x y :: "'a::len word"
  shows "(jcc_taken 0x7C (CMP x y f) \<longleftrightarrow> sint x \<le> sint y)
    \<and> (jcc_taken 0x7D (CMP x y f) \<longleftrightarrow> sint y < sint x)
    \<and> (jcc_taken 0x7E (CMP x y f) \<longleftrightarrow> sint y \<le> sint x)
    \<and> (jcc_taken 0x7F (CMP x y f) \<longleftrightarrow> sint x < sint y)"
proof -
  have "zero (CMP x y f) \<longleftrightarrow> sint x = sint y" by (simp add: CMP_SUB word_eq_iff_signed)
  then show ?thesis using CMP_less [of x y f] by (auto simp: jcc_taken_def cc_of_simps cond_defs)
qed

end
