(* ===== verification/Z86_Machine.thy ===== *)
theory Z86_Machine
  imports Z86_Decode
begin

text \<open>
  The fetch loop of \<^verbatim>\<open>z86_execute_impl\<close>: the reset of the prefixes, the prefix bytes, one
  instruction, and what follows it.  Other threads post interrupts at any time and HLT
  waits for them, so the whole machine is a step relation.
\<close>

section \<open>One instruction\<close>

definition begin_instr :: "z86Core \<Rightarrow> z86Core" where
  "begin_instr c = c\<lparr>seg_override := -1, rep_type := NO_REP, lock := False\<rparr>"

text \<open>
  The prefix loop has no bound in the code: a segment filled with prefix bytes keeps it
  running for ever, which is the value \<open>None\<close>.
\<close>

partial_function (option) decode :: "quirks \<Rightarrow> z86Addr \<Rightarrow> z86Core \<Rightarrow> outcome option" where
  "decode cfg p c =
     (case fetch8 cfg p c of (op, p') \<Rightarrow>
        (case exec_opcode cfg op p' c of
           Prefix p'' c'' \<Rightarrow> decode cfg p'' c''
         | Break p'' c'' \<Rightarrow> Some (Break p'' c'')
         | Next c'' \<Rightarrow> Some (Next c'')
         | Fault p'' c'' \<Rightarrow> Some (Fault p'' c'')
         | Continue c'' \<Rightarrow> Some (Continue c'')
         | Halt c'' \<Rightarrow> Some (Halt c'')
         | TwoByte p'' c'' \<Rightarrow> Some (TwoByte p'' c'')))"

text \<open>
  A running machine, one that waits inside HLT, and one that has reached an opcode of the
  two-byte map, where the model stops.
\<close>

datatype machine = Running z86Core | Halted z86Core | Escaped z86Addr z86Core

definition trap_label :: "quirks \<Rightarrow> z86Addr \<Rightarrow> z86Core \<Rightarrow> z86Core" where
  "trap_label cfg p c = execute_pending_interrupts cfg (c\<lparr>rip := offset p\<rparr>)"

fun finish :: "quirks \<Rightarrow> outcome \<Rightarrow> machine" where
  "finish cfg (Break p c) = Running (trap_label cfg p c)"
| "finish cfg (Next c) = Running (execute_pending_interrupts cfg c)"
| "finish cfg (Fault p c) =
     (if FAULTS_ARE_TRAPS cfg then Running (trap_label cfg p c)
      else Running (execute_pending_interrupts cfg c))"
| "finish cfg (Continue c) = Running c"
| "finish cfg (Halt c) = Halted c"
| "finish cfg (TwoByte p c) = Escaped p c"
| "finish cfg (Prefix p c) = Escaped p c"

definition step :: "quirks \<Rightarrow> z86Core \<Rightarrow> machine option" where
  "step cfg c =
     (let c = begin_instr c in map_option (finish cfg) (decode cfg (ctx_pc c) c))"

section \<open>The machine\<close>

inductive z86_step :: "quirks \<Rightarrow> machine \<Rightarrow> machine \<Rightarrow> bool" for cfg where
  instr: "step cfg c = Some m \<Longrightarrow> z86_step cfg (Running c) m"
| wait: "halted (HLT_turn cfg c) \<Longrightarrow> z86_step cfg (Halted c) (Halted (HLT_turn cfg c))"
| wake: "\<not> halted (HLT_turn cfg c) \<Longrightarrow>
     z86_step cfg (Halted c) (Running (HLT_leave cfg (HLT_turn cfg c)))"
| post_running: "f = nmi \<or> f = cancel_interrupt \<or> (\<exists>n. f = external_interrupt n) \<Longrightarrow>
     z86_step cfg (Running c) (Running (f c))"
| post_halted: "f = nmi \<or> f = cancel_interrupt \<or> (\<exists>n. f = external_interrupt n) \<Longrightarrow>
     z86_step cfg (Halted c) (Halted (f c))"

inductive_cases step_RunningE: "z86_step cfg (Running c) m"
inductive_cases step_HaltedE: "z86_step cfg (Halted c) m"
inductive_simps step_Escaped: "z86_step cfg (Escaped p c) m"

section \<open>Decoding\<close>

text \<open>The prefix bytes of a core.\<close>

definition is_prefix :: "quirks \<Rightarrow> u8 \<Rightarrow> bool" where
  "is_prefix cfg op \<longleftrightarrow>
     op = 0x26 \<or> op = 0x2E \<or> op = 0x36 \<or> op = 0x3E
     \<or> OPCODES_V20 cfg \<and> (op = 0x64 \<or> op = 0x65)
     \<or> op = 0xF0 \<or> op = 0xF1 \<and> (OPCODES_80286 cfg \<or> OPCODES_V20 cfg \<or> NO_UD cfg)
     \<or> op = 0xF2 \<or> op = 0xF3"

lemma not_Prefix [simp]:
  "fault_check r \<noteq> Prefix p c" "fault_check_imm n r \<noteq> Prefix p c" "jump_check r \<noteq> Prefix p c"
  by (auto simp: fault_check_def fault_check_imm_def jump_check_def split: prod.splits)

end
