(* ===== verification/Z86_Invariant.thy ===== *)
theory Z86_Invariant
  imports Z86_Machine
begin

text \<open>
  What every instruction, interrupt and prefix keeps of the state: the size of the memory and
  the absence of an A20 gate, which the properties of the stack rest on, and the ranges of the
  members that stand for an enumeration or for a number with \<open>-1\<close> as none.
\<close>

definition core_ok :: "z86Core \<Rightarrow> bool" where
  "core_ok c \<longleftrightarrow> a20 (mem c) = None \<and> bytes (mem c) = 0x100000
     \<and> pending_sinterrupt c \<in> {-1..255} \<and> pending_einterrupt c \<in> {-1..255}
     \<and> seg_override c \<in> {-1..3} \<and> rep_type c \<in> {NO_REP..REP_C}"

section \<open>Updates that do not matter\<close>

lemma core_ok_upd [simp]:
  "core_ok (c\<lparr>carry := b\<rparr>) = core_ok c" "core_ok (c\<lparr>parity := b\<rparr>) = core_ok c"
  "core_ok (c\<lparr>auxiliary := b\<rparr>) = core_ok c" "core_ok (c\<lparr>zero := b\<rparr>) = core_ok c"
  "core_ok (c\<lparr>sign := b\<rparr>) = core_ok c" "core_ok (c\<lparr>overflow := b\<rparr>) = core_ok c"
  "core_ok (c\<lparr>trap := b\<rparr>) = core_ok c" "core_ok (c\<lparr>interrupt := b\<rparr>) = core_ok c"
  "core_ok (c\<lparr>direction := b\<rparr>) = core_ok c" "core_ok (c\<lparr>gpr := g\<rparr>) = core_ok c"
  "core_ok (c\<lparr>rip := v\<rparr>) = core_ok c" "core_ok (c\<lparr>seg := g\<rparr>) = core_ok c"
  "core_ok (c\<lparr>pending_nmi := b\<rparr>) = core_ok c" "core_ok (c\<lparr>halted := b\<rparr>) = core_ok c"
  "core_ok (c\<lparr>lock := b\<rparr>) = core_ok c" "core_ok (c\<lparr>io_byte_devices := bd\<rparr>) = core_ok c"
  "core_ok (c\<lparr>io_word_devices := wd\<rparr>) = core_ok c"
  by (simp_all add: core_ok_def)

lemma core_ok_mem [simp]:
  "bytes m = bytes (mem c) \<Longrightarrow> a20 m = a20 (mem c) \<Longrightarrow> core_ok (c\<lparr>mem := m\<rparr>) = core_ok c"
  by (simp add: core_ok_def)

lemma uint_u8_range: "- 1 \<le> uint (n :: u8)" "uint (n :: u8) \<le> 255"
proof -
  have "uint n < 256" "0 \<le> uint n" using uint_lt_2p [of n] by simp_all
  then show "- 1 \<le> uint n" "uint n \<le> 255" by linarith+
qed

lemma core_ok_pending [simp]:
  "core_ok c \<Longrightarrow> core_ok (c\<lparr>pending_sinterrupt := uint (n :: u8)\<rparr>)"
  "core_ok c \<Longrightarrow> core_ok (c\<lparr>pending_einterrupt := uint (n :: u8)\<rparr>)"
  "core_ok c \<Longrightarrow> core_ok (c\<lparr>pending_sinterrupt := - 1\<rparr>)"
  "core_ok c \<Longrightarrow> core_ok (c\<lparr>pending_einterrupt := - 1\<rparr>)"
  using uint_u8_range [of n] by (simp_all add: core_ok_def)

lemma uint_and_1: "uint (t AND 1 :: u8) \<in> {0, 1}"
  by (cases "odd t") (simp_all add: and_one_eq odd_iff_mod_2_eq_one even_iff_mod_2_eq_zero)

lemma core_ok_prefix [simp]:
  "core_ok c \<Longrightarrow> s \<le> 3 \<Longrightarrow> core_ok (set_seg_override s c)"
  "core_ok (set_lock c) = core_ok c"
  "core_ok c \<Longrightarrow> core_ok (set_rep_type t c)"
  "core_ok c \<Longrightarrow> core_ok (set_repc_type cfg t c)"
  using uint_and_1 [of t]
  by (auto simp: core_ok_def set_seg_override_def set_lock_def set_rep_type_def set_repc_type_def rep_defs)

section \<open>Registers and flags\<close>

lemma core_ok_regs [simp]:
  "core_ok (set_word_reg i v c) = core_ok c" "core_ok (set_byte_reg i w c) = core_ok c"
  "core_ok (set_index_reg i x c) = core_ok c" "core_ok (set_A x c) = core_ok c"
  "core_ok (set_ADH x c) = core_ok c" "core_ok (write_AD x c) = core_ok c"
  "core_ok (write_seg cfg i v c) = core_ok c" "core_ok (set_al w c) = core_ok c"
  "core_ok (set_ah w c) = core_ok c" "core_ok (set_rip v c) = core_ok c"
  "core_ok (set_cs v c) = core_ok c" "core_ok (JMPABS v c) = core_ok c"
  "core_ok (JMPFABS v w' c) = core_ok c" "core_ok (set_flags x c) = core_ok c"
  by (simp_all add: set_word_reg_def set_byte_reg_def set_index_reg_def set_A_def set_ADH_def
      write_AD_def write_seg_def set_al_def set_ah_def set_rip_def set_cs_def JMPABS_def JMPFABS_def
      set_flags_def Let_def)

lemma core_ok_pzs [simp]: "core_ok (update_pzs v c) = core_ok c"
  by (simp add: update_pzs_def update_parity_def Let_def)

lemma core_ok_alu [simp]:
  "core_ok (snd (ADD x y c)) = core_ok c" "core_ok (snd (OR_op x y c)) = core_ok c"
  "core_ok (snd (ADC x y c)) = core_ok c" "core_ok (snd (SBB x y c)) = core_ok c"
  "core_ok (snd (AND_op x y c)) = core_ok c" "core_ok (snd (SUB x y c)) = core_ok c"
  "core_ok (snd (XOR_op x y c)) = core_ok c" "core_ok (CMP x y c) = core_ok c"
  "core_ok (TEST x y c) = core_ok c" "core_ok (snd (INC x c)) = core_ok c"
  "core_ok (snd (DEC x c)) = core_ok c" "core_ok (snd (NEG x c)) = core_ok c"
  "core_ok (CBW c) = core_ok c" "core_ok (CWD c) = core_ok c"
  by (simp_all add: ADD_def OR_op_def ADC_def SBB_def AND_op_def SUB_def XOR_op_def CMP_def TEST_def
      INC_def DEC_def NEG_def CBW_def CWD_def Let_def split_beta)

lemma core_ok_shift [simp]:
  "core_ok (snd (ROL cfg x n c)) = core_ok c" "core_ok (snd (ROR cfg x n c)) = core_ok c"
  "core_ok (snd (RCL cfg x n c)) = core_ok c" "core_ok (snd (RCR cfg x n c)) = core_ok c"
  "core_ok (snd (SHL cfg x n c)) = core_ok c" "core_ok (snd (SHR cfg x n c)) = core_ok c"
  "core_ok (snd (SETMO cfg x n c)) = core_ok c" "core_ok (snd (SAR cfg x n c)) = core_ok c"
proof -
  show shl: "core_ok (snd (SHL cfg x n c)) = core_ok c" by (simp add: SHL_def Let_def)
  then show "core_ok (snd (SETMO cfg x n c)) = core_ok c" by (simp add: SETMO_def Let_def)
qed (simp_all add: ROL_def ROR_def RCL_def RCR_def SHR_def SAR_def Let_def)

section \<open>Faults\<close>

lemma core_ok_fault [simp]:
  "core_ok c \<Longrightarrow> core_ok (software_interrupt n c)"
  "core_ok c \<Longrightarrow> core_ok (snd (set_fault cfg n c))"
  "core_ok c \<Longrightarrow> core_ok (set_trap n c)"
  by (simp_all add: software_interrupt_def set_fault_def set_trap_def)

lemma core_ok_muldiv [simp]:
  "core_ok (MUL D cfg x c) = core_ok c" "core_ok (IMUL D cfg x c) = core_ok c"
  "core_ok (snd (IMUL3 D cfg x imm c)) = core_ok c"
  "core_ok c \<Longrightarrow> core_ok (snd (DIV D cfg x c))" "core_ok c \<Longrightarrow> core_ok (snd (IDIV D cfg x c))"
  "core_ok c \<Longrightarrow> core_ok (snd (BOUND cfg x y z c))" "core_ok c \<Longrightarrow> core_ok (snd (AAM cfg n c))"
  "core_ok (AAD n c) = core_ok c" "core_ok (DAA c) = core_ok c" "core_ok (DAS c) = core_ok c"
  "core_ok (AAA cfg c) = core_ok c" "core_ok (AAS c) = core_ok c"
  by (simp_all add: MUL_def MUL_impl_def IMUL_def IMUL_impl_def IMUL3_def DIV_def IDIV_def BOUND_def
      AAM_def AAD_def DAA_def DAS_def AAA_def AAS_def Let_def split_beta)

section \<open>The stack and control transfer\<close>

lemma core_ok_stack [simp]:
  "core_ok (PUSH_impl cfg f c) = core_ok c" "core_ok (PUSH cfg v c) = core_ok c"
  "core_ok (snd (POP cfg c)) = core_ok c" "core_ok (push_reg cfg i c) = core_ok c"
  "core_ok (pop_reg cfg i c) = core_ok c" "core_ok (PUSHS cfg i c) = core_ok c"
  "core_ok (POPS cfg i c) = core_ok c" "core_ok (PUSHF cfg c) = core_ok c"
  "core_ok (POPF cfg c) = core_ok c" "core_ok (LEAVE cfg c) = core_ok c"
  "core_ok (RET cfg c) = core_ok c" "core_ok (RETF cfg c) = core_ok c"
  "core_ok (IRET cfg c) = core_ok c" "core_ok (RETI cfg p c) = core_ok c"
  "core_ok (RETFI cfg p c) = core_ok c" "core_ok (snd (PUSHI cfg p c)) = core_ok c"
  by (simp_all add: PUSH_impl_def PUSH_def POP_def POP_impl_def push_reg_def pop_reg_def PUSHS_def
      POPS_def PUSHF_def POPF_def LEAVE_def RET_def RETF_def IRET_def RETI_def RETFI_def PUSHI_def
      addr_read_advance_def Let_def)

lemma core_ok_ENTER_copy [simp]: "core_ok (ENTER_copy cfg n p c) = core_ok c"
  by (induction cfg n p c rule: ENTER_copy.induct) (simp_all add: Let_def)

lemma core_ok_transfer [simp]:
  "core_ok (PUSHA cfg c) = core_ok c" "core_ok (POPA cfg c) = core_ok c"
  "core_ok (ENTER cfg a n c) = core_ok c" "core_ok (CALLABS cfg x y c) = core_ok c"
  "core_ok (CALL cfg p c) = core_ok c" "core_ok (CALLFABS cfg x y v c) = core_ok c"
  "core_ok (CALLFABS_pc cfg p c) = core_ok c" "core_ok (JMPFABS_pc cfg p c) = core_ok c"
  "core_ok (JMP cfg p c) = core_ok c" "core_ok (JMP_byte cfg p c) = core_ok c"
  "core_ok (JCC_byte cfg cc p v' c) = core_ok c" "core_ok (LOOP cfg p c) = core_ok c"
  "core_ok (LOOPCC cfg p v' c) = core_ok c" "core_ok (JCXZ cfg p c) = core_ok c"
  by (simp_all add: PUSHA_def POPA_def ENTER_def ENTER_impl_def CALLABS_def CALL_def CALLFABS_def
      CALLFABS_pc_def JMPFABS_pc_def JMP_def JMP_byte_def JCC_byte_def LOOP_def LOOPCC_def JCXZ_def Let_def)

lemma core_ok_interrupts [simp]:
  "core_ok (handle_pending_interrupt cfg n c) = core_ok c"
  "core_ok c \<Longrightarrow> core_ok (check_for_software_interrupt cfg c)"
  "core_ok c \<Longrightarrow> core_ok (check_for_nmi cfg b c)"
  "core_ok c \<Longrightarrow> core_ok (check_for_external_interrupt cfg b c)"
  "core_ok (check_for_trap cfg c) = core_ok c"
  "core_ok c \<Longrightarrow> core_ok (execute_pending_interrupts cfg c)"
  "core_ok c \<Longrightarrow> core_ok (HLT_enter cfg c)" "core_ok c \<Longrightarrow> core_ok (HLT_turn cfg c)"
  "core_ok (HLT_leave cfg c) = core_ok c"
  "core_ok c \<Longrightarrow> core_ok (external_interrupt n c)" "core_ok (nmi c) = core_ok c"
  "core_ok c \<Longrightarrow> core_ok (cancel_interrupt c)"
  by (simp_all add: handle_pending_interrupt_def check_for_software_interrupt_def check_for_nmi_def
      check_for_external_interrupt_def check_for_trap_def execute_pending_interrupts_def HLT_enter_def
      HLT_turn_def HLT_leave_def external_interrupt_def nmi_def cancel_interrupt_def Let_def)

section \<open>Strings and ports\<close>

lemma core_ok_rep_loop:
  assumes "\<And>x c. core_ok c \<Longrightarrow> core_ok (snd (body x c))" "core_ok c"
  shows "core_ok (snd (rep_loop body again cx x c))"
  using assms
proof (induction body again cx x c rule: rep_loop.induct)
  case (1 body again cx x c)
  then show ?case by (subst rep_loop.simps) (simp add: Let_def)
qed

lemma core_ok_string_op:
  assumes "\<And>x c. core_ok c \<Longrightarrow> core_ok (snd (body x c))" "\<And>x c. core_ok c \<Longrightarrow> core_ok (fin x c)"
    "core_ok c"
  shows "core_ok (string_op body again fin x c)"
  using core_ok_rep_loop [of body c again "gpr c CX" x] assms
  by (simp add: string_op_def Let_def split_beta)

lemma core_ok_ports [simp]:
  "core_ok (port_out_impl n v c) = core_ok c" "core_ok (snd (port_in_impl n c :: 'a::len word \<times> z86Core)) = core_ok c"
  "core_ok (port_out T n c) = core_ok c" "core_ok (port_in T n c) = core_ok c"
  by (simp_all add: port_out_impl_def port_in_impl_def port_out_def port_in_def Let_def split_beta)

lemmas string_defs = addr_read_advance_def addr_write_advance_def LODS_body_def MOVS_body_def STOS_body_def
  SCAS_body_def CMPS_body_def OUTS_body_def INS_body_def

lemma core_ok_strings [simp]:
  "core_ok c \<Longrightarrow> core_ok (LODS T cfg c)" "core_ok c \<Longrightarrow> core_ok (MOVS T cfg c)"
  "core_ok c \<Longrightarrow> core_ok (STOS T cfg c)" "core_ok c \<Longrightarrow> core_ok (SCAS T cfg c)"
  "core_ok c \<Longrightarrow> core_ok (CMPS T cfg c)" "core_ok c \<Longrightarrow> core_ok (OUTS T cfg c)"
  "core_ok c \<Longrightarrow> core_ok (INS T cfg c)"
  unfolding LODS_def MOVS_def STOS_def SCAS_def CMPS_def OUTS_def INS_def
  by (rule core_ok_string_op; simp add: string_defs Let_def split_beta)+

section \<open>Operands\<close>

lemma core_ok_write_op [simp]: "core_ok (ctx (write_op r v s)) = core_ok (ctx s)"
  by (cases r) (simp_all add: write_op_def)

lemma core_ok_MR:
  assumes "\<And>d r s. core_ok (ctx s) \<Longrightarrow> core_ok (ctx (snd (lam d r s)))" "core_ok c"
  shows "core_ok (snd (snd (binopMR_impl cfg b lam p c)))"
  using assms by (simp add: binopMR_impl_def Let_def split_beta)

lemma core_ok_RM:
  assumes "\<And>d v s. core_ok (ctx s) \<Longrightarrow> core_ok (ctx (lam d v s))" "core_ok c"
  shows "core_ok (snd (snd (binopRM_impl cfg lam p c)))"
  using assms by (simp add: binopRM_impl_def Let_def split_beta)

lemma core_ok_M:
  assumes "\<And>d r s. core_ok (ctx s) \<Longrightarrow> core_ok (ctx (snd (lam d r s)))" "core_ok c"
  shows "core_ok (snd (snd (unopM_impl cfg b lam p c)))"
  using assms by (simp add: unopM_impl_def Let_def split_beta)

lemma core_ok_RMF:
  assumes "\<And>r v c. core_ok c \<Longrightarrow> core_ok (snd (lam r v c))" "core_ok c"
  shows "core_ok (snd (snd (binopRMF_impl cfg lam p c)))"
  using assms by (simp add: binopRMF_impl_def Let_def split_beta)

lemma core_ok_RM2:
  assumes "\<And>x y z c. core_ok c \<Longrightarrow> core_ok (snd (lam x y z c))" "core_ok c"
  shows "core_ok (snd (snd (binopRM2_impl cfg lam p c)))"
  using assms by (simp add: binopRM2_impl_def Let_def split_beta)

lemma core_ok_unopMS_transfer [simp]:
  "core_ok c \<Longrightarrow> core_ok (snd (unopMS_transfer cfg r m sval p c))"
  by (simp add: unopMS_transfer_def)

lemma core_ok_operands [simp]:
  "core_ok c \<Longrightarrow> core_ok (snd (snd (LEA_impl cfg p c)))"
  "core_ok c \<Longrightarrow> core_ok (snd (snd (binopMS_impl cfg p c)))"
  "core_ok c \<Longrightarrow> core_ok (snd (snd (binopSM_impl cfg p c)))"
  "core_ok c \<Longrightarrow> core_ok (snd (snd (unopMS_impl T cfg p c)))"
  by (simp_all add: LEA_impl_def binopMS_impl_def binopSM_impl_def unopMS_impl_def Let_def split_beta)

text \<open>The operations as the decoder hands them to the wrappers.\<close>

lemma core_ok_lambdas [simp]:
  "(\<And>x y c. core_ok c \<Longrightarrow> core_ok (snd (f x y c))) \<Longrightarrow> core_ok (ctx s) \<Longrightarrow>
     core_ok (ctx (snd (mr_write f d r s)))"
  "(\<And>x y c. core_ok c \<Longrightarrow> core_ok (g x y c)) \<Longrightarrow> core_ok (ctx s) \<Longrightarrow>
     core_ok (ctx (snd (mr_flags g d r s)))"
  "core_ok (ctx s) \<Longrightarrow> core_ok (ctx (snd (mr_xchg d r s)))"
  "(\<And>x y c. core_ok c \<Longrightarrow> core_ok (snd (f x y c))) \<Longrightarrow> core_ok (ctx s) \<Longrightarrow>
     core_ok (ctx (rm_write f d v s))"
  "(\<And>x y c. core_ok c \<Longrightarrow> core_ok (g x y c)) \<Longrightarrow> core_ok (ctx s) \<Longrightarrow>
     core_ok (ctx (rm_flags g d v s))"
  by (simp_all add: mr_write_def mr_flags_def mr_xchg_def rm_write_def rm_flags_def Let_def split_beta)

lemma core_ok_MOV [simp]: "core_ok (snd (MOV x y c)) = core_ok c"
  by (simp add: MOV_def)

lemma core_ok_grp1 [simp]: "core_ok (ctx s) \<Longrightarrow> core_ok (ctx (snd (grp1 v d r s)))"
  by (simp add: grp1_def Let_def split_beta)

lemma core_ok_grp2 [simp]: "core_ok (ctx s) \<Longrightarrow> core_ok (ctx (snd (grp2 cfg n d r s)))"
  by (simp add: grp2_def Let_def split_beta)

lemma core_ok_grp3 [simp]: "core_ok (ctx s) \<Longrightarrow> core_ok (ctx (snd (grp3 D cfg fetch d r s)))"
  by (simp add: grp3_def Let_def split_beta)

lemma core_ok_pop_op [simp]: "core_ok (ctx s) \<Longrightarrow> core_ok (ctx (snd (pop_op cfg d r s)))"
  by (simp add: pop_op_def Let_def split_beta)

section \<open>Opcodes\<close>

fun outcome_ok :: "outcome \<Rightarrow> bool" where
  "outcome_ok (Prefix p c) = core_ok c"
| "outcome_ok (Break p c) = core_ok c"
| "outcome_ok (Next c) = core_ok c"
| "outcome_ok (Fault p c) = core_ok c"
| "outcome_ok (Continue c) = core_ok c"
| "outcome_ok (Halt c) = core_ok c"
| "outcome_ok (TwoByte p c) = core_ok c"

lemma outcome_ok_check [simp]:
  "outcome_ok (fault_check r) = core_ok (snd (snd r))"
  "outcome_ok (fault_check_imm n r) = core_ok (snd (snd r))"
  "outcome_ok (jump_check r) = core_ok (snd (snd r))"
  by (simp_all add: fault_check_def fault_check_imm_def jump_check_def split: prod.split)

lemma outcome_ok_UD [simp]:
  "core_ok c \<Longrightarrow> outcome_ok r \<Longrightarrow> outcome_ok (THROW_UD cfg p c r)"
  by (simp add: THROW_UD_def)

lemma outcome_ok_AI:
  "(\<And>x y c. core_ok c \<Longrightarrow> core_ok (snd (f x y c))) \<Longrightarrow> core_ok c \<Longrightarrow> outcome_ok (binopAI cfg f p c)"
  "(\<And>x y c. core_ok c \<Longrightarrow> core_ok (g x y c)) \<Longrightarrow> core_ok c \<Longrightarrow> outcome_ok (binopAI_flags cfg g p c)"
  by (simp_all add: binopAI_def binopAI_flags_def Let_def split_beta)

lemma outcome_ok_alu_forms:
  assumes "\<And>x y c. core_ok c \<Longrightarrow> core_ok (snd (f8 x y c))" "\<And>x y c. core_ok c \<Longrightarrow> core_ok (snd (f16 x y c))"
    "core_ok c"
  shows "outcome_ok (alu_forms cfg form f8 f16 p c)"
  using assms by (simp add: alu_forms_def core_ok_MR core_ok_RM outcome_ok_AI)

lemma ok_alu [simp]:
  "core_ok c \<Longrightarrow> outcome_ok (exec_ADD cfg op p c)" "core_ok c \<Longrightarrow> outcome_ok (exec_OR cfg op p c)"
  "core_ok c \<Longrightarrow> outcome_ok (exec_ADC cfg op p c)" "core_ok c \<Longrightarrow> outcome_ok (exec_SBB cfg op p c)"
  "core_ok c \<Longrightarrow> outcome_ok (exec_AND cfg op p c)" "core_ok c \<Longrightarrow> outcome_ok (exec_SUB cfg op p c)"
  "core_ok c \<Longrightarrow> outcome_ok (exec_XOR cfg op p c)" "core_ok c \<Longrightarrow> outcome_ok (exec_CMP cfg op p c)"
  by (simp_all add: exec_ADD_def exec_OR_def exec_ADC_def exec_SBB_def exec_AND_def exec_SUB_def
      exec_XOR_def exec_CMP_def outcome_ok_alu_forms core_ok_MR core_ok_RM outcome_ok_AI)

lemma unat_and_3: "unat (x AND 3 :: u8) \<le> 3"
  using word_and_le1 [of x 3] by (simp add: word_le_nat_alt)

lemma ok_00_3F: "core_ok c \<Longrightarrow> outcome_ok (exec_00_3F cfg op p c)"
  by (simp add: exec_00_3F_def exec_seg_stack_def Let_def unat_and_3)

lemma ok_40_5F: "core_ok c \<Longrightarrow> outcome_ok (exec_40_5F cfg op p c)"
  by (simp add: exec_40_5F_def Let_def split_beta)

lemma ok_JCC [simp]: "core_ok c \<Longrightarrow> outcome_ok (exec_JCC cfg op p c)"
  by (simp add: exec_JCC_def)

lemma ok_IMUL3 [simp]:
  "core_ok c \<Longrightarrow> outcome_ok (exec_IMUL3_16 cfg p c)" "core_ok c \<Longrightarrow> outcome_ok (exec_IMUL3_8 cfg p c)"
  by (simp_all add: exec_IMUL3_16_def exec_IMUL3_8_def Let_def split_beta core_ok_RM)

lemma ok_60_6F: "core_ok c \<Longrightarrow> outcome_ok (exec_60_6F cfg op p c)"
  by (simp add: exec_60_6F_def Let_def split_beta modrm_nop_def core_ok_RM2)

lemma ok_80_8F: "core_ok c \<Longrightarrow> outcome_ok (exec_80_8F cfg op p c)"
  by (simp add: exec_80_8F_def Let_def split_beta exec_80_def exec_81_def exec_83_def core_ok_MR core_ok_RM core_ok_M)

lemma ok_90_9F: "core_ok c \<Longrightarrow> outcome_ok (exec_90_9F cfg op p c)"
  by (simp add: exec_90_9F_def binopAR_def Let_def split_beta)

lemma ok_A0_AF: "core_ok c \<Longrightarrow> outcome_ok (exec_A0_AF cfg op p c)"
  by (simp add: exec_A0_AF_def MOV_AO_def MOV_OA_def Let_def split_beta outcome_ok_AI)

lemma ok_B0_BF: "core_ok c \<Longrightarrow> outcome_ok (exec_B0_BF cfg op p c)"
  by (simp add: exec_B0_BF_def MOV_RI8_def MOV_RI16_def Let_def split_beta)

lemma ok_C0_CF: "core_ok c \<Longrightarrow> outcome_ok (exec_C0_CF cfg op p c)"
  by (simp add: exec_C0_CF_def exec_grp2_imm_def exec_C6_def exec_C7_def lds_op_def Let_def split_beta
      core_ok_M core_ok_RMF)

lemma ok_D0_DF: "core_ok c \<Longrightarrow> outcome_ok (exec_D0_DF cfg op p c)"
  by (simp add: exec_D0_DF_def exec_grp2_1_def exec_grp2_CL_def SALC_def XLAT_def modrm_nop_def Let_def
      split_beta core_ok_M)

lemma ok_E0_EF: "core_ok c \<Longrightarrow> outcome_ok (exec_E0_EF cfg op p c)"
  by (simp add: exec_E0_EF_def Let_def split_beta)

lemma ok_F0_FF: "core_ok c \<Longrightarrow> outcome_ok (exec_F0_FF cfg op p c)"
  by (simp add: exec_F0_FF_def exec_F6_def exec_F7_def Let_def core_ok_M)

lemma ok_opcode: "core_ok c \<Longrightarrow> outcome_ok (exec_opcode cfg op p c)"
  by (simp add: exec_opcode_def ok_00_3F ok_40_5F ok_60_6F ok_80_8F ok_90_9F ok_A0_AF ok_B0_BF
      ok_C0_CF ok_D0_DF ok_E0_EF ok_F0_FF)

section \<open>The machine\<close>

lemma ok_decode:
  assumes "decode cfg p c = Some r"
  shows "core_ok c \<longrightarrow> outcome_ok r"
  using assms
proof (rule decode.raw_induct [where P = "\<lambda>cfg p c r. core_ok c \<longrightarrow> outcome_ok r", rotated])
  fix dec :: "quirks \<Rightarrow> z86Addr \<Rightarrow> z86Core \<Rightarrow> outcome option" and cfg p c r
  assume ih: "\<And>cfg p c r. dec cfg p c = Some r \<Longrightarrow> core_ok c \<longrightarrow> outcome_ok r"
    and run: "(case fetch8 cfg p c of (op, p') \<Rightarrow>
        (case exec_opcode cfg op p' c of
           Prefix p'' c'' \<Rightarrow> dec cfg p'' c''
         | Break p'' c'' \<Rightarrow> Some (Break p'' c'')
         | Next c'' \<Rightarrow> Some (Next c'')
         | Fault p'' c'' \<Rightarrow> Some (Fault p'' c'')
         | Continue c'' \<Rightarrow> Some (Continue c'')
         | Halt c'' \<Rightarrow> Some (Halt c'')
         | TwoByte p'' c'' \<Rightarrow> Some (TwoByte p'' c''))) = Some r"
  obtain op p' where f: "fetch8 cfg p c = (op, p')" by force
  show "core_ok c \<longrightarrow> outcome_ok r"
    using run ok_opcode [of c cfg op p'] ih unfolding f
    by (cases "exec_opcode cfg op p' c") auto
qed

fun machine_ok :: "machine \<Rightarrow> bool" where
  "machine_ok (Running c) = core_ok c"
| "machine_ok (Halted c) = core_ok c"
| "machine_ok (Escaped p c) = core_ok c"

lemma ok_finish: "outcome_ok r \<Longrightarrow> machine_ok (finish cfg r)"
  by (cases r) (simp_all add: trap_label_def)

lemma ok_begin: "core_ok c \<Longrightarrow> core_ok (begin_instr c)"
  by (simp add: core_ok_def begin_instr_def rep_defs)

lemma ok_step: "step cfg c = Some m \<Longrightarrow> core_ok c \<Longrightarrow> machine_ok m"
  using ok_decode ok_begin ok_finish by (fastforce simp: step_def Let_def)

lemma ok_z86_step: "z86_step cfg m m' \<Longrightarrow> machine_ok m \<Longrightarrow> machine_ok m'"
  by (induction rule: z86_step.induct) (auto simp: ok_step)

text \<open>C6: Starting from the reset state of a machine with one megabyte of memory and no A20
  gate, whatever instructions run and whatever interrupts other threads post, the memory keeps
  its size and has no gate, the pending interrupts stay bytes or none, and the segment override
  and the repeat state stay in their ranges.\<close>

theorem reachable_core_ok:
  assumes "a20 (mem c) = None" "bytes (mem c) = 0x100000"
    and "(z86_step cfg)\<^sup>*\<^sup>* (Running (RESET cfg c)) m"
  shows "machine_ok m"
  using assms(3)
proof (induction rule: rtranclp_induct)
  case base
  then show ?case using assms(1,2) by (simp add: RESET_def core_ok_def rep_defs)
next
  case (step m m')
  then show ?case using ok_z86_step by blast
qed

theorem reachable_core_ok_witness:
  "machine_ok (Running (nmi (RESET z8086 sample_core)))"
proof -
  have "z86_step z8086 (Running (RESET z8086 sample_core)) (Running (nmi (RESET z8086 sample_core)))"
    by (rule z86_step.post_running) simp
  then show ?thesis
    by (intro reachable_core_ok [of sample_core z8086]) (simp_all add: sample_defs)
qed

end
