(* ===== verification/Z86_Progress.thy ===== *)
theory Z86_Progress
  imports Z86_Invariant
begin

text \<open>
  When the machine goes on: which bytes keep the decoder in its prefix loop and when it leaves
  the loop, what becomes of an interrupt once it is pending, and how HLT ends.
\<close>

section \<open>Prefix bytes\<close>

lemma no_Prefix_forms [simp]:
  "binopAI cfg f p c \<noteq> Prefix q d" "binopAI_flags cfg g p c \<noteq> Prefix q d"
  "exec_JCC cfg op p c \<noteq> Prefix q d" "MOV_AO T cfg p c \<noteq> Prefix q d" "MOV_OA T cfg p c \<noteq> Prefix q d"
  "modrm_nop cfg p c \<noteq> Prefix q d" "exec_IMUL3_8 cfg p c \<noteq> Prefix q d"
  by (simp_all add: binopAI_def binopAI_flags_def exec_JCC_def MOV_AO_def MOV_OA_def modrm_nop_def
      exec_IMUL3_8_def Let_def split_beta)

lemma no_Prefix_alu [simp]: "alu_forms cfg form f8 f16 p c \<noteq> Prefix q d"
  by (simp add: alu_forms_def)

lemma THROW_UD_Prefix:
  "THROW_UD cfg p c r = Prefix q d \<longleftrightarrow> NO_UD cfg \<and> r = Prefix q d"
  by (simp add: THROW_UD_def)

lemma seg_prefix_bytes:
  assumes "op < 0x40"
  shows "\<not> op < 0x20 \<and> op AND 7 = 6 \<longleftrightarrow> op \<in> {0x26, 0x2E, 0x36, 0x3E :: u8}"
proof -
  have "\<forall>k \<in> set (map nat [0..63]). \<not> (word_of_nat k :: u8) < 0x20 \<and> word_of_nat k AND 7 = (6 :: u8)
      \<longleftrightarrow> word_of_nat k \<in> {0x26, 0x2E, 0x36, 0x3E :: u8}"
    by (simp add: upto_rec1)
  moreover have "unat op \<in> set (map nat [0..63])"
    using assms by (auto simp: word_less_def image_iff intro!: bexI [of _ "uint op"])
  ultimately have "\<not> (word_of_nat (unat op) :: u8) < 0x20 \<and> word_of_nat (unat op) AND 7 = (6 :: u8)
      \<longleftrightarrow> word_of_nat (unat op) \<in> {0x26, 0x2E, 0x36, 0x3E :: u8}" by blast
  then show ?thesis by simp
qed

lemma Prefix_00_3F:
  assumes "op < 0x40"
  shows "exec_00_3F cfg op p c = Prefix q d \<longleftrightarrow>
    op \<in> {0x26, 0x2E, 0x36, 0x3E} \<and> q = p \<and> d = set_seg_override (unat (drop_bit 3 op AND 3)) c"
  unfolding seg_prefix_bytes [OF assms, symmetric]
  by (auto simp: exec_00_3F_def exec_seg_stack_def exec_ADD_def exec_OR_def exec_ADC_def exec_SBB_def
      exec_AND_def exec_SUB_def exec_XOR_def exec_CMP_def THROW_UD_Prefix Let_def)

lemma no_Prefix_40_5F [simp]: "exec_40_5F cfg op p c \<noteq> Prefix q d"
  by (simp add: exec_40_5F_def Let_def split_beta)

lemma Prefix_60_6F:
  assumes "\<not> op < 0x60"
  shows "exec_60_6F cfg op p c = Prefix q d \<longleftrightarrow>
    OPCODES_V20 cfg \<and> (op = 0x64 \<or> op = 0x65) \<and> q = p \<and> d = set_repc_type cfg op c"
  by (auto simp: exec_60_6F_def Let_def THROW_UD_Prefix exec_IMUL3_16_def split_beta)

lemma no_Prefix_80_EF [simp]:
  "exec_80_8F cfg op p c \<noteq> Prefix q d" "exec_90_9F cfg op p c \<noteq> Prefix q d"
  "exec_A0_AF cfg op p c \<noteq> Prefix q d" "exec_B0_BF cfg op p c \<noteq> Prefix q d"
  "exec_C0_CF cfg op p c \<noteq> Prefix q d" "exec_D0_DF cfg op p c \<noteq> Prefix q d"
  "exec_E0_EF cfg op p c \<noteq> Prefix q d"
  by (simp_all add: exec_80_8F_def exec_80_def exec_81_def exec_83_def exec_90_9F_def exec_A0_AF_def
      exec_B0_BF_def MOV_RI8_def MOV_RI16_def exec_C0_CF_def exec_grp2_imm_def exec_C6_def exec_C7_def
      exec_D0_DF_def exec_grp2_1_def exec_grp2_CL_def exec_E0_EF_def THROW_UD_Prefix Let_def split_beta)

lemma Prefix_F0_FF:
  assumes "\<not> op < 0xF0"
  shows "exec_F0_FF cfg op p c = Prefix q d \<longleftrightarrow>
    q = p \<and> (d = set_lock c \<and> (op = 0xF0 \<or> op = 0xF1 \<and> (OPCODES_80286 cfg \<or> OPCODES_V20 cfg \<or> NO_UD cfg))
      \<or> d = set_rep_type op c \<and> (op = 0xF2 \<or> op = 0xF3))"
  by (auto simp: exec_F0_FF_def exec_F6_def exec_F7_def THROW_UD_Prefix Let_def)

lemma mem_prefix [simp]:
  "mem (set_seg_override s c) = mem c" "mem (set_lock c) = mem c" "mem (set_rep_type t c) = mem c"
  "mem (set_repc_type cfg t c) = mem c"
  by (simp_all add: set_seg_override_def set_lock_def set_rep_type_def set_repc_type_def)

lemma exec_opcode_Prefix:
  "exec_opcode cfg op p c = Prefix q d \<Longrightarrow> is_prefix cfg op \<and> q = p \<and> mem d = mem c"
  by (auto simp: exec_opcode_def Prefix_00_3F Prefix_60_6F Prefix_F0_FF is_prefix_def split: if_splits)

lemma is_prefix_exec:
  assumes "is_prefix cfg op"
  shows "\<exists>d. exec_opcode cfg op p c = Prefix p d \<and> mem d = mem c"
  using assms unfolding is_prefix_def
  by (elim disjE conjE) (simp_all add: exec_opcode_def Prefix_00_3F Prefix_60_6F Prefix_F0_FF)

lemma exec_opcode_iff:
  "(\<exists>q d. exec_opcode cfg op p c = Prefix q d) \<longleftrightarrow> is_prefix cfg op"
  using exec_opcode_Prefix is_prefix_exec by metis

section \<open>Leaving the prefix loop\<close>

definition code_byte :: "quirks \<Rightarrow> z86Memory \<Rightarrow> z86Addr \<Rightarrow> nat \<Rightarrow> u8" where
  "code_byte cfg m p k = addr_read cfg (addr_add p (int k)) 0 m"

lemma code_byte_Suc [simp]: "code_byte cfg m (addr_add p 1) k = code_byte cfg m p (Suc k)"
  by (simp add: code_byte_def)

lemma fetch8_byte: "fetch8 cfg p c = (code_byte cfg (mem c) p 0, addr_add p 1)"
  by (simp add: fetch8_def addr_read_advance_def code_byte_def)

lemma decode_Some: "\<not> is_prefix cfg (code_byte cfg (mem c) p k) \<Longrightarrow> decode cfg p c \<noteq> None"
proof (induction k arbitrary: p c)
  case 0
  let ?o = "exec_opcode cfg (code_byte cfg (mem c) p 0) (addr_add p 1) c"
  have "?o \<noteq> Prefix q d" for q d using 0 exec_opcode_Prefix by blast
  then show ?case by (subst decode.simps) (cases ?o; auto simp: fetch8_byte)
next
  case (Suc k)
  let ?o = "exec_opcode cfg (code_byte cfg (mem c) p 0) (addr_add p 1) c"
  show ?case
  proof (cases ?o)
    case (Prefix q d)
    then have "q = addr_add p 1" "mem d = mem c" using exec_opcode_Prefix by blast+
    then have "decode cfg q d \<noteq> None" using Suc by simp
    then show ?thesis by (subst decode.simps) (simp add: fetch8_byte Prefix)
  qed (subst decode.simps, simp add: fetch8_byte)+
qed

lemma decode_needs_opcode:
  assumes "decode cfg p c = Some r"
  shows "\<exists>k. \<not> is_prefix cfg (code_byte cfg (mem c) p k)"
  using assms
proof (rule decode.raw_induct [where P = "\<lambda>cfg p c r. \<exists>k. \<not> is_prefix cfg (code_byte cfg (mem c) p k)", rotated])
  fix dec :: "quirks \<Rightarrow> z86Addr \<Rightarrow> z86Core \<Rightarrow> outcome option" and cfg p c r
  assume ih: "\<And>cfg p c r. dec cfg p c = Some r \<Longrightarrow> \<exists>k. \<not> is_prefix cfg (code_byte cfg (mem c) p k)"
    and run: "(case fetch8 cfg p c of (op, p') \<Rightarrow>
        (case exec_opcode cfg op p' c of
           Prefix p'' c'' \<Rightarrow> dec cfg p'' c''
         | Break p'' c'' \<Rightarrow> Some (Break p'' c'')
         | Next c'' \<Rightarrow> Some (Next c'')
         | Fault p'' c'' \<Rightarrow> Some (Fault p'' c'')
         | Continue c'' \<Rightarrow> Some (Continue c'')
         | Halt c'' \<Rightarrow> Some (Halt c'')
         | TwoByte p'' c'' \<Rightarrow> Some (TwoByte p'' c''))) = Some r"
  let ?op = "code_byte cfg (mem c) p 0"
  show "\<exists>k. \<not> is_prefix cfg (code_byte cfg (mem c) p k)"
  proof (cases "is_prefix cfg ?op")
    case True
    then obtain d where d: "exec_opcode cfg ?op (addr_add p 1) c = Prefix (addr_add p 1) d" "mem d = mem c"
      using is_prefix_exec by blast
    then have "dec cfg (addr_add p 1) d = Some r" using run by (simp add: fetch8_byte)
    from ih [OF this] show ?thesis using d(2) by auto
  qed blast
qed

lemma code_byte_wrap: "code_byte cfg m p k = code_byte cfg m p (k mod 65536)"
proof -
  have "(word_of_nat k :: u16) = word_of_nat (k mod 65536)"
    by (simp only: word_of_nat_eq_iff take_bit_eq_mod) simp
  then show ?thesis by (simp only: code_byte_def addr_add_def of_int_of_nat_eq)
qed

text \<open>C15: Decoding an instruction ends exactly when the segment holds a byte, counted round it
  from the program counter, that is not a prefix: a segment filled with prefixes is the only way
  to hang the prefix loop, and otherwise the machine makes its step.\<close>

theorem decode_terminates_iff:
  "decode cfg p c = None \<longleftrightarrow> (\<forall>k \<in> {..<65536}. is_prefix cfg (code_byte cfg (mem c) p k))"
proof
  assume "decode cfg p c = None"
  then show "\<forall>k \<in> {..<65536}. is_prefix cfg (code_byte cfg (mem c) p k)" using decode_Some by blast
next
  assume all: "\<forall>k \<in> {..<65536}. is_prefix cfg (code_byte cfg (mem c) p k)"
  have "is_prefix cfg (code_byte cfg (mem c) p k)" for k
    using all code_byte_wrap [of cfg "mem c" p k] by simp
  then show "decode cfg p c = None" using decode_needs_opcode by (metis option.exhaust)
qed

theorem decode_terminates_iff_witness:
  "decode z8086 \<lparr>segment = 0, offset = 0\<rparr> sample_core \<noteq> None"
proof -
  have "\<not> is_prefix z8086 (code_byte z8086 (mem sample_core) \<lparr>segment = 0, offset = 0\<rparr> 0)"
    by (simp add: code_byte_def addr_read8 sample_defs is_prefix_def)
  then show ?thesis using decode_terminates_iff [of z8086 "\<lparr>segment = 0, offset = 0\<rparr>" sample_core] by auto
qed

section \<open>Interrupts that are never taken\<close>

text \<open>The next instruction divides a word by a register that is zero, and nothing else is pending.\<close>

definition divides_by_zero :: "quirks \<Rightarrow> z86Core \<Rightarrow> bool" where
  "divides_by_zero cfg c \<longleftrightarrow>
     (let b = code_byte cfg (mem c) (ctx_pc c) 1
      in code_byte cfg (mem c) (ctx_pc c) 0 = 0xF7 \<and> \<not> modrm_is_mem b \<and> modrm_R b = 6
       \<and> gpr c (modrm_M b) = 0 \<and> \<not> pending_nmi c \<and> pending_einterrupt c \<le> 0 \<and> \<not> trap c)"

lemma begin_instr_fields [simp]:
  "ctx_pc (begin_instr c) = ctx_pc c" "mem (begin_instr c) = mem c" "gpr (begin_instr c) = gpr c"
  by (simp_all add: ctx_pc_def ctx_addr_force_def begin_instr_def)

lemma execute_nothing_pending:
  assumes "pending_sinterrupt c \<le> 0" "\<not> pending_nmi c" "pending_einterrupt c \<le> 0" "\<not> trap c"
  shows "execute_pending_interrupts cfg c = c\<lparr>pending_einterrupt := if interrupt c then -1 else pending_einterrupt c\<rparr>"
  using assms
  by (simp add: execute_pending_interrupts_def check_for_software_interrupt_def check_for_nmi_def
      check_for_external_interrupt_def check_for_trap_def Let_def)

lemma decode_DIV:
  assumes "divides_by_zero cfg c"
  shows "decode cfg (ctx_pc c) (begin_instr c) =
    Some ((if FAULTS_ARE_TRAPS cfg then Break else Fault) (addr_add (ctx_pc c) 2) ((begin_instr c)\<lparr>pending_sinterrupt := 0\<rparr>))"
proof -
  let ?p = "ctx_pc c" and ?d = "begin_instr c"
  let ?b = "code_byte cfg (mem c) ?p 1"
  have b: "code_byte cfg (mem c) ?p 0 = 0xF7" "\<not> modrm_is_mem ?b" "modrm_R ?b = 6" "gpr c (modrm_M ?b) = 0"
    using assms by (simp_all add: divides_by_zero_def Let_def)
  show ?thesis using b
    by (subst decode.simps)
      (simp add: fetch8_byte exec_opcode_def exec_F0_FF_def exec_F7_def unopM_impl_def grp3_def Let_def read_op_def
        index_reg_def index_word_reg_def DIV_def set_fault_def software_interrupt_def IntDE_def fault_check_def
        OP_HAD_FAULT_def OP_FAULT_def)
qed

lemma divides_by_zero_cong:
  assumes "mem c' = mem c" "gpr c' = gpr c" "rip c' = rip c" "seg c' = seg c" "pending_nmi c' = pending_nmi c"
    "pending_einterrupt c' \<le> 0" "trap c' = trap c" "divides_by_zero cfg c"
  shows "divides_by_zero cfg c'"
proof -
  have "ctx_pc c' = ctx_pc c" using assms by (simp add: ctx_pc_def ctx_addr_force_def)
  with assms show ?thesis by (simp add: divides_by_zero_def Let_def)
qed

text \<open>C38: The divide error is raised by storing interrupt 0, and the test for a pending interrupt asks
  for a number greater than zero, so it never enters a handler.  When the next instruction is a DIV
  by a word register that is zero, no other interrupt is pending and the trap flag is clear, a step
  changes no register, no flag and no memory: on a core whose faults are traps it goes on with the next instruction, on the
  others it stays at the DIV, which it executes again in every further step.\<close>

theorem divide_error_lost:
  assumes "divides_by_zero cfg c"
  shows "\<exists>c'. step cfg c = Some (Running c') \<and> rip c' = (if FAULTS_ARE_TRAPS cfg then rip c + 2 else rip c)
    \<and> seg c' = seg c \<and> gpr c' = gpr c \<and> mem c' = mem c \<and> get_flags c' = (get_flags c :: u16) \<and> pending_sinterrupt c' = 0
    \<and> (\<not> FAULTS_ARE_TRAPS cfg \<longrightarrow> divides_by_zero cfg c')"
proof -
  let ?d = "(begin_instr c)\<lparr>pending_sinterrupt := 0\<rparr>"
  let ?e = "\<lambda>d. d\<lparr>pending_einterrupt := if interrupt d then -1 else pending_einterrupt d\<rparr>"
  let ?c' = "if FAULTS_ARE_TRAPS cfg then ?e (?d\<lparr>rip := rip c + 2\<rparr>) else ?e ?d"
  have p: "\<not> pending_nmi c" "pending_einterrupt c \<le> 0" "\<not> trap c"
    using assms by (simp_all add: divides_by_zero_def Let_def)
  have e: "execute_pending_interrupts cfg ?d = ?e ?d"
    "execute_pending_interrupts cfg (?d\<lparr>rip := rip c + 2\<rparr>) = ?e (?d\<lparr>rip := rip c + 2\<rparr>)"
    by (rule execute_nothing_pending; use p in \<open>simp add: begin_instr_def\<close>)+
  have o: "offset (addr_add (ctx_pc c) 2) = rip c + 2"
    by (simp add: addr_add_def ctx_pc_def ctx_addr_force_def)
  have st: "step cfg c = Some (Running ?c')"
    using decode_DIV [OF assms] e o by (simp add: step_def Let_def trap_label_def)
  have f: "rip ?c' = (if FAULTS_ARE_TRAPS cfg then rip c + 2 else rip c)" "seg ?c' = seg c" "gpr ?c' = gpr c"
    "mem ?c' = mem c" "get_flags ?c' = (get_flags c :: u16)" "pending_sinterrupt ?c' = 0" "pending_nmi ?c' = pending_nmi c"
    "trap ?c' = trap c" "pending_einterrupt ?c' \<le> 0"
    using p(2) by (simp_all add: begin_instr_def get_flags_def get_iopl_def)
  have "divides_by_zero cfg ?c'" if "\<not> FAULTS_ARE_TRAPS cfg"
    by (rule divides_by_zero_cong [OF f(4,3) _ f(2,7,9,8) assms]) (use f(1) that in simp)
  with st f show ?thesis by blast
qed

text \<open>DIV CX at the reset address, with CX zero.\<close>

definition zero_divisor :: z86Core where
  "zero_divisor = sample_core\<lparr>gpr := (\<lambda>_. 0), mem := (mem sample_core)\<lparr>raw := (\<lambda>_. 0)(0x10000 := 0xF7, 0x10001 := 0xF1)\<rparr>\<rparr>"

theorem divide_error_lost_witness:
  "\<exists>c'. step z80186 zero_divisor = Some (Running c') \<and> rip c' = 0 \<and> divides_by_zero z80186 c'"
proof -
  have "divides_by_zero z80186 zero_divisor"
    by (simp add: divides_by_zero_def Let_def code_byte_def addr_read8 zero_divisor_def sample_defs
        ctx_pc_def ctx_addr_force_def modrm_is_mem_def modrm_Mod_def modrm_R_def addr_addr_def addr_add_def
        addr_ptr_def addr_seg_def)
  moreover have "\<not> FAULTS_ARE_TRAPS z80186" by (simp add: z80186_def)
  moreover have "rip zero_divisor = 0" by (simp add: zero_divisor_def sample_core_def)
  ultimately show ?thesis using divide_error_lost [of z80186 zero_divisor] by auto
qed

section \<open>Halting\<close>

lemma step_HLT:
  assumes "code_byte cfg (mem c) (ctx_pc c) 0 = 0xF4" "pending_sinterrupt c \<le> 0"
  shows "step cfg c = Some (Halted (begin_instr c\<lparr>halted := True\<rparr>))"
proof -
  have pc: "ctx_pc (begin_instr c) = ctx_pc c" "mem (begin_instr c) = mem c"
      "pending_sinterrupt (begin_instr c) = pending_sinterrupt c"
    by simp_all (simp add: begin_instr_def)
  have "decode cfg (ctx_pc (begin_instr c)) (begin_instr c) = Some (Halt (begin_instr c\<lparr>halted := True\<rparr>))"
    using assms by (subst decode.simps) (simp add: fetch8_byte pc exec_opcode_def exec_F0_FF_def
        HLT_enter_def check_for_software_interrupt_def)
  then show ?thesis by (simp add: step_def Let_def)
qed

lemma wake_by_nmi:
  assumes "no_gate c" "halted c"
    "d = handle_pending_interrupt cfg IntNMI (c\<lparr>pending_nmi := False, halted := False\<rparr>)"
  shows "(z86_step cfg)\<^sup>*\<^sup>* (Halted c) (Running d)"
proof -
  have i: "interrupt d = False" "trap d = False" "halted d = False"
    using interrupt_then_iret [of "c\<lparr>pending_nmi := False, halted := False\<rparr>" cfg IntNMI] assms(1)
    by (simp_all add: assms(3) no_gate_def handle_pending_interrupt_def Let_def PUSH_eq)
  have "HLT_turn cfg (nmi c) = d"
    using i by (simp add: HLT_turn_def check_for_nmi_def check_for_external_interrupt_def nmi_def Let_def assms(3))
  moreover have "HLT_leave cfg d = d" using i by (simp add: HLT_leave_def check_for_trap_def)
  ultimately have "z86_step cfg (Halted (nmi c)) (Running d)"
    using z86_step.wake [of cfg "nmi c"] i by simp
  moreover have "z86_step cfg (Halted c) (Halted (nmi c))"
    by (rule z86_step.post_halted) simp
  ultimately show ?thesis by (meson converse_rtranclp_into_rtranclp r_into_rtranclp)
qed

text \<open>C39: A halted processor wakes up: from an HLT instruction the machine halts, and an NMI
  posted then enters its handler.  The return address is that of the HLT itself, so that the
  handler's IRET halts the processor again instead of continuing behind it.\<close>

theorem HLT_wakes_and_repeats:
  assumes "no_gate c" "code_byte cfg (mem c) (ctx_pc c) 0 = 0xF4" "pending_sinterrupt c \<le> 0"
  shows "\<exists>d. (z86_step cfg)\<^sup>*\<^sup>* (Running c) (Running d)
    \<and> rip d = mem_read (mem d) 8 \<and> seg d CS = mem_read (mem d) 10
    \<and> rip (IRET cfg d) = rip c \<and> seg (IRET cfg d) = seg c \<and> gpr (IRET cfg d) = gpr c"
proof -
  let ?h = "begin_instr c\<lparr>halted := True\<rparr>"
  let ?e = "?h\<lparr>pending_nmi := False, halted := False\<rparr>"
  define d where "d = handle_pending_interrupt cfg IntNMI ?e"
  have g: "no_gate ?h" "no_gate ?e" using assms(1) by (simp_all add: no_gate_def begin_instr_def)
  have "z86_step cfg (Running c) (Halted ?h)"
    by (rule z86_step.instr) (rule step_HLT [OF assms(2,3)])
  moreover have "(z86_step cfg)\<^sup>*\<^sup>* (Halted ?h) (Running d)"
    by (rule wake_by_nmi) (use g in \<open>simp_all add: d_def\<close>)
  ultimately have "(z86_step cfg)\<^sup>*\<^sup>* (Running c) (Running d)" by (rule converse_rtranclp_into_rtranclp)
  moreover have "IRET cfg d = ?e\<lparr>mem := mem d\<rparr>"
    using interrupt_then_iret [OF g(2), of cfg IntNMI] by (simp add: d_def)
  moreover have "rip d = mem_read (mem d) 8" "seg d CS = mem_read (mem d) 10"
    by (simp_all add: d_def handle_pending_interrupt_def Let_def IntNMI_def)
  ultimately show ?thesis by (intro exI [of _ d]) (simp add: begin_instr_def)
qed

definition halt_core :: z86Core where
  "halt_core = sample_core\<lparr>mem := addr_write z8086 (ctx_pc sample_core) 0 (0xF4 :: u8) sample_mem\<rparr>"

theorem HLT_wakes_and_repeats_witness:
  "\<exists>d. (z86_step z8086)\<^sup>*\<^sup>* (Running halt_core) (Running d) \<and> rip (IRET z8086 d) = 0"
proof -
  have "no_gate halt_core" by (simp add: no_gate_def halt_core_def sample_mem_def)
  moreover have "code_byte z8086 (mem halt_core) (ctx_pc halt_core) 0 = 0xF4"
    by (simp add: code_byte_def halt_core_def addr_read8 raw_addr_write8 ctx_pc_def ctx_addr_force_def sample_mem_def)
  moreover have "pending_sinterrupt halt_core \<le> 0" "rip halt_core = 0"
    by (simp_all add: halt_core_def sample_core_def)
  ultimately show ?thesis using HLT_wakes_and_repeats [of halt_core z8086] by metis
qed

end
