(* ===== verification/Z286_Descriptor.thy ===== *)
theory Z286_Descriptor
  imports Z86_Regs
begin

text \<open>
  The protected-mode state of the core that the emulator is built with, \<^verbatim>\<open>z80286\<close>: the
  descriptors in memory (\<^verbatim>\<open>SEG_DESCRIPTOR<16>\<close>), the descriptor caches
  (\<^verbatim>\<open>z86DescriptorCache<16>\<close>), the control state (\<^verbatim>\<open>z86BaseControlBase<16, true>\<close>) and
  the operations on them (\<^verbatim>\<open>z86BaseControl\<close>), and the stack as \<^verbatim>\<open>PUSH_impl\<close> and
  \<^verbatim>\<open>POP_impl\<close> see it through the cache of SS.  A pointer to a descriptor is its address
  in the memory, after the A20 gate, as \<^verbatim>\<open>mem.ptr\<close> computes it.
\<close>

section \<open>Descriptor types\<close>

text \<open>\<^verbatim>\<open>DESCRIPTOR_TYPE5\<close>: the values of the five type bits that the checks name.\<close>

definition DESCRIPTOR_TSS16 :: nat where "DESCRIPTOR_TSS16 = 1"
definition DESCRIPTOR_LDT :: nat where "DESCRIPTOR_LDT = 2"
definition DESCRIPTOR_TSS16_BUSY :: nat where "DESCRIPTOR_TSS16_BUSY = 3"
definition DESCRIPTOR_CALL_GATE16 :: nat where "DESCRIPTOR_CALL_GATE16 = 4"
definition DESCRIPTOR_TASK_GATE :: nat where "DESCRIPTOR_TASK_GATE = 5"
definition DESCRIPTOR_INTERRUPT_GATE16 :: nat where "DESCRIPTOR_INTERRUPT_GATE16 = 6"
definition DESCRIPTOR_TRAP_GATE16 :: nat where "DESCRIPTOR_TRAP_GATE16 = 7"

lemmas system_types = DESCRIPTOR_TSS16_def DESCRIPTOR_LDT_def DESCRIPTOR_TSS16_BUSY_def
  DESCRIPTOR_CALL_GATE16_def DESCRIPTOR_TASK_GATE_def DESCRIPTOR_INTERRUPT_GATE16_def DESCRIPTOR_TRAP_GATE16_def

text \<open>The masks of \<^verbatim>\<open>DESCRIPTOR_MASK\<close> that several checks use, as sets of types.\<close>

definition writable_data :: "nat \<Rightarrow> bool" where
  "writable_data t \<longleftrightarrow> t \<in> {0b10010, 0b10011, 0b10110, 0b10111}"

definition readable_segment :: "nat \<Rightarrow> bool" where
  "readable_segment t \<longleftrightarrow> 0b10000 \<le> t \<and> t < 0b11000 \<or> t \<in> {0b11010, 0b11011, 0b11110, 0b11111}"

definition code_segment :: "nat \<Rightarrow> bool" where
  "code_segment t \<longleftrightarrow> 0b11000 \<le> t \<and> t \<le> 0b11111"

definition conforming_code :: "nat \<Rightarrow> bool" where
  "conforming_code t \<longleftrightarrow> 0b11100 \<le> t \<and> t \<le> 0b11111"

section \<open>Descriptors in memory\<close>

definition mem_ptr :: "z86Memory \<Rightarrow> int \<Rightarrow> int" where
  "mem_ptr m off = a20_mask m off"

definition ptr_read :: "z86Memory \<Rightarrow> int \<Rightarrow> 'a::len word" where
  "ptr_read m p = le_to_word (read_bytes p (mem_size TYPE('a word)) (raw m))"

definition ptr_write :: "int \<Rightarrow> 'a::len word \<Rightarrow> z86Memory \<Rightarrow> z86Memory" where
  "ptr_write p v m = m\<lparr>raw := write_bytes p (word_to_le (mem_size TYPE('a word)) v) (raw m)\<rparr>"

definition desc_limit :: "z86Memory \<Rightarrow> int \<Rightarrow> u16" where
  "desc_limit m d = ptr_read m d"

definition desc_ip :: "z86Memory \<Rightarrow> int \<Rightarrow> u16" where
  "desc_ip m d = ptr_read m d"

definition desc_segment :: "z86Memory \<Rightarrow> int \<Rightarrow> u16" where
  "desc_segment m d = ptr_read m (d + 2)"

definition desc_base :: "z86Memory \<Rightarrow> int \<Rightarrow> u32" where
  "desc_base m d = ptr_read m (d + 2) AND 0xFFFFFF"

definition desc_flags1 :: "z86Memory \<Rightarrow> int \<Rightarrow> u8" where
  "desc_flags1 m d = ptr_read m (d + 5)"

definition get_full_type :: "z86Memory \<Rightarrow> int \<Rightarrow> nat" where
  "get_full_type m d = unat (desc_flags1 m d AND 0b11111)"

definition get_dpl :: "z86Memory \<Rightarrow> int \<Rightarrow> nat" where
  "get_dpl m d = unat (drop_bit 5 (desc_flags1 m d) AND 3)"

definition is_present :: "z86Memory \<Rightarrow> int \<Rightarrow> bool" where
  "is_present m d = bit (desc_flags1 m d) 7"

definition set_accessed :: "int \<Rightarrow> z86Memory \<Rightarrow> z86Memory" where
  "set_accessed d m = ptr_write (d + 5) (desc_flags1 m d OR 1) m"

definition set_busy :: "int \<Rightarrow> z86Memory \<Rightarrow> z86Memory" where
  "set_busy d m = ptr_write (d + 5) (desc_flags1 m d OR 2) m"

definition desc_attributes :: "z86Memory \<Rightarrow> int \<Rightarrow> u16 \<Rightarrow> u16" where
  "desc_attributes m d extra = ucast (desc_flags1 m d) OR extra"

definition is_valid_for_stack :: "z86Memory \<Rightarrow> int \<Rightarrow> bool" where
  "is_valid_for_stack m d \<longleftrightarrow> get_full_type m d \<in> {0b10010, 0b10011}"

section \<open>Descriptor caches\<close>

record z86DescriptorCache =
  base :: u32
  limit :: u16
  attributes :: u16

definition ATTRIBUTES_R :: u16 where "ATTRIBUTES_R = 0x0100"
definition ATTRIBUTES_RW :: u16 where "ATTRIBUTES_RW = 0x0300"
definition ATTRIBUTES_E :: u16 where "ATTRIBUTES_E = 0x0400"
definition ATTRIBUTES_RE :: u16 where "ATTRIBUTES_RE = 0x0500"
definition ATTRIBUTES_RWE :: u16 where "ATTRIBUTES_RWE = 0x0700"
definition ATTRIBUTES_VALID :: u16 where "ATTRIBUTES_VALID = 0x0080"

lemmas attribute_defs = ATTRIBUTES_R_def ATTRIBUTES_RW_def ATTRIBUTES_E_def ATTRIBUTES_RE_def
  ATTRIBUTES_RWE_def ATTRIBUTES_VALID_def

definition cache_of :: "z86Memory \<Rightarrow> int \<Rightarrow> u16 \<Rightarrow> z86DescriptorCache" where
  "cache_of m d extra =
     \<lparr>base = desc_base m d, limit = desc_limit m d, attributes = desc_attributes m d extra\<rparr>"

definition cache_dpl :: "z86DescriptorCache \<Rightarrow> nat" where
  "cache_dpl k = unat (drop_bit 5 (attributes k) AND 3)"

text \<open>\<^verbatim>\<open>get_descriptor\<close> of a table: a pointer into it, or \<^verbatim>\<open>NULL\<close> beyond its limit.\<close>

definition table_descriptor :: "z86Memory \<Rightarrow> z86DescriptorCache \<Rightarrow> u16 \<Rightarrow> int option" where
  "table_descriptor m t selector =
     (let off = ucast (selector AND 0xFFF8) :: u32
      in if off \<le> ucast (limit t) then Some (mem_ptr m (uint (off + base t))) else None)"

section \<open>The state of the core\<close>

abbreviation (input) LDT :: nat where "LDT \<equiv> 8"
abbreviation (input) TSS :: nat where "TSS \<equiv> 9"
abbreviation (input) GDT :: nat where "GDT \<equiv> 10"
abbreviation (input) IDT :: nat where "IDT \<equiv> 11"

record z286Core = z86Core +
  descriptors :: "nat \<Rightarrow> z86DescriptorCache"
  msw :: u16
  error_code :: u16
  cpl :: nat
  iopl :: nat
  nested_task :: bool

definition protected_mode :: "z286Core \<Rightarrow> bool" where
  "protected_mode c = bit (msw c) 0"

definition get_descriptor :: "z286Core \<Rightarrow> u16 \<Rightarrow> int option" where
  "get_descriptor c selector =
     table_descriptor (mem c) (descriptors c (GDT + of_bool (selector AND 4 \<noteq> 0))) selector"

definition get_gdt_descriptor :: "z286Core \<Rightarrow> u16 \<Rightarrow> int option" where
  "get_gdt_descriptor c selector = table_descriptor (mem c) (descriptors c GDT) selector"

definition get_idt_descriptor :: "z286Core \<Rightarrow> u8 \<Rightarrow> int option" where
  "get_idt_descriptor c selector = table_descriptor (mem c) (descriptors c IDT) (ucast selector)"

definition set_descriptor_base :: "nat \<Rightarrow> u32 \<Rightarrow> z286Core \<Rightarrow> z286Core" where
  "set_descriptor_base i b c = c\<lparr>descriptors := (descriptors c)(i := descriptors c i\<lparr>base := b\<rparr>)\<rparr>"

definition set_descriptor_limit :: "nat \<Rightarrow> u16 \<Rightarrow> z286Core \<Rightarrow> z286Core" where
  "set_descriptor_limit i l c = c\<lparr>descriptors := (descriptors c)(i := descriptors c i\<lparr>limit := l\<rparr>)\<rparr>"

definition load_descriptor :: "nat \<Rightarrow> int \<Rightarrow> u16 \<Rightarrow> z286Core \<Rightarrow> z286Core" where
  "load_descriptor i d extra c = c\<lparr>descriptors := (descriptors c)(i := cache_of (mem c) d extra)\<rparr>"

definition load_descriptor_table :: "nat \<Rightarrow> u16 \<Rightarrow> u32 \<Rightarrow> z286Core \<Rightarrow> z286Core" where
  "load_descriptor_table i l b c =
     c\<lparr>descriptors := (descriptors c)(GDT + i := descriptors c (GDT + i)\<lparr>limit := l, base := b\<rparr>)\<rparr>"

definition mark_accessed :: "int \<Rightarrow> z286Core \<Rightarrow> z286Core" where
  "mark_accessed d c = c\<lparr>mem := set_accessed d (mem c)\<rparr>"

definition set_privilege_level :: "nat \<Rightarrow> z286Core \<Rightarrow> z286Core" where
  "set_privilege_level l c = c\<lparr>cpl := l\<rparr>"

definition set_machine_status_word :: "u16 \<Rightarrow> z286Core \<Rightarrow> z286Core" where
  "set_machine_status_word v c = c\<lparr>msw := v\<rparr>"

text \<open>Exceptions with an error code, and which of them push it.\<close>

definition IntDF :: u8 where "IntDF = 8"
definition IntTS :: u8 where "IntTS = 10"
definition IntNP :: u8 where "IntNP = 11"
definition IntSS :: u8 where "IntSS = 12"
definition IntGP :: u8 where "IntGP = 13"

definition software_interrupt_code :: "u8 \<Rightarrow> u16 \<Rightarrow> z286Core \<Rightarrow> z286Core" where
  "software_interrupt_code number code c = c\<lparr>pending_sinterrupt := uint number, error_code := code\<rparr>"

definition interrupt_uses_error_code :: "u8 \<Rightarrow> bool" where
  "interrupt_uses_error_code number \<longleftrightarrow>
     (if number < 32 then bit (0b01100000001000100011110100000000 :: u32) (unat number) else False)"

section \<open>Reset\<close>

definition reset_descriptors :: "nat \<Rightarrow> z86DescriptorCache" where
  "reset_descriptors i =
     (if i = CS then \<lparr>base = 0xF0000, limit = 0xFFFF, attributes = 0b10011 OR ATTRIBUTES_RWE OR ATTRIBUTES_VALID\<rparr>
      else if i < LDT then \<lparr>base = 0, limit = 0xFFFF, attributes = 0b10011 OR ATTRIBUTES_RWE OR ATTRIBUTES_VALID\<rparr>
      else \<lparr>base = 0, limit = 0xFFFF, attributes = 0b00010 OR ATTRIBUTES_R OR ATTRIBUTES_VALID\<rparr>)"

definition RESET286 :: "z286Core \<Rightarrow> z286Core" where
  "RESET286 c = \<lparr>
     carry = False, parity = False, auxiliary = False, zero = False, sign = False,
     overflow = False, trap = False, interrupt = False, direction = False,
     gpr = (\<lambda>_. 0), rip = 0xFFF0, seg = (\<lambda>_. 0)(CS := 0xF000),
     pending_sinterrupt = -1, pending_einterrupt = -1, pending_nmi = False, halted = False,
     seg_override = -1, lock = False, rep_type = NO_REP,
     mem = mem c, io_byte_devices = io_byte_devices c, io_word_devices = io_word_devices c,
     descriptors = reset_descriptors, msw = 0, error_code = 0, cpl = 0, iopl = 0, nested_task = False\<rparr>"

section \<open>Flags word and stack\<close>

definition get_flags286 :: "z286Core \<Rightarrow> u16" where
  "get_flags286 c =
     (0x6002
        OR of_bool (carry c)
        OR push_bit 2 (of_bool (parity c))
        OR push_bit 4 (of_bool (auxiliary c))
        OR push_bit 6 (of_bool (zero c))
        OR push_bit 7 (of_bool (sign c))
        OR push_bit 8 (of_bool (trap c))
        OR push_bit 9 (of_bool (interrupt c))
        OR push_bit 10 (of_bool (direction c))
        OR push_bit 11 (of_bool (overflow c))
        OR push_bit 12 (of_nat (iopl c)))"

definition set_flags286 :: "bool \<Rightarrow> u16 \<Rightarrow> z286Core \<Rightarrow> z286Core" where
  "set_flags286 ignore_checks src c =
     (let io = iopl c;
          c = c\<lparr>carry := bit src 0, parity := bit src 2, auxiliary := bit src 4,
                zero := bit src 6, sign := bit src 7, trap := bit src 8\<rparr>;
          c = (if ignore_checks \<or> cpl c \<le> io then c\<lparr>interrupt := bit src 9\<rparr> else c);
          c = c\<lparr>direction := bit src 10, overflow := bit src 11\<rparr>
      in if ignore_checks \<or> cpl c = 0 then c\<lparr>iopl := unat (drop_bit 12 src AND 3)\<rparr> else c)"

definition stack_ptr :: "z286Core \<Rightarrow> int" where
  "stack_ptr c = uint (base (descriptors c SS)) + uint (gpr c SP)"

definition push286 :: "u16 \<Rightarrow> z286Core \<Rightarrow> z286Core" where
  "push286 src c =
     (let c = c\<lparr>gpr := (gpr c)(SP := gpr c SP - 2)\<rparr>
      in c\<lparr>mem := mem_write (mem c) (stack_ptr c) src\<rparr>)"

definition pop286 :: "z286Core \<Rightarrow> u16 \<times> z286Core" where
  "pop286 c = (mem_read (mem c) (stack_ptr c), c\<lparr>gpr := (gpr c)(SP := gpr c SP + 2)\<rparr>)"

end
