(* ===== verification/Z286_Segments.thy ===== *)
theory Z286_Segments
  imports Z286_Descriptor
begin

text \<open>
  Loading segment registers in protected mode: \<^verbatim>\<open>write_seg_impl\<close> for data and stack
  segments, \<^verbatim>\<open>write_cs_jmp\<close>, \<^verbatim>\<open>write_cs_call\<close>, \<^verbatim>\<open>write_cs_ret\<close> and
  \<^verbatim>\<open>write_cs_iret\<close> for the code segment, with the transfers that use them.  Every check
  that fails jumps in the source to a label that posts an exception with an error code; in the
  model the checks are functions to a sum, the exception on the left.  An operation returns
  whether it faulted, and the state.
\<close>

section \<open>Selectors and faults\<close>

definition null_selector :: "u16 \<Rightarrow> bool" where
  "null_selector s \<longleftrightarrow> s AND NOT 3 = 0"

definition rpl :: "u16 \<Rightarrow> nat" where
  "rpl s = unat (s AND 3)"

definition with_rpl :: "u16 \<Rightarrow> nat \<Rightarrow> u16" where
  "with_rpl s l = (s AND NOT 3) OR of_nat l"

datatype fault = Fault u8 u16

text \<open>The labels \<^verbatim>\<open>throw_gp_selector\<close> and so on of the transfers.\<close>

definition throw_gp :: "u16 \<Rightarrow> fault" where "throw_gp selector = Fault IntGP (selector AND NOT 3)"
definition throw_np :: "u16 \<Rightarrow> fault" where "throw_np selector = Fault IntNP (selector AND NOT 3)"
definition throw_ts :: "u16 \<Rightarrow> fault" where "throw_ts selector = Fault IntTS (selector AND NOT 3)"
definition throw_ss :: "u16 \<Rightarrow> fault" where "throw_ss selector = Fault IntSS (selector AND NOT 3)"

fun raise_fault :: "fault \<Rightarrow> z286Core \<Rightarrow> z286Core" where
  "raise_fault (Fault number code) c = software_interrupt_code number code c"

section \<open>Data and stack segments\<close>

definition ss_checks :: "u16 \<Rightarrow> z286Core \<Rightarrow> fault + int option" where
  "ss_checks selector c =
     (if null_selector selector then Inl (throw_gp selector)
      else if cpl c \<noteq> rpl selector then Inl (throw_gp selector)
      else (case get_descriptor c selector of
          None \<Rightarrow> Inl (throw_gp selector)
        | Some d \<Rightarrow>
            if cpl c \<noteq> get_dpl (mem c) d then Inl (throw_gp selector)
            else if \<not> writable_data (get_full_type (mem c) d) then Inl (throw_gp selector)
            else if \<not> is_present (mem c) d then Inl (throw_ss selector)
            else Inr (Some d)))"

definition data_checks :: "u16 \<Rightarrow> z286Core \<Rightarrow> fault + int option" where
  "data_checks selector c =
     (if \<not> null_selector selector
      then if cpl c > rpl selector then Inl (throw_gp selector)
      else (case get_descriptor c selector of
          None \<Rightarrow> Inl (throw_gp selector)
        | Some d \<Rightarrow>
            if cpl c > get_dpl (mem c) d then Inl (throw_gp selector)
            else if \<not> readable_segment (get_full_type (mem c) d) then Inl (throw_gp selector)
            else if \<not> is_present (mem c) d then Inl (Fault IntNP selector)
            else Inr (Some d))
      else Inr None)"

definition set_seg :: "nat \<Rightarrow> u16 \<Rightarrow> z286Core \<Rightarrow> z286Core" where
  "set_seg index selector c = c\<lparr>seg := (seg c)(index := selector)\<rparr>"

definition write_seg_impl :: "nat \<Rightarrow> u16 \<Rightarrow> z286Core \<Rightarrow> bool \<times> z286Core" where
  "write_seg_impl index selector c =
     (if protected_mode c
      then (case if index = SS then ss_checks selector c else data_checks selector c of
          Inl f \<Rightarrow> (True, raise_fault f c)
        | Inr None \<Rightarrow> (False, set_seg index selector c)
        | Inr (Some d) \<Rightarrow>
            (let descriptor_type = get_full_type (mem c) d;
                 extra = (if bit descriptor_type 1 \<noteq> bit descriptor_type 3 then ATTRIBUTES_RW else ATTRIBUTES_R)
             in (False, set_seg index selector (load_descriptor index d extra (mark_accessed d c)))))
      else (False, set_seg index selector (set_descriptor_base index (push_bit 4 (ucast selector)) c)))"

section \<open>Code segments: what the transfers share\<close>

text \<open>The code descriptor is marked and cached, and CS set.\<close>

definition load_cs :: "u16 \<Rightarrow> int \<Rightarrow> nat \<Rightarrow> z286Core \<Rightarrow> z286Core" where
  "load_cs selector d descriptor_type c =
     set_seg CS selector
       (load_descriptor CS d (if bit descriptor_type 1 then ATTRIBUTES_RE else ATTRIBUTES_E) (mark_accessed d c))"

definition load_cs_real :: "u16 \<Rightarrow> z286Core \<Rightarrow> z286Core" where
  "load_cs_real selector c = set_seg CS selector (set_descriptor_base CS (push_bit 4 (ucast selector)) c)"

text \<open>The checks of a task gate and of a TSS; a task switch itself is not written in the source.\<close>

definition task_checks :: "u16 \<Rightarrow> int \<Rightarrow> nat \<Rightarrow> z286Core \<Rightarrow> fault + unit" where
  "task_checks selector d descriptor_type c =
     (if cpl c > get_dpl (mem c) d then Inl (throw_gp selector)
      else if get_dpl (mem c) d < rpl selector then Inl (throw_gp selector)
      else if \<not> is_present (mem c) d then Inl (throw_np selector)
      else if descriptor_type = DESCRIPTOR_TASK_GATE
      then (let selector = desc_segment (mem c) d in
            if selector AND 4 \<noteq> 0 then Inl (throw_np selector)
            else (case get_descriptor c selector of
                None \<Rightarrow> Inl (throw_np selector)
              | Some d \<Rightarrow>
                  if get_full_type (mem c) d \<noteq> DESCRIPTOR_TSS16 then Inl (throw_gp selector)
                  else if \<not> is_present (mem c) d then Inl (throw_np selector)
                  else Inr ()))
      else Inr ())"

text \<open>
  The checks of a call gate, in both transfers: the gate, then the code segment it names.  The
  result is the selector in the gate and the descriptor of its segment.
\<close>

definition gate_checks :: "u16 \<Rightarrow> int \<Rightarrow> z286Core \<Rightarrow> fault + u16 \<times> int" where
  "gate_checks selector d c =
     (if cpl c > get_dpl (mem c) d then Inl (throw_gp selector)
      else if get_dpl (mem c) d < rpl selector then Inl (throw_gp selector)
      else if \<not> is_present (mem c) d then Inl (throw_np selector)
      else (let selector = desc_segment (mem c) d in
            if null_selector selector then Inl (throw_gp selector)
            else (case get_descriptor c selector of
                None \<Rightarrow> Inl (throw_gp selector)
              | Some dest \<Rightarrow>
                  if \<not> is_present (mem c) dest then Inl (throw_np selector)
                  else if cpl c < get_dpl (mem c) dest then Inl (throw_gp selector)
                  else if \<not> code_segment (get_full_type (mem c) dest) then Inl (throw_gp selector)
                  else Inr (selector, dest))))"

text \<open>The checks of a code segment named by the selector itself.\<close>

definition direct_checks :: "u16 \<Rightarrow> int \<Rightarrow> nat \<Rightarrow> z286Core \<Rightarrow> fault + unit" where
  "direct_checks selector d descriptor_type c =
     (if conforming_code descriptor_type
      then if cpl c < get_dpl (mem c) d then Inl (throw_gp selector)
      else if \<not> is_present (mem c) d then Inl (throw_np selector) else Inr ()
      else if cpl c < rpl selector then Inl (throw_gp selector)
      else if cpl c \<noteq> get_dpl (mem c) d then Inl (throw_gp selector)
      else if \<not> is_present (mem c) d then Inl (throw_np selector) else Inr ())"

definition transfer_types :: "nat \<Rightarrow> bool" where
  "transfer_types t \<longleftrightarrow>
     t \<in> {DESCRIPTOR_TSS16, DESCRIPTOR_CALL_GATE16, DESCRIPTOR_TASK_GATE} \<or> code_segment t"

definition is_task :: "nat \<Rightarrow> bool" where
  "is_task t \<longleftrightarrow> t = DESCRIPTOR_TASK_GATE \<or> t = DESCRIPTOR_TSS16"

section \<open>Far jumps\<close>

text \<open>\<^verbatim>\<open>write_cs_jmp\<close>: whether it faulted, the instruction pointer, the state.\<close>

definition write_cs_jmp :: "u16 \<Rightarrow> u16 \<Rightarrow> z286Core \<Rightarrow> bool \<times> u16 \<times> z286Core" where
  "write_cs_jmp new_ip selector c =
     (if protected_mode c
      then if null_selector selector then (True, new_ip, raise_fault (throw_gp selector) c)
      else (case get_descriptor c selector of
          None \<Rightarrow> (True, new_ip, raise_fault (throw_gp selector) c)
        | Some d \<Rightarrow>
           (let t = get_full_type (mem c) d in
            if \<not> transfer_types t then (True, new_ip, raise_fault (throw_gp selector) c)
            else if is_task t
            then (case task_checks selector d t c of
                Inl f \<Rightarrow> (True, new_ip, raise_fault f c)
              | Inr _ \<Rightarrow> (False, new_ip, c))
            else if t = DESCRIPTOR_CALL_GATE16
            then (case gate_checks selector d c of
                Inl f \<Rightarrow> (True, new_ip, raise_fault f c)
              | Inr (selector, dest) \<Rightarrow>
                 (let t = get_full_type (mem c) dest in
                  if \<not> conforming_code t \<and> get_dpl (mem c) dest \<noteq> cpl c
                  then (True, new_ip, raise_fault (throw_gp selector) c)
                  else (False, desc_ip (mem c) d, load_cs (with_rpl selector (cpl c)) dest t c)))
            else (case direct_checks selector d t c of
                Inl f \<Rightarrow> (True, new_ip, raise_fault f c)
              | Inr _ \<Rightarrow> (False, new_ip, load_cs (with_rpl selector (cpl c)) d t c))))
      else (False, new_ip, load_cs_real selector c))"

definition jmpabs286 :: "u16 \<Rightarrow> z286Core \<Rightarrow> z286Core" where
  "jmpabs286 new_ip c = c\<lparr>rip := new_ip\<rparr>"

definition JMPFABS_impl :: "u16 \<Rightarrow> u16 \<Rightarrow> z286Core \<Rightarrow> bool \<times> z286Core" where
  "JMPFABS_impl new_ip new_cs c =
     (case write_cs_jmp new_ip new_cs c of
        (False, full_ip, c) \<Rightarrow> (False, jmpabs286 full_ip c)
      | (True, full_ip, c) \<Rightarrow> (True, c))"

section \<open>The stack of an inner privilege level\<close>

definition tss_stack :: "z286Core \<Rightarrow> nat \<Rightarrow> u16 \<times> u16" where
  "tss_stack c level =
     (let tss = mem_ptr (mem c) (uint (base (descriptors c TSS)))
      in (ptr_read (mem c) (tss + 2 + 4 * int level), ptr_read (mem c) (tss + 4 + 4 * int level)))"

definition gate_tss_checks :: "nat \<Rightarrow> u16 \<Rightarrow> z286Core \<Rightarrow> fault + int" where
  "gate_tss_checks new_dpl selector c =
     (if null_selector selector then Inl (throw_ts selector)
      else if new_dpl \<noteq> rpl selector then Inl (throw_ts selector)
      else (case get_descriptor c selector of
          None \<Rightarrow> Inl (throw_ts selector)
        | Some d \<Rightarrow>
            if new_dpl \<noteq> get_dpl (mem c) d then Inl (throw_ts selector)
            else if \<not> is_valid_for_stack (mem c) d then Inl (throw_ts selector)
            else if \<not> is_present (mem c) d then Inl (throw_ss selector)
            else Inr d))"

definition load_stack :: "nat \<Rightarrow> u16 \<Rightarrow> u16 \<Rightarrow> int \<Rightarrow> z286Core \<Rightarrow> z286Core" where
  "load_stack new_dpl new_sp selector d c =
     (let c = set_privilege_level new_dpl c;
          c = mark_accessed d c;
          c = load_descriptor SS d ATTRIBUTES_RW c;
          c = c\<lparr>gpr := (gpr c)(SP := new_sp)\<rparr>
      in set_seg SS selector c)"

text \<open>The change to the stack that the TSS names for an inner level.\<close>

definition enter_stack :: "nat \<Rightarrow> z286Core \<Rightarrow> fault + z286Core" where
  "enter_stack new_dpl c =
     (let (new_sp, selector) = tss_stack c new_dpl
      in case gate_tss_checks new_dpl selector c of
           Inl f \<Rightarrow> Inl f
         | Inr d \<Rightarrow> Inr (load_stack new_dpl new_sp selector d c))"

definition push_old_stack :: "z286Core \<Rightarrow> z286Core \<Rightarrow> z286Core" where
  "push_old_stack old c = push286 (gpr old SP) (push286 (seg old SS) c)"

section \<open>Far calls\<close>

definition write_cs_call :: "u16 \<Rightarrow> u16 \<Rightarrow> z286Core \<Rightarrow> bool \<times> u16 \<times> z286Core" where
  "write_cs_call new_ip selector c =
     (if protected_mode c
      then if null_selector selector then (True, new_ip, raise_fault (throw_gp selector) c)
      else (case get_descriptor c selector of
          None \<Rightarrow> (True, new_ip, raise_fault (throw_gp selector) c)
        | Some d \<Rightarrow>
           (let t = get_full_type (mem c) d in
            if \<not> transfer_types t then (True, new_ip, raise_fault (throw_gp selector) c)
            else if is_task t
            then (case task_checks selector d t c of
                Inl f \<Rightarrow> (True, new_ip, raise_fault f c)
              | Inr _ \<Rightarrow> (False, new_ip, c))
            else if t = DESCRIPTOR_CALL_GATE16
            then (case gate_checks selector d c of
                Inl f \<Rightarrow> (True, new_ip, raise_fault f c)
              | Inr (selector, dest) \<Rightarrow>
                 (let t = get_full_type (mem c) dest;
                      new_dpl = get_dpl (mem c) dest;
                      inner = (\<not> conforming_code t \<and> new_dpl < cpl c)
                  in case if inner then enter_stack new_dpl c else Inr c of
                       Inl f \<Rightarrow> (True, new_ip, raise_fault f c)
                     | Inr c' \<Rightarrow>
                        (let gate_ip = desc_ip (mem c') d;
                             c' = (if inner then push_old_stack c c' else c')
                         in (False, gate_ip, load_cs (with_rpl selector (cpl c')) d t c'))))
            else (case direct_checks selector d t c of
                Inl f \<Rightarrow> (True, new_ip, raise_fault f c)
              | Inr _ \<Rightarrow> (False, new_ip, load_cs (with_rpl selector (cpl c)) d t c))))
      else (False, new_ip, load_cs_real selector c))"

definition CALLFABS_impl :: "u16 \<Rightarrow> u16 \<Rightarrow> u16 \<Rightarrow> z286Core \<Rightarrow> bool \<times> z286Core" where
  "CALLFABS_impl next_ip new_ip new_cs c =
     (let old_cs = seg c CS
      in case write_cs_call new_ip new_cs c of
           (False, full_ip, c) \<Rightarrow> (False, jmpabs286 full_ip (push286 next_ip (push286 old_cs c)))
         | (True, full_ip, c) \<Rightarrow> (True, c))"

section \<open>Far returns\<close>

text \<open>The checks of the code segment that RET and IRET return to, but for its presence.\<close>

definition return_checks :: "u16 \<Rightarrow> z286Core \<Rightarrow> fault + int" where
  "return_checks selector c =
     (if null_selector selector then Inl (throw_gp selector)
      else if cpl c > rpl selector then Inl (throw_gp selector)
      else (case get_descriptor c selector of
          None \<Rightarrow> Inl (throw_gp selector)
        | Some d \<Rightarrow>
           (let t = get_full_type (mem c) d; new_dpl = get_dpl (mem c) d in
            if \<not> code_segment t then Inl (throw_gp selector)
            else if conforming_code t
            then if new_dpl > rpl selector then Inl (throw_gp selector) else Inr d
            else if new_dpl \<noteq> rpl selector then Inl (throw_gp selector) else Inr d)))"

text \<open>A return to an outer level takes the stack from the stack, after \<^verbatim>\<open>imm\<close> bytes.\<close>

definition outer_stack_checks :: "nat \<Rightarrow> u16 \<Rightarrow> z286Core \<Rightarrow> fault + int" where
  "outer_stack_checks level selector c =
     (if null_selector selector then Inl (throw_gp selector)
      else if level \<noteq> rpl selector then Inl (throw_gp selector)
      else (case get_descriptor c selector of
          None \<Rightarrow> Inl (throw_gp selector)
        | Some d \<Rightarrow>
            if level \<noteq> get_dpl (mem c) d then Inl (throw_gp selector)
            else if \<not> is_valid_for_stack (mem c) d then Inl (throw_gp selector)
            else if \<not> is_present (mem c) d then Inl (throw_ss selector)
            else Inr d))"

definition add_sp :: "u16 \<Rightarrow> z286Core \<Rightarrow> z286Core" where
  "add_sp imm c = c\<lparr>gpr := (gpr c)(SP := gpr c SP + imm)\<rparr>"

definition return_stack :: "nat \<Rightarrow> u16 \<Rightarrow> z286Core \<Rightarrow> bool \<times> z286Core" where
  "return_stack level imm c =
     (let c = add_sp imm c;
          (new_sp, c) = pop286 c;
          (selector, c) = pop286 c
      in case outer_stack_checks level selector c of
           Inl f \<Rightarrow> (True, raise_fault f c)
         | Inr d \<Rightarrow> (False, load_stack (get_dpl (mem c) d) new_sp selector d c))"

definition write_cs_ret :: "u16 \<Rightarrow> u16 \<Rightarrow> z286Core \<Rightarrow> bool \<times> z286Core" where
  "write_cs_ret selector imm c =
     (if protected_mode c
      then (case return_checks selector c of
          Inl f \<Rightarrow> (True, raise_fault f c)
        | Inr d \<Rightarrow>
            if \<not> is_present (mem c) d then (True, raise_fault (throw_np selector) c)
            else (let t = get_full_type (mem c) d;
                      (faulted, c) = (if cpl c < rpl selector then return_stack (rpl selector) imm c else (False, c))
                  in if faulted then (True, c)
                     else (False, load_cs selector d t (add_sp imm c))))
      else (False, set_seg CS selector (add_sp imm (set_descriptor_base CS (push_bit 4 (ucast selector)) c))))"

definition RETFI_impl :: "u16 \<Rightarrow> z286Core \<Rightarrow> bool \<times> z286Core" where
  "RETFI_impl imm c =
     (let (new_ip, c) = pop286 c;
          (new_cs, c) = pop286 c
      in case write_cs_ret new_cs imm c of
           (False, c) \<Rightarrow> (False, jmpabs286 new_ip c)
         | (True, c) \<Rightarrow> (True, c))"

definition write_cs_iret :: "u16 \<Rightarrow> u16 \<Rightarrow> z286Core \<Rightarrow> bool \<times> z286Core" where
  "write_cs_iret selector flags c =
     (if protected_mode c
      then if \<not> nested_task c
           then (case return_checks selector c of
               Inl f \<Rightarrow> (True, raise_fault f c)
             | Inr d \<Rightarrow>
                (let t = get_full_type (mem c) d;
                     (faulted, c) = (if cpl c < rpl selector then return_stack (rpl selector) 0 c else (False, c))
                 in if faulted then (True, c)
                    else (False, load_cs selector d t (set_flags286 False flags c))))
           else (False, set_seg CS selector c)
      else (False, set_seg CS selector
              (set_flags286 False flags (set_descriptor_base CS (push_bit 4 (ucast selector)) c))))"

definition IRET286 :: "z286Core \<Rightarrow> bool \<times> z286Core" where
  "IRET286 c =
     (let (new_ip, c) = pop286 c;
          (new_cs, c) = pop286 c;
          (new_flags, c) = pop286 c
      in case write_cs_iret new_cs new_flags c of
           (False, c) \<Rightarrow> (False, jmpabs286 new_ip c)
         | (True, c) \<Rightarrow> (True, c))"

end
