(* ===== verification/Z286_Interrupt.thy ===== *)
theory Z286_Interrupt
  imports Z286_Segments
begin

text \<open>
  Interrupts of the 80286 core: \<^verbatim>\<open>int_software_interrupt\<close> for the INT instructions,
  \<^verbatim>\<open>handle_pending_interrupt\<close> for everything that is delivered between instructions, with
  the double fault it turns every failing check into, and \<^verbatim>\<open>real_mode_interrupt\<close>.  Both
  callers pass \<^verbatim>\<open>real_mode_interrupt\<close> a local variable that nothing has been assigned
  to; its value is the argument \<open>junk\<close>.
\<close>

definition real_mode_interrupt :: "u8 \<Rightarrow> z286Core \<Rightarrow> z286Core" where
  "real_mode_interrupt number c =
     (let interrupt_addr = push_bit 2 (uint (base (descriptors c IDT)) + uint number);
          c = push286 (get_flags286 c) c;
          c = c\<lparr>interrupt := False\<rparr>;
          c = c\<lparr>trap := False\<rparr>;
          c = push286 (seg c CS) c;
          c = push286 (rip c) c;
          c = c\<lparr>rip := mem_read (mem c) interrupt_addr\<rparr>;
          new_cs = mem_read (mem c) (interrupt_addr + 2)
      in set_descriptor_base CS (push_bit 4 (ucast new_cs)) (set_seg CS new_cs c))"

definition interrupt_types :: "nat \<Rightarrow> bool" where
  "interrupt_types t \<longleftrightarrow> t \<in> {DESCRIPTOR_TASK_GATE, DESCRIPTOR_INTERRUPT_GATE16, DESCRIPTOR_TRAP_GATE16}"

text \<open>The frame of a handler, and the error code behind it; \<open>ret\<close> is the return address.\<close>

definition interrupt_frame :: "u16 \<Rightarrow> u16 \<Rightarrow> z286Core \<Rightarrow> z286Core" where
  "interrupt_frame flags ret c = push286 ret (let c = push286 flags c in push286 (seg c CS) c)"

definition push_error_code :: "u8 \<Rightarrow> z286Core \<Rightarrow> z286Core" where
  "push_error_code number c =
     (if interrupt_uses_error_code number then push286 (error_code c) c else c)"

definition enter_handler :: "u16 \<Rightarrow> int \<Rightarrow> nat \<Rightarrow> z286Core \<Rightarrow> z286Core" where
  "enter_handler selector dest t c =
     (let c = c\<lparr>trap := False\<rparr>;
          c = set_seg CS (with_rpl selector (cpl c)) c;
          c = mark_accessed dest c
      in load_descriptor CS dest (if bit t 1 then ATTRIBUTES_RE else ATTRIBUTES_E) c)"

section \<open>The INT instructions\<close>

definition throw_vector :: "u8 \<Rightarrow> bool \<Rightarrow> u8 \<Rightarrow> fault" where
  "throw_vector exception is_int1 number =
     Fault exception (push_bit 3 (ucast number) OR 2 OR of_bool is_int1)"

definition throw_int :: "u8 \<Rightarrow> bool \<Rightarrow> u16 \<Rightarrow> fault" where
  "throw_int exception is_int1 selector = Fault exception ((selector AND NOT 7) OR of_bool is_int1)"

definition int_dest_checks :: "bool \<Rightarrow> u16 \<Rightarrow> z286Core \<Rightarrow> fault + int" where
  "int_dest_checks is_int1 selector c =
     (if null_selector selector then Inl (throw_int IntGP is_int1 selector)
      else (case get_descriptor c selector of
          None \<Rightarrow> Inl (throw_int IntGP is_int1 selector)
        | Some dest \<Rightarrow>
            if \<not> code_segment (get_full_type (mem c) dest) then Inl (throw_int IntGP is_int1 selector)
            else if cpl c < get_dpl (mem c) dest then Inl (throw_int IntGP is_int1 selector)
            else if \<not> is_present (mem c) dest then Inl (throw_int IntNP is_int1 selector)
            else Inr dest))"

definition int_task_checks :: "bool \<Rightarrow> u16 \<Rightarrow> z286Core \<Rightarrow> fault + unit" where
  "int_task_checks is_int1 selector c =
     (if selector AND 4 \<noteq> 0 then Inl (throw_int IntNP is_int1 selector)
      else (case get_descriptor c selector of
          None \<Rightarrow> Inl (throw_int IntNP is_int1 selector)
        | Some d \<Rightarrow>
            if get_full_type (mem c) d \<noteq> DESCRIPTOR_TSS16 then Inl (throw_int IntGP is_int1 selector)
            else if \<not> is_present (mem c) d then Inl (throw_int IntNP is_int1 selector)
            else Inr ()))"

text \<open>
  The checks of the inner stack are those of a call gate, but the error code is made by the
  labels of this function.
\<close>

fun retarget :: "bool \<Rightarrow> u16 \<Rightarrow> fault \<Rightarrow> fault" where
  "retarget is_int1 selector (Fault number code) = throw_int number is_int1 selector"

definition int_stack :: "bool \<Rightarrow> bool \<Rightarrow> nat \<Rightarrow> z286Core \<Rightarrow> fault + z286Core" where
  "int_stack is_int1 inner new_dpl c =
     (if inner
      then map_sum (retarget is_int1 (snd (tss_stack c new_dpl))) id (enter_stack new_dpl c)
      else Inr c)"

definition enter_int :: "u8 \<Rightarrow> int \<Rightarrow> u16 \<Rightarrow> int \<Rightarrow> nat \<Rightarrow> u16 \<Rightarrow> z286Core \<Rightarrow> z286Core" where
  "enter_int number gate selector dest t pc_offset c =
     (let flags = get_flags286 c;
          c = c\<lparr>rip := desc_ip (mem c) gate\<rparr>;
          c = push_error_code number (interrupt_frame flags pc_offset c)
      in enter_handler selector dest t c)"

definition int_software_interrupt :: "u16 \<Rightarrow> u16 \<Rightarrow> u8 \<Rightarrow> bool \<Rightarrow> z286Core \<Rightarrow> bool \<times> z286Core" where
  "int_software_interrupt junk pc_offset number is_int1 c =
     (if protected_mode c
      then (case get_idt_descriptor c number of
          None \<Rightarrow> (True, raise_fault (throw_vector IntGP is_int1 number) c)
        | Some gate \<Rightarrow>
           (let t = get_full_type (mem c) gate in
            if \<not> interrupt_types t then (True, raise_fault (throw_vector IntGP is_int1 number) c)
            else if \<not> is_int1 \<and> get_dpl (mem c) gate < cpl c
            then (True, raise_fault (throw_vector IntGP is_int1 number) c)
            else if \<not> is_present (mem c) gate then (True, raise_fault (throw_int IntNP is_int1 junk) c)
            else let selector = desc_segment (mem c) gate in
              if t = DESCRIPTOR_TASK_GATE
              then (case int_task_checks is_int1 selector c of
                  Inl f \<Rightarrow> (True, raise_fault f c) | Inr _ \<Rightarrow> (False, c))
              else (case int_dest_checks is_int1 selector c of
                  Inl f \<Rightarrow> (True, raise_fault f c)
                | Inr dest \<Rightarrow>
                   (let t = get_full_type (mem c) dest;
                        new_dpl = get_dpl (mem c) dest;
                        inner = (\<not> conforming_code t \<and> new_dpl < cpl c)
                    in case int_stack is_int1 inner new_dpl c of
                         Inl f \<Rightarrow> (True, raise_fault f c)
                       | Inr c' \<Rightarrow>
                           (False, enter_int number gate selector dest t pc_offset
                                     (if inner then push_old_stack c c' else c'))))))
      else (False, real_mode_interrupt (ucast junk) c))"

section \<open>Pending interrupts\<close>

text \<open>
  The checks of \<^verbatim>\<open>handle_pending_interrupt\<close>; a failing one is a double fault, so only
  success carries a value: the gate and, but for a task gate, the selector, the segment and the
  state on the stack of the handler.
\<close>

definition pending_checks :: "u8 \<Rightarrow> z286Core \<Rightarrow> (int \<times> (u16 \<times> int \<times> z286Core) option) option" where
  "pending_checks number c =
     (case get_idt_descriptor c number of
        None \<Rightarrow> None
      | Some gate \<Rightarrow>
         (let t = get_full_type (mem c) gate; selector = desc_segment (mem c) gate in
          if \<not> interrupt_types t \<or> \<not> is_present (mem c) gate then None
          else if t = DESCRIPTOR_TASK_GATE
          then (if selector AND 4 \<noteq> 0 then None
                else (case get_descriptor c selector of
                    None \<Rightarrow> None
                  | Some d \<Rightarrow>
                      if get_full_type (mem c) d \<noteq> DESCRIPTOR_TSS16 \<or> \<not> is_present (mem c) d then None
                      else Some (gate, None)))
          else if null_selector selector then None
          else (case get_descriptor c selector of
              None \<Rightarrow> None
            | Some dest \<Rightarrow>
                if \<not> code_segment (get_full_type (mem c) dest) \<or> \<not> is_present (mem c) dest then None
                else if \<not> conforming_code (get_full_type (mem c) dest) \<and> get_dpl (mem c) dest < cpl c
                then (case enter_stack (get_dpl (mem c) dest) c of
                    Inl _ \<Rightarrow> None
                  | Inr c' \<Rightarrow> Some (gate, Some (selector, dest, push_old_stack c c')))
                else Some (gate, Some (selector, dest, c)))))"

definition enter_pending :: "u8 \<Rightarrow> int \<Rightarrow> u16 \<Rightarrow> int \<Rightarrow> nat \<Rightarrow> z286Core \<Rightarrow> z286Core" where
  "enter_pending number gate selector dest t c =
     (let c = interrupt_frame (get_flags286 c) (rip c) c;
          c = c\<lparr>rip := desc_ip (mem c) gate\<rparr>;
          c = push_error_code number c
      in enter_handler selector dest t c)"

datatype delivery = Delivered z286Core | TripleFault z286Core

function handle_pending_interrupt286 :: "u16 \<Rightarrow> u8 \<Rightarrow> z286Core \<Rightarrow> delivery" where
  "handle_pending_interrupt286 junk number c =
     (if protected_mode c
      then (case pending_checks number c of
          None \<Rightarrow>
            if number = IntDF then TripleFault c
            else handle_pending_interrupt286 junk IntDF (software_interrupt_code IntDF 0 c)
        | Some (gate, None) \<Rightarrow> Delivered c
        | Some (gate, Some (selector, dest, c')) \<Rightarrow>
            Delivered (enter_pending number gate selector dest (get_full_type (mem c) dest) c'))
      else Delivered (real_mode_interrupt (ucast junk) c))"
  by pat_completeness auto

termination
  by (relation "measure (\<lambda>(_, number, _). if number = IntDF then 0 else 1)") auto

declare handle_pending_interrupt286.simps [simp del]

text \<open>\<^verbatim>\<open>z86_execute\<close> resets the core after a triple fault.\<close>

fun after_delivery :: "delivery \<Rightarrow> z286Core" where
  "after_delivery (Delivered c) = c"
| "after_delivery (TripleFault c) = RESET286 c"

end
