(* ===== verification/Z286_System.thy ===== *)
theory Z286_System
  imports Z286_Interrupt
begin

text \<open>
  The system instructions of the 80286 core: the access queries VERR, VERW, LAR and LSL, the
  loads of the task register and the local table, the machine status word and the descriptor
  tables as the groups 0F 00 and 0F 01 use them, and LOADALL and STOREALL, which copy the whole
  state from and to a frame at address 800 of the memory (\<^verbatim>\<open>z86LoadallFrame80286\<close>).
\<close>

section \<open>Access queries\<close>

definition clear_zero :: "z286Core \<Rightarrow> bool \<times> z286Core" where
  "clear_zero c = (False, c\<lparr>zero := False\<rparr>)"

definition undefined_opcode :: "z286Core \<Rightarrow> bool \<times> z286Core" where
  "undefined_opcode c = (True, c\<lparr>pending_sinterrupt := 6\<rparr>)"

text \<open>\<^verbatim>\<open>dpl < this->cpl || dpl < (selector & ~3)\<close>.\<close>

definition not_visible :: "nat \<Rightarrow> u16 \<Rightarrow> z286Core \<Rightarrow> bool" where
  "not_visible dpl selector c \<longleftrightarrow> dpl < cpl c \<or> dpl < unat (selector AND NOT 3)"

definition VERR :: "u16 \<Rightarrow> z286Core \<Rightarrow> bool \<times> z286Core" where
  "VERR selector c =
     (if protected_mode c
      then if \<not> null_selector selector
           then (case get_descriptor c selector of
               None \<Rightarrow> clear_zero c
             | Some d \<Rightarrow>
                (let t = get_full_type (mem c) d in
                 if \<not> readable_segment t then clear_zero c
                 else if \<not> conforming_code t \<and> not_visible (get_dpl (mem c) d) selector c then clear_zero c
                 else (False, c\<lparr>zero := True\<rparr>)))
           else clear_zero c
      else undefined_opcode c)"

definition VERW :: "u16 \<Rightarrow> z286Core \<Rightarrow> bool \<times> z286Core" where
  "VERW selector c =
     (if protected_mode c
      then if \<not> null_selector selector
           then (case get_descriptor c selector of
               None \<Rightarrow> clear_zero c
             | Some d \<Rightarrow>
                 if \<not> writable_data (get_full_type (mem c) d) then clear_zero c
                 else if not_visible (get_dpl (mem c) d) selector c then clear_zero c
                 else (False, c\<lparr>zero := True\<rparr>))
           else clear_zero c
      else undefined_opcode c)"

text \<open>LAR and LSL give the destination a value, or leave it.\<close>

definition query :: "(nat \<Rightarrow> bool) \<Rightarrow> (z86Memory \<Rightarrow> int \<Rightarrow> u16) \<Rightarrow> u16 \<Rightarrow> z286Core
    \<Rightarrow> bool \<times> u16 option \<times> z286Core" where
  "query allowed value selector c =
     (let no = (\<lambda>(f, c). (f, None, c)) in
      if protected_mode c
      then if \<not> null_selector selector
           then (case get_descriptor c selector of
               None \<Rightarrow> no (clear_zero c)
             | Some d \<Rightarrow>
                 if \<not> allowed (get_full_type (mem c) d) then no (clear_zero c)
                 else if not_visible (get_dpl (mem c) d) selector c then no (clear_zero c)
                 else (False, Some (value (mem c) d), c\<lparr>zero := True\<rparr>))
           else no (clear_zero c)
      else no (undefined_opcode c))"

definition LAR :: "u16 \<Rightarrow> z286Core \<Rightarrow> bool \<times> u16 option \<times> z286Core" where
  "LAR = query (\<lambda>t. t \<in> {DESCRIPTOR_TSS16, DESCRIPTOR_LDT, DESCRIPTOR_TSS16_BUSY, DESCRIPTOR_CALL_GATE16,
                           DESCRIPTOR_TASK_GATE} \<or> 0b10000 \<le> t)
           (\<lambda>m d. push_bit 8 (ucast (desc_flags1 m d)))"

definition LSL :: "u16 \<Rightarrow> z286Core \<Rightarrow> bool \<times> u16 option \<times> z286Core" where
  "LSL = query (\<lambda>t. t \<in> {DESCRIPTOR_TSS16, DESCRIPTOR_LDT, DESCRIPTOR_TSS16_BUSY} \<or> 0b10000 \<le> t) desc_limit"

section \<open>Task register and local table\<close>

definition write_tr :: "u16 \<Rightarrow> z286Core \<Rightarrow> bool \<times> z286Core" where
  "write_tr selector c =
     (if protected_mode c
      then if selector AND 4 \<noteq> 0 then (True, software_interrupt_code IntGP 0 c)
      else if selector \<le> 3 then (True, software_interrupt_code IntGP selector c)
      else (case get_gdt_descriptor c selector of
          None \<Rightarrow> (True, software_interrupt_code IntGP selector c)
        | Some d \<Rightarrow>
            if get_full_type (mem c) d \<noteq> DESCRIPTOR_TSS16 then (True, software_interrupt_code IntGP selector c)
            else if \<not> is_present (mem c) d then (True, software_interrupt_code IntNP selector c)
            else (False, load_descriptor TSS d 0 (c\<lparr>mem := set_busy d (mem c)\<rparr>)))
      else undefined_opcode c)"

definition write_ldtr :: "u16 \<Rightarrow> z286Core \<Rightarrow> bool \<times> z286Core" where
  "write_ldtr selector c =
     (if protected_mode c
      then if selector AND 4 \<noteq> 0 then (True, software_interrupt_code IntGP 0 c)
      else if selector > 3
      then (case get_gdt_descriptor c selector of
          None \<Rightarrow> (True, software_interrupt_code IntGP selector c)
        | Some d \<Rightarrow>
            if get_full_type (mem c) d \<noteq> DESCRIPTOR_LDT then (True, software_interrupt_code IntGP selector c)
            else if \<not> is_present (mem c) d then (True, software_interrupt_code IntNP selector c)
            else (False, load_descriptor LDT d 0 c))
      else (False, set_descriptor_limit LDT 0 c)
      else undefined_opcode c)"

section \<open>The groups 0F 00 and 0F 01\<close>

definition gp_without_cpl0 :: "z286Core \<Rightarrow> (bool \<times> z286Core) \<Rightarrow> bool \<times> z286Core" where
  "gp_without_cpl0 c r = (if cpl c \<noteq> 0 then (True, c\<lparr>pending_sinterrupt := 13\<rparr>) else r)"

text \<open>GRP6: SLDT, STR, LLDT, LTR, VERR, VERW; the operand is given and returned.\<close>

definition grp6 :: "nat \<Rightarrow> u16 \<Rightarrow> z286Core \<Rightarrow> u16 \<times> bool \<times> z286Core" where
  "grp6 r dst c =
     (if r = 0 \<or> r = 1 then (seg c (LDT + r), False, c)
      else if r = 2 then (dst, gp_without_cpl0 c (write_ldtr dst c))
      else if r = 3 then (dst, gp_without_cpl0 c (write_tr dst c))
      else if r = 4 then (dst, VERR dst c)
      else if r = 5 then (dst, VERW dst c)
      else (dst, undefined_opcode c))"

text \<open>
  GRP7 with a memory operand: SGDT, SIDT, LGDT, LIDT, SMSW, LMSW.  The operand is an offset in
  the segment whose cache has the given index (\<^verbatim>\<open>z86AddrImpl<16, true>\<close>).
\<close>

definition addr286 :: "z286Core \<Rightarrow> nat \<Rightarrow> u16 \<Rightarrow> u16 \<Rightarrow> int" where
  "addr286 c k off i = uint (base (descriptors c k)) + uint (off + i)"

definition grp7_mem :: "nat \<Rightarrow> nat \<Rightarrow> u16 \<Rightarrow> z286Core \<Rightarrow> bool \<times> z286Core" where
  "grp7_mem r k off c =
     (if r = 0 \<or> r = 1
      then (let m = mem_write (mem c) (addr286 c k off 0) (limit (descriptors c (GDT + r)))
            in (False, c\<lparr>mem := mem_write m (addr286 c k off 2) (base (descriptors c (GDT + r)))\<rparr>))
      else if r = 2 \<or> r = 3
      then gp_without_cpl0 c
             (False, load_descriptor_table (r - 2) (mem_read (mem c) (addr286 c k off 0))
                       (mem_read (mem c) (addr286 c k off 2) AND 0x00FFFFFF) c)
      else if r = 4 then (False, c\<lparr>mem := mem_write (mem c) (addr286 c k off 0) (msw c)\<rparr>)
      else if r = 6
      then gp_without_cpl0 c (False, set_machine_status_word (mem_read (mem c) (addr286 c k off 0)) c)
      else undefined_opcode c)"

text \<open>GRP7 with a register operand: SMSW and LMSW.\<close>

definition grp7_reg :: "nat \<Rightarrow> u16 \<Rightarrow> z286Core \<Rightarrow> u16 \<times> bool \<times> z286Core" where
  "grp7_reg r src c =
     (if r = 4 then (msw c, False, c)
      else if r = 6 then (src, False, set_machine_status_word src c)
      else (src, undefined_opcode c))"

section \<open>LOADALL and STOREALL\<close>

text \<open>\<^verbatim>\<open>make_full_attributes\<close>: the internal flags of a cache from the type of its descriptor.\<close>

definition make_full_attributes :: "bool \<Rightarrow> u8 \<Rightarrow> u16" where
  "make_full_attributes is_code attrs =
     (let t = unat (attrs AND 0b11111);
          a = ucast attrs :: u16;
          a = (if t < 0b10000 \<or> writable_data t then a OR ATTRIBUTES_RW
               else if readable_segment t then a OR ATTRIBUTES_R
               else a)
      in if is_code then a OR ATTRIBUTES_E else a)"

text \<open>A cache in the frame (\<^verbatim>\<open>z86DescriptorCache80286\<close>): \<^verbatim>\<open>fill_descriptor\<close> and its inverse.\<close>

definition fill_descriptor :: "z86DescriptorCache \<Rightarrow> int \<Rightarrow> z86Memory \<Rightarrow> z86Memory" where
  "fill_descriptor k p m =
     (let m = ptr_write (p + 3) (ucast (attributes k) :: u8) m;
          m = ptr_write p (ucast (base k) :: u16) m;
          m = ptr_write (p + 2) (ucast (drop_bit 16 (base k)) :: u8) m
      in ptr_write (p + 4) (limit k) m)"

definition frame_cache :: "bool \<Rightarrow> z86Memory \<Rightarrow> int \<Rightarrow> z86DescriptorCache" where
  "frame_cache is_code m p =
     \<lparr>base = ptr_read m p AND 0xFFFFFF, limit = ptr_read m (p + 4),
      attributes = make_full_attributes is_code (ptr_read m (p + 3))\<rparr>"

definition STOREALL :: "z286Core \<Rightarrow> z286Core" where
  "STOREALL c =
     (let p = mem_ptr (mem c) 0x800; w = (\<lambda>off (v :: u16). ptr_write (p + off) v);
          m = w 0x06 (msw c) (mem c);
          m = w 0x16 (seg c TSS) m;
          m = w 0x18 (get_flags286 c) m;
          m = w 0x1A (rip c) m;
          m = w 0x1C (seg c LDT) m;
          m = w 0x22 (seg c CS) (w 0x20 (seg c SS) (w 0x1E (seg c DS) m));
          m = w 0x24 (seg c ES) m;
          m = w 0x28 (gpr c SI) (w 0x26 (gpr c DI) m);
          m = w 0x2C (gpr c SP) (w 0x2A (gpr c BP) m);
          m = w 0x30 (gpr c DX) (w 0x2E (gpr c BX) m);
          m = w 0x34 (gpr c AX) (w 0x32 (gpr c CX) m);
          d = (\<lambda>i off. fill_descriptor (descriptors c i) (p + off));
          m = d SS 0x42 (d CS 0x3C (d ES 0x36 m));
          m = d LDT 0x54 (d GDT 0x4E (d DS 0x48 m));
          m = d TSS 0x60 (d IDT 0x5A m)
      in c\<lparr>mem := m\<rparr>)"

definition LOADALL2 :: "z286Core \<Rightarrow> z286Core" where
  "LOADALL2 c =
     (let m = mem c; p = mem_ptr m 0x800; r = (\<lambda>off. ptr_read m (p + off) :: u16);
          c = set_machine_status_word (r 0x06) c;
          c = set_seg TSS (r 0x16) c;
          c = set_flags286 True (r 0x18) c;
          c = c\<lparr>rip := r 0x1A\<rparr>;
          c = set_seg LDT (r 0x1C) c;
          c = set_seg ES (r 0x24) (set_seg CS (r 0x22) (set_seg SS (r 0x20) (set_seg DS (r 0x1E) c)));
          c = c\<lparr>gpr := (gpr c)(DI := r 0x26, SI := r 0x28, BP := r 0x2A, SP := r 0x2C, BX := r 0x2E,
                              DX := r 0x30, CX := r 0x32, AX := r 0x34)\<rparr>;
          d = (\<lambda>off. frame_cache False m (p + off));
          c = c\<lparr>descriptors := (descriptors c)(ES := d 0x36, CS := frame_cache True m (p + 0x3C))\<rparr>;
          c = set_privilege_level (unat (drop_bit 5 (ptr_read m (p + 0x45) AND 0b1100000 :: u8))) c
      in c\<lparr>descriptors := (descriptors c)(SS := d 0x42, DS := d 0x48, GDT := d 0x4E, LDT := d 0x54,
                                       IDT := d 0x5A, TSS := d 0x60)\<rparr>)"

end
