(* ===== verification/Z286_Protection.thy ===== *)
theory Z286_Protection
  imports Z286_System
begin

text \<open>
  What the protected mode of the 80286 core guarantees.  The privilege level agrees with the
  selector of SS and with the cached stack descriptor, whatever segment loads, transfers and
  interrupts happen, and with the selector of CS while MOV does not load it; only gates lower the level; a load or transfer that faults changes
  nothing but the posted exception.  The last sections state what the code does where it does
  not protect.
\<close>

section \<open>The fields an operation touches\<close>

lemma raise_fault_code: "raise_fault f c = software_interrupt_code (case f of Fault n e \<Rightarrow> n) (case f of Fault n e \<Rightarrow> e) c"
  by (cases f) simp

lemma raise_fault_sel [simp]:
  "cpl (raise_fault f c) = cpl c" "seg (raise_fault f c) = seg c" "msw (raise_fault f c) = msw c"
  "descriptors (raise_fault f c) = descriptors c" "mem (raise_fault f c) = mem c"
  "nested_task (raise_fault f c) = nested_task c" "gpr (raise_fault f c) = gpr c"
  by (cases f; simp add: software_interrupt_code_def)+

lemma small_ops_sel [simp]:
  "cpl (set_seg i s c) = cpl c" "msw (set_seg i s c) = msw c" "descriptors (set_seg i s c) = descriptors c"
  "seg (set_seg i s c) = (seg c)(i := s)" "nested_task (set_seg i s c) = nested_task c"
  "mem (set_seg i s c) = mem c"
  "cpl (mark_accessed d c) = cpl c" "msw (mark_accessed d c) = msw c" "seg (mark_accessed d c) = seg c"
  "descriptors (mark_accessed d c) = descriptors c" "mem (mark_accessed d c) = set_accessed d (mem c)"
  "nested_task (mark_accessed d c) = nested_task c"
  "cpl (load_descriptor i d x c) = cpl c" "msw (load_descriptor i d x c) = msw c"
  "seg (load_descriptor i d x c) = seg c" "mem (load_descriptor i d x c) = mem c"
  "nested_task (load_descriptor i d x c) = nested_task c"
  "descriptors (load_descriptor i d x c) = (descriptors c)(i := cache_of (mem c) d x)"
  by (simp_all add: set_seg_def mark_accessed_def load_descriptor_def)

lemma stack_ops_sel [simp]:
  "cpl (push286 v c) = cpl c" "msw (push286 v c) = msw c" "seg (push286 v c) = seg c"
  "descriptors (push286 v c) = descriptors c" "nested_task (push286 v c) = nested_task c"
  "cpl (snd (pop286 c)) = cpl c" "msw (snd (pop286 c)) = msw c" "seg (snd (pop286 c)) = seg c"
  "descriptors (snd (pop286 c)) = descriptors c" "nested_task (snd (pop286 c)) = nested_task c"
  "mem (snd (pop286 c)) = mem c"
  "cpl (add_sp v c) = cpl c" "msw (add_sp v c) = msw c" "seg (add_sp v c) = seg c"
  "descriptors (add_sp v c) = descriptors c" "nested_task (add_sp v c) = nested_task c" "mem (add_sp v c) = mem c"
  "cpl (set_flags286 b w c) = cpl c" "msw (set_flags286 b w c) = msw c" "seg (set_flags286 b w c) = seg c"
  "descriptors (set_flags286 b w c) = descriptors c" "nested_task (set_flags286 b w c) = nested_task c"
  "mem (set_flags286 b w c) = mem c"
  "cpl (jmpabs286 v c) = cpl c" "msw (jmpabs286 v c) = msw c" "seg (jmpabs286 v c) = seg c"
  "descriptors (jmpabs286 v c) = descriptors c" "nested_task (jmpabs286 v c) = nested_task c"
  by (simp_all add: push286_def pop286_def add_sp_def set_flags286_def jmpabs286_def Let_def)

lemma load_stack_sel [simp]:
  "cpl (load_stack l sp s d c) = l" "msw (load_stack l sp s d c) = msw c"
  "seg (load_stack l sp s d c) = (seg c)(SS := s)" "nested_task (load_stack l sp s d c) = nested_task c"
  "mem (load_stack l sp s d c) = set_accessed d (mem c)"
  "descriptors (load_stack l sp s d c) =
     (descriptors c)(SS := cache_of (set_accessed d (mem c)) d ATTRIBUTES_RW)"
  by (simp_all add: load_stack_def set_privilege_level_def Let_def)

lemma load_cs_sel [simp]:
  "cpl (load_cs s d t c) = cpl c" "msw (load_cs s d t c) = msw c" "seg (load_cs s d t c) = (seg c)(CS := s)"
  "nested_task (load_cs s d t c) = nested_task c"
  "descriptors (load_cs s d t c) = (descriptors c)(CS :=
     cache_of (set_accessed d (mem c)) d (if bit t 1 then ATTRIBUTES_RE else ATTRIBUTES_E))"
  by (simp_all add: load_cs_def)

lemma push_old_stack_sel [simp]:
  "cpl (push_old_stack o' c) = cpl c" "msw (push_old_stack o' c) = msw c" "seg (push_old_stack o' c) = seg c"
  "descriptors (push_old_stack o' c) = descriptors c" "nested_task (push_old_stack o' c) = nested_task c"
  by (simp_all add: push_old_stack_def)

lemma enter_handler_sel [simp]:
  "cpl (enter_handler s d t c) = cpl c" "msw (enter_handler s d t c) = msw c"
  "seg (enter_handler s d t c) = (seg c)(CS := with_rpl s (cpl c))"
  "descriptors (enter_handler s d t c) = (descriptors c)(CS :=
     cache_of (set_accessed d (mem c)) d (if bit t 1 then ATTRIBUTES_RE else ATTRIBUTES_E))"
  by (simp_all add: enter_handler_def Let_def)

lemma interrupt_frame_sel [simp]:
  "cpl (interrupt_frame f r c) = cpl c" "msw (interrupt_frame f r c) = msw c" "seg (interrupt_frame f r c) = seg c"
  "descriptors (interrupt_frame f r c) = descriptors c"
  "cpl (push_error_code n c) = cpl c" "msw (push_error_code n c) = msw c" "seg (push_error_code n c) = seg c"
  "descriptors (push_error_code n c) = descriptors c"
  by (simp_all add: interrupt_frame_def push_error_code_def Let_def)

section \<open>Levels in selectors and caches\<close>

lemma unat_low_bits: "2 \<le> LENGTH('a) \<Longrightarrow> unat (w AND 3 :: 'a::len word) = unat w mod 4"
proof -
  have "w AND 3 = take_bit 2 w" by (simp add: take_bit_eq_mask mask_numeral)
  then show ?thesis by (simp add: unsigned_take_bit_eq) (simp add: take_bit_eq_mod)
qed

lemma rpl_le_3: "rpl s \<le> 3"
  by (simp add: rpl_def unat_low_bits)

lemma get_dpl_le_3: "get_dpl m d \<le> 3"
  by (simp add: get_dpl_def unat_low_bits)

lemma clear_set_low: "((s AND NOT k) OR x) AND k = x AND (k :: 'a::len word)"
  by (rule bit_word_eqI) (auto simp: bit_simps)

lemma rpl_with_rpl [simp]: "l \<le> 3 \<Longrightarrow> rpl (with_rpl s l) = l"
proof -
  assume "l \<le> 3"
  then have l: "l \<in> set [0, 1, 2, 3]" by auto
  have "with_rpl s l AND 3 = of_nat l AND 3"
    unfolding with_rpl_def by (rule clear_set_low)
  then show ?thesis using l by (auto simp: rpl_def)
qed

lemma ptr_read_write8 [simp]: "(ptr_read (ptr_write p v m) p :: u8) = v"
  by (simp add: ptr_read_def ptr_write_def mem_size_def read_bytes_def word_to_le_def)

lemma desc_flags1_accessed: "desc_flags1 (set_accessed d m) d = desc_flags1 m d OR 1"
  unfolding desc_flags1_def set_accessed_def by simp

lemma cache_dpl_of:
  assumes "drop_bit 5 x AND 3 = 0"
  shows "cache_dpl (cache_of m d x) = get_dpl m d"
proof -
  have "drop_bit 5 (ucast f OR x) AND 3 = (ucast (drop_bit 5 f AND 3) :: u16)" for f :: u8
  proof -
    have "drop_bit 5 (ucast f OR x) AND 3 = drop_bit 5 (ucast f) AND 3 OR (drop_bit 5 x AND 3)"
      by (simp only: drop_bit_or bit.conj_disj_distrib2)
    also have "\<dots> = drop_bit 5 (ucast f) AND 3" using assms by simp
    also have "\<dots> = ucast (drop_bit 5 f AND 3)"
      by (rule bit_word_eqI) (auto simp: bit_simps bit_ucast_word dest: bit_imp_le_length)
    finally show ?thesis .
  qed
  then show ?thesis
    using get_dpl_le_3 [of m d]
    by (simp add: cache_dpl_def cache_of_def desc_attributes_def get_dpl_def unsigned_ucast_eq take_bit_nat_eq_self)
qed

lemma get_dpl_accessed [simp]: "get_dpl (set_accessed d m) d = get_dpl m d"
  unfolding get_dpl_def desc_flags1_accessed by (simp add: drop_bit_or)

lemma cache_dpl_stack [simp]:
  "cache_dpl (cache_of (set_accessed d m) d ATTRIBUTES_RW) = get_dpl m d"
  by (subst cache_dpl_of) (simp_all add: attribute_defs)

lemma cache_dpl_data:
  "cache_dpl (cache_of (set_accessed d m) d (if b then ATTRIBUTES_RW else ATTRIBUTES_R)) = get_dpl m d"
  by (subst cache_dpl_of) (simp_all add: attribute_defs)

lemma cache_dpl_data_cases:
  "cache_dpl (cache_of (set_accessed d m) d ATTRIBUTES_RW) = get_dpl m d"
  "cache_dpl (cache_of (set_accessed d m) d ATTRIBUTES_R) = get_dpl m d"
  using cache_dpl_data [where b = True] cache_dpl_data [where b = False] by simp_all

section \<open>What the checks ensure\<close>

lemma ss_checks_Inr:
  "ss_checks s c = Inr x \<Longrightarrow>
     \<exists>d. x = Some d \<and> get_descriptor c s = Some d \<and> rpl s = cpl c \<and> get_dpl (mem c) d = cpl c
       \<and> writable_data (get_full_type (mem c) d) \<and> is_present (mem c) d"
  by (auto simp: ss_checks_def split: if_splits option.splits)

lemma gate_tss_checks_Inr:
  "gate_tss_checks l s c = Inr d \<Longrightarrow> rpl s = l \<and> get_dpl (mem c) d = l \<and> is_present (mem c) d"
  by (auto simp: gate_tss_checks_def split: if_splits option.splits)

lemma outer_stack_checks_Inr:
  "outer_stack_checks l s c = Inr d \<Longrightarrow> rpl s = l \<and> get_dpl (mem c) d = l \<and> is_present (mem c) d"
  by (auto simp: outer_stack_checks_def split: if_splits option.splits)

lemma return_checks_Inr:
  "return_checks s c = Inr d \<Longrightarrow> cpl c \<le> rpl s \<and> code_segment (get_full_type (mem c) d)"
  by (auto simp: return_checks_def Let_def split: if_splits option.splits)

section \<open>The invariant of the privilege level\<close>

text \<open>
  The first argument says whether the selector of CS is to agree too: MOV loads CS like a data
  segment register, with any selector the checks of data allow.
\<close>

definition level_ok :: "bool \<Rightarrow> z286Core \<Rightarrow> bool" where
  "level_ok cs c \<longleftrightarrow> protected_mode c \<and> cpl c \<le> 3 \<and> (cs \<longrightarrow> rpl (seg c CS) = cpl c)
     \<and> rpl (seg c SS) = cpl c \<and> cache_dpl (descriptors c SS) = cpl c"

lemma level_ok_cong:
  "msw c' = msw c \<Longrightarrow> cpl c' = cpl c \<Longrightarrow> rpl (seg c' CS) = rpl (seg c CS) \<Longrightarrow> seg c' SS = seg c SS
     \<Longrightarrow> descriptors c' SS = descriptors c SS \<Longrightarrow> level_ok cs c' = level_ok cs c"
  by (simp add: level_ok_def protected_mode_def)

lemma level_ok_raise [simp]: "level_ok cs (raise_fault f c) = level_ok cs c"
  by (rule level_ok_cong) simp_all

lemma level_ok_ops [simp]:
  "level_ok cs (push286 v c) = level_ok cs c" "level_ok cs (snd (pop286 c)) = level_ok cs c"
  "level_ok cs (add_sp v c) = level_ok cs c" "level_ok cs (set_flags286 b w c) = level_ok cs c"
  "level_ok cs (jmpabs286 v c) = level_ok cs c" "level_ok cs (push_old_stack o' c) = level_ok cs c"
  "level_ok cs (interrupt_frame f r c) = level_ok cs c" "level_ok cs (push_error_code n c) = level_ok cs c"
  "level_ok cs (c\<lparr>rip := v\<rparr>) = level_ok cs c" "level_ok cs (mark_accessed d c) = level_ok cs c"
  by (rule level_ok_cong; simp)+

lemma level_ok_load_stack:
  assumes "level_ok cs c" "l \<le> 3" "rpl s = l" "get_dpl (mem c) d = l"
  shows "protected_mode (load_stack l sp s d c) \<and> rpl (seg (load_stack l sp s d c) SS) = l
    \<and> cache_dpl (descriptors (load_stack l sp s d c) SS) = l"
  using assms by (simp add: level_ok_def protected_mode_def)

lemma level_ok_load_cs:
  "protected_mode c \<Longrightarrow> cpl c \<le> 3 \<Longrightarrow> rpl (seg c SS) = cpl c \<Longrightarrow> cache_dpl (descriptors c SS) = cpl c
     \<Longrightarrow> rpl s = cpl c \<Longrightarrow> level_ok cs (load_cs s d t c)"
  by (simp add: level_ok_def protected_mode_def)

lemma level_ok_load_cs_same: "level_ok cs c \<Longrightarrow> rpl s = cpl c \<Longrightarrow> level_ok cs (load_cs s d t c)"
  by (simp add: level_ok_def protected_mode_def)

lemma level_ok_write_seg:
  assumes "level_ok cs c" "cs \<longrightarrow> i \<noteq> CS"
  shows "level_ok cs (snd (write_seg_impl i s c))"
proof -
  have prot: "protected_mode c" using assms by (simp add: level_ok_def)
  show ?thesis
  proof (cases "i = SS")
    case True
    then show ?thesis using assms prot
      by (auto simp: write_seg_impl_def Let_def level_ok_def protected_mode_def cache_dpl_data
          split: sum.splits option.splits dest!: ss_checks_Inr)
  next
    case False
    then show ?thesis using assms prot
      by (auto simp: write_seg_impl_def Let_def level_ok_def protected_mode_def
          split: sum.splits option.splits)
  qed
qed

lemma level_ok_jmp: "level_ok cs c \<Longrightarrow> level_ok cs (snd (snd (write_cs_jmp ip s c)))"
  by (auto simp: write_cs_jmp_def Let_def level_ok_load_cs_same level_ok_def [of cs c]
      split: option.split sum.split)

lemma enter_stack_Inr:
  assumes "enter_stack l c = Inr c'" "protected_mode c"
  shows "cpl c' = l \<and> protected_mode c' \<and> rpl (seg c' SS) = l \<and> cache_dpl (descriptors c' SS) = l
    \<and> seg c' CS = seg c CS \<and> msw c' = msw c"
  using assms
  by (auto simp: enter_stack_def protected_mode_def split: prod.splits sum.splits dest!: gate_tss_checks_Inr)

lemma level_ok_call: "level_ok cs c \<Longrightarrow> level_ok cs (snd (snd (write_cs_call ip s c)))"
  by (auto simp: write_cs_call_def Let_def level_ok_load_cs_same level_ok_def [of cs c] get_dpl_le_3 protected_mode_def
      intro!: level_ok_load_cs dest!: enter_stack_Inr
      split: option.split sum.split if_splits)

lemma snd_if_pair: "snd (if b then (x, y) else (x', y')) = (if b then y else y')"
  by simp

lemma return_stack_ok:
  assumes "return_stack l imm c = (False, c')" "protected_mode c" "l \<le> 3"
  shows "cpl c' = l \<and> protected_mode c' \<and> rpl (seg c' SS) = l \<and> cache_dpl (descriptors c' SS) = l"
  using assms
  by (auto simp: return_stack_def Let_def protected_mode_def split: prod.splits sum.splits
      dest!: outer_stack_checks_Inr) (metis stack_ops_sel snd_conv)+

lemma return_stack_fault:
  assumes "return_stack l imm c = (True, c')" "level_ok cs c"
  shows "level_ok cs c' \<and> cpl c' = cpl c"
  using assms
  by (auto simp: return_stack_def Let_def split: prod.splits sum.splits)
    (metis level_ok_ops(2,3) stack_ops_sel snd_conv)+

lemma level_ok_ret:
  assumes "level_ok cs c"
  shows "level_ok cs (snd (write_cs_ret s imm c))"
  using assms [unfolded level_ok_def] assms
  by (auto simp: write_cs_ret_def Let_def rpl_le_3 protected_mode_def
      dest!: return_checks_Inr return_stack_ok [OF _ _ rpl_le_3]
      dest: return_stack_fault [OF _ assms, THEN conjunct1]
      intro!: level_ok_load_cs
      split: option.split sum.split prod.splits if_splits)

lemma level_ok_iret:
  assumes "level_ok cs c" "\<not> nested_task c"
  shows "level_ok cs (snd (write_cs_iret s fl c))"
  using assms(1) [unfolded level_ok_def] assms
  by (auto simp: write_cs_iret_def Let_def rpl_le_3 protected_mode_def
      dest!: return_checks_Inr return_stack_ok [OF _ _ rpl_le_3]
      dest: return_stack_fault [OF _ assms(1), THEN conjunct1]
      intro!: level_ok_load_cs
      split: option.split sum.split prod.splits if_splits)

lemma case_pair_snd: "(case x of (f, c) \<Rightarrow> g f c) = g (fst x) (snd x)"
  by (simp add: split_beta)

lemma level_ok_transfers:
  assumes "level_ok cs c"
  shows "level_ok cs (snd (JMPFABS_impl ip s c))" "level_ok cs (snd (CALLFABS_impl nx ip s c))"
    "level_ok cs (snd (RETFI_impl imm c))" "\<not> nested_task c \<Longrightarrow> level_ok cs (snd (IRET286 c))"
proof -
  show "level_ok cs (snd (JMPFABS_impl ip s c))"
    using level_ok_jmp [OF assms, of ip s] by (auto simp: JMPFABS_impl_def split: prod.splits bool.splits)
  show "level_ok cs (snd (CALLFABS_impl nx ip s c))"
    using level_ok_call [OF assms, of ip s] by (auto simp: CALLFABS_impl_def Let_def split: prod.splits bool.splits)
  show "level_ok cs (snd (RETFI_impl imm c))"
    using level_ok_ret [of cs "snd (pop286 (snd (pop286 c)))"] assms
    by (auto simp: RETFI_impl_def Let_def split_beta split: bool.splits)
  show "level_ok cs (snd (IRET286 c))" if "\<not> nested_task c"
    using level_ok_iret [of cs "snd (pop286 (snd (pop286 (snd (pop286 c)))))"] assms that
    by (auto simp: IRET286_def Let_def split_beta split: bool.splits)
qed

lemma level_ok_enter_handler:
  "protected_mode c \<Longrightarrow> cpl c \<le> 3 \<Longrightarrow> rpl (seg c SS) = cpl c \<Longrightarrow> cache_dpl (descriptors c SS) = cpl c
     \<Longrightarrow> level_ok cs (enter_handler s d t c)"
  by (simp add: level_ok_def protected_mode_def)

lemma int_stack_Inr:
  assumes "int_stack b inner l c = Inr c'" "level_ok cs c" "l \<le> 3"
  shows "cpl c' = (if inner then l else cpl c) \<and> bit (msw c') 0 \<and> cpl c' \<le> 3 \<and> rpl (seg c' SS) = cpl c'
    \<and> cache_dpl (descriptors c' SS) = cpl c'"
proof (cases inner)
  case True
  then obtain "enter_stack l c = Inr c'"
    using assms(1) by (cases "enter_stack l c") (auto simp: int_stack_def)
  then show ?thesis using enter_stack_Inr assms True by (auto simp: level_ok_def protected_mode_def)
next
  case False
  then show ?thesis using assms by (auto simp: int_stack_def level_ok_def protected_mode_def)
qed

lemma level_ok_enter_int:
  assumes "int_stack b inner (get_dpl m d) c = Inr c'" "level_ok cs c"
  shows "level_ok cs (enter_int n gate s dest t ret (if inner then push_old_stack c c' else c'))"
  using int_stack_Inr [OF assms get_dpl_le_3]
  by (auto simp: enter_int_def Let_def protected_mode_def intro!: level_ok_enter_handler)

lemma level_ok_int:
  assumes "level_ok cs c"
  shows "level_ok cs (snd (int_software_interrupt junk ret n i1 c))"
proof -
  have p: "protected_mode c" using assms by (simp add: level_ok_def)
  show ?thesis
    unfolding int_software_interrupt_def Let_def if_P [OF p]
    by (simp add: assms level_ok_enter_int [OF _ assms] split: option.split sum.split)
qed

lemma pending_checks_Some:
  assumes "pending_checks n c = Some (gate, Some (s, dest, c'))" "level_ok cs c"
  shows "bit (msw c') 0 \<and> cpl c' \<le> 3 \<and> cpl c' \<le> cpl c \<and> rpl (seg c' SS) = cpl c' \<and> cache_dpl (descriptors c' SS) = cpl c'
    \<and> (cpl c' = cpl c \<or> cpl c' = get_dpl (mem c) dest)"
  using assms
  by (auto simp: pending_checks_def Let_def level_ok_def protected_mode_def split: option.splits if_splits sum.splits
      dest!: enter_stack_Inr)

lemma level_ok_enter_pending:
  "protected_mode c \<Longrightarrow> cpl c \<le> 3 \<Longrightarrow> rpl (seg c SS) = cpl c \<Longrightarrow> cache_dpl (descriptors c SS) = cpl c
     \<Longrightarrow> level_ok cs (enter_pending n gate s dest t c)"
  by (simp add: enter_pending_def Let_def protected_mode_def level_ok_enter_handler)

lemma level_ok_code [simp]: "level_ok cs (software_interrupt_code n e c) = level_ok cs c"
  by (rule level_ok_cong) (simp_all add: software_interrupt_code_def)

lemma level_ok_pending:
  "level_ok cs c \<Longrightarrow> (case handle_pending_interrupt286 junk n c of Delivered c' \<Rightarrow> level_ok cs c' | TripleFault c' \<Rightarrow> level_ok cs c')"
proof (induction junk n c rule: handle_pending_interrupt286.induct)
  case (1 junk number c)
  have p: "protected_mode c" using 1(2) by (simp add: level_ok_def)
  show ?case
  proof (cases "pending_checks number c")
    case None
    then show ?thesis using 1 p by (subst handle_pending_interrupt286.simps) simp
  next
    case (Some r)
    then show ?thesis
      using 1(2) p pending_checks_Some [of number c]
      by (subst handle_pending_interrupt286.simps)
         (auto intro!: level_ok_enter_pending simp: protected_mode_def split: prod.split option.split)
  qed
qed

section \<open>Steps of the core in protected mode\<close>

lemma level_ok_undefined [simp]:
  "level_ok cs (snd (undefined_opcode c)) = level_ok cs c" "level_ok cs (snd (clear_zero c)) = level_ok cs c"
  "level_ok cs (c\<lparr>zero := z\<rparr>) = level_ok cs c" "level_ok cs (c\<lparr>mem := m\<rparr>) = level_ok cs c"
  "level_ok cs (c\<lparr>pending_sinterrupt := i\<rparr>) = level_ok cs c"
  by (rule level_ok_cong; simp add: undefined_opcode_def clear_zero_def)+

lemma level_ok_caches [simp]:
  "i \<noteq> SS \<Longrightarrow> level_ok cs (load_descriptor i d x c) = level_ok cs c"
  "i \<noteq> SS \<Longrightarrow> level_ok cs (set_descriptor_limit i l c) = level_ok cs c"
  "level_ok cs (load_descriptor_table k l b c) = level_ok cs c"
  by (rule level_ok_cong; simp add: load_descriptor_def set_descriptor_limit_def load_descriptor_table_def)+

lemma level_ok_gp: "level_ok cs c \<Longrightarrow> level_ok cs (snd r) \<Longrightarrow> level_ok cs (snd (gp_without_cpl0 c r))"
  by (simp add: gp_without_cpl0_def)

lemma level_ok_grp6:
  assumes "level_ok cs c"
  shows "level_ok cs (snd (snd (grp6 r dst c)))"
proof -
  have "level_ok cs (snd (write_ldtr dst c))" "level_ok cs (snd (write_tr dst c))"
    "level_ok cs (snd (VERR dst c))" "level_ok cs (snd (VERW dst c))"
    using assms
    by (simp_all add: write_ldtr_def write_tr_def VERR_def VERW_def Let_def split: option.split)
  with assms show ?thesis by (simp add: grp6_def level_ok_gp)
qed

lemma level_ok_grp7: "level_ok cs c \<Longrightarrow> r \<noteq> 6 \<Longrightarrow> level_ok cs (snd (grp7_mem r k off c))"
  by (simp add: grp7_mem_def level_ok_gp Let_def)

text \<open>
  Besides loads, transfers, interrupts and the system groups the core only computes: such a step
  changes neither the mode and the level nor a segment register with its cache.  LMSW is a step
  while it leaves the protection enabled.  With the first argument true MOV does not load CS.
\<close>

inductive z286_step :: "bool \<Rightarrow> z286Core \<Rightarrow> z286Core \<Rightarrow> bool" for cs where
  load: "cs \<longrightarrow> i \<noteq> CS \<Longrightarrow> z286_step cs c (snd (write_seg_impl i s c))"
| jump: "z286_step cs c (snd (JMPFABS_impl ip s c))"
| call: "z286_step cs c (snd (CALLFABS_impl next_ip ip s c))"
| ret: "z286_step cs c (snd (RETFI_impl imm c))"
| iret: "\<not> nested_task c \<Longrightarrow> z286_step cs c (snd (IRET286 c))"
| int_n: "z286_step cs c (snd (int_software_interrupt junk ret n is_int1 c))"
| pending: "handle_pending_interrupt286 junk n c = Delivered c' \<Longrightarrow> z286_step cs c c'"
| group6: "z286_step cs c (snd (snd (grp6 r dst c)))"
| group7: "r \<noteq> 6 \<Longrightarrow> z286_step cs c (snd (grp7_mem r k off c))"
| lmsw: "bit v 0 \<Longrightarrow> z286_step cs c (set_machine_status_word v c)"
| compute: "msw c' = msw c \<Longrightarrow> cpl c' = cpl c \<Longrightarrow> seg c' = seg c \<Longrightarrow> descriptors c' = descriptors c \<Longrightarrow> z286_step cs c c'"

lemma level_ok_step: "z286_step cs c c' \<Longrightarrow> level_ok cs c \<Longrightarrow> level_ok cs c'"
proof (induction rule: z286_step.induct)
  case (pending junk n c c')
  then show ?case using level_ok_pending [of cs c junk n] by simp
next
  case (lmsw v c)
  then show ?case by (simp add: level_ok_def protected_mode_def set_machine_status_word_def)
next
  case (compute c' c)
  then show ?case by (simp cong: level_ok_cong add: level_ok_def protected_mode_def)
qed (auto intro: level_ok_write_seg level_ok_transfers level_ok_int level_ok_grp6 level_ok_grp7)

text \<open>C1: In protected mode the privilege level agrees with the selector of SS and with the cached
  descriptor of the stack in every state that the steps of z286_step reach, which are segment
  loads, far transfers, interrupts, the system groups and computation, faulting or not: with the
  argument cs false these are all loads, MOV to CS among them, which the code allows.  As long as
  MOV does not load CS, which is what cs true says, the level agrees with the selector of CS too.
  LOADALL, LMSW clearing the protection, and IRET with a nested task are not steps.\<close>

theorem reachable_level_ok:
  assumes "level_ok cs c" "(z286_step cs)\<^sup>*\<^sup>* c c'"
  shows "level_ok cs c'"
  using assms(2,1) by (induction rule: rtranclp_induct) (auto intro: level_ok_step)

section \<open>Only gates lower the level\<close>

lemma cpl_write_seg: "cpl (snd (write_seg_impl i s c)) = cpl c"
  by (auto simp: write_seg_impl_def Let_def set_descriptor_base_def split: sum.split option.split)

lemma cpl_jmp: "cpl (snd (JMPFABS_impl ip s c)) = cpl c"
  by (auto simp: JMPFABS_impl_def write_cs_jmp_def Let_def load_cs_real_def set_descriptor_base_def
      split: sum.split option.split)

lemma return_stack_fault_cpl: "return_stack l imm c = (True, c') \<Longrightarrow> cpl c' = cpl c"
  by (auto simp: return_stack_def Let_def split_beta split: sum.splits)

lemma cpl_ret: "protected_mode c \<Longrightarrow> cpl c \<le> cpl (snd (write_cs_ret s imm c))"
  by (auto simp: write_cs_ret_def Let_def dest!: return_stack_ok [OF _ _ rpl_le_3]
      dest: return_stack_fault_cpl split: sum.split option.split prod.splits if_splits)

lemma cpl_iret: "protected_mode c \<Longrightarrow> cpl c \<le> cpl (snd (write_cs_iret s f c))"
  by (auto simp: write_cs_iret_def Let_def dest!: return_stack_ok [OF _ _ rpl_le_3]
      dest: return_stack_fault_cpl split: sum.split option.split prod.splits if_splits)

lemma protected_pop [simp]: "protected_mode (snd (pop286 c)) = protected_mode c"
  by (simp add: protected_mode_def)

lemma cpl_return: 
  assumes "protected_mode c"
  shows "cpl c \<le> cpl (snd (RETFI_impl imm c))" "cpl c \<le> cpl (snd (IRET286 c))"
  using assms cpl_ret [of "snd (pop286 (snd (pop286 c)))"] cpl_iret [of "snd (pop286 (snd (pop286 (snd (pop286 c)))))"]
  by (auto simp: RETFI_impl_def IRET286_def Let_def split_beta split: bool.splits)

text \<open>The gate a far call goes through, and the code segment the gate names.\<close>

definition passes_gate :: "z286Core \<Rightarrow> u16 \<Rightarrow> int \<Rightarrow> bool" where
  "passes_gate c s dest \<longleftrightarrow>
     (\<exists>d. get_descriptor c s = Some d \<and> get_full_type (mem c) d = DESCRIPTOR_CALL_GATE16
        \<and> is_present (mem c) d \<and> cpl c \<le> get_dpl (mem c) d \<and> rpl s \<le> get_dpl (mem c) d
        \<and> get_descriptor c (desc_segment (mem c) d) = Some dest \<and> is_present (mem c) dest
        \<and> code_segment (get_full_type (mem c) dest))"

lemma gate_checks_Inr:
  "gate_checks s d c = Inr (s', dest) \<Longrightarrow>
     is_present (mem c) d \<and> cpl c \<le> get_dpl (mem c) d \<and> rpl s \<le> get_dpl (mem c) d
       \<and> s' = desc_segment (mem c) d \<and> get_descriptor c s' = Some dest \<and> is_present (mem c) dest
       \<and> get_dpl (mem c) dest \<le> cpl c \<and> code_segment (get_full_type (mem c) dest)"
  by (auto simp: gate_checks_def Let_def split: if_splits option.splits)

lemma enter_stack_cpl: "enter_stack l c = Inr c' \<Longrightarrow> cpl c' = l"
  by (auto simp: enter_stack_def split: prod.splits sum.splits)

lemma cpl_call:
  "cpl (snd (snd (write_cs_call ip s c))) = cpl c
   \<or> (\<exists>dest. passes_gate c s dest \<and> get_dpl (mem c) dest < cpl c
        \<and> cpl (snd (snd (write_cs_call ip s c))) = get_dpl (mem c) dest)"
  by (auto simp: write_cs_call_def Let_def load_cs_real_def set_descriptor_base_def passes_gate_def
      dest!: gate_checks_Inr enter_stack_cpl split: sum.split option.split prod.split if_splits)

text \<open>C5: A segment load or a far jump leaves the privilege level, a far return or IRET can only give
  privilege up, and a far call keeps the level unless it goes through a present call gate that the
  caller and the selector may use, to a more privileged code segment, whose level it takes.\<close>

theorem privilege_only_through_gates:
  assumes "protected_mode c"
  shows "cpl (snd (write_seg_impl i s c)) = cpl c \<and> cpl (snd (JMPFABS_impl ip s c)) = cpl c
    \<and> cpl c \<le> cpl (snd (RETFI_impl imm c)) \<and> cpl c \<le> cpl (snd (IRET286 c))
    \<and> (cpl (snd (CALLFABS_impl next_ip ip s c)) = cpl c
       \<or> (\<exists>dest. passes_gate c s dest \<and> get_dpl (mem c) dest < cpl c
            \<and> cpl (snd (CALLFABS_impl next_ip ip s c)) = get_dpl (mem c) dest))"
proof -
  have "cpl (snd (CALLFABS_impl next_ip ip s c)) = cpl (snd (snd (write_cs_call ip s c)))"
    by (auto simp: CALLFABS_impl_def Let_def split: prod.split bool.split)
  then show ?thesis using cpl_write_seg cpl_jmp cpl_return [OF assms] cpl_call by metis
qed

section \<open>Faults are precise\<close>

definition posts :: "z286Core \<Rightarrow> z286Core \<Rightarrow> bool" where
  "posts c c' \<longleftrightarrow> (\<exists>n e. c' = software_interrupt_code n e c)"

lemma posts_raise [simp]: "posts c (raise_fault f c)"
  by (cases f) (auto simp: posts_def)

lemma precise_load: "fst (write_seg_impl i s c) \<longrightarrow> posts c (snd (write_seg_impl i s c))"
  by (simp add: write_seg_impl_def Let_def split: sum.split option.split)

lemma precise_jmp: "fst (JMPFABS_impl ip s c) \<longrightarrow> posts c (snd (JMPFABS_impl ip s c))"
  by (simp add: JMPFABS_impl_def write_cs_jmp_def Let_def split: sum.split option.split prod.split bool.split)

lemma precise_call: "fst (CALLFABS_impl next_ip ip s c) \<longrightarrow> posts c (snd (CALLFABS_impl next_ip ip s c))"
  by (simp add: CALLFABS_impl_def write_cs_call_def Let_def split: sum.split option.split prod.split bool.split)

lemma precise_int:
  "fst (int_software_interrupt junk ret n is_int1 c) \<longrightarrow> posts c (snd (int_software_interrupt junk ret n is_int1 c))"
  by (simp add: int_software_interrupt_def Let_def split: sum.split option.split)

text \<open>C9: A segment load, far jump, far call or INT that faults changes nothing of the state but the
  exception it posts and its error code, however many of its checks had passed.\<close>

theorem faults_are_precise:
  "(fst (write_seg_impl i s c) \<longrightarrow> posts c (snd (write_seg_impl i s c)))
   \<and> (fst (JMPFABS_impl ip s c) \<longrightarrow> posts c (snd (JMPFABS_impl ip s c)))
   \<and> (fst (CALLFABS_impl next_ip ip s c) \<longrightarrow> posts c (snd (CALLFABS_impl next_ip ip s c)))
   \<and> (fst (int_software_interrupt junk ret n is_int1 c) \<longrightarrow> posts c (snd (int_software_interrupt junk ret n is_int1 c)))"
  using precise_load precise_jmp precise_call precise_int by blast

section \<open>What a loaded segment allows\<close>

lemma raw_set_accessed: "raw (set_accessed d m) = (raw m)(d + 5 := desc_flags1 m d OR 1)"
  by (simp add: set_accessed_def ptr_write_def mem_size_def word_to_le_def)

lemma bit_mask24: "bit (0xFFFFFF :: u32) n \<longleftrightarrow> n < 24"
proof -
  have "(0xFFFFFF :: u32) = Bit_Operations.mask 24" by (simp add: mask_numeral)
  show ?thesis unfolding \<open>0xFFFFFF = _\<close> by (auto simp: bit_mask_iff)
qed

lemma desc_base_accessed [simp]: "desc_base (set_accessed d m) d = desc_base m d"
proof (rule bit_word_eqI)
  fix n :: nat
  have "n < 24 \<Longrightarrow> n div 8 < 3" by simp
  then have "n < 24 \<Longrightarrow> d + 2 + int (n div 8) \<noteq> d + 5" by simp
  then show "bit (desc_base (set_accessed d m) d) n = bit (desc_base m d) n"
    unfolding desc_base_def bit_and_iff bit_mask24
    by (cases "n < 24") (auto simp: ptr_read_def mem_size_def bit_le_to_word raw_set_accessed)
qed

lemma desc_limit_accessed [simp]: "desc_limit (set_accessed d m) d = desc_limit m d"
  by (rule bit_word_eqI)
     (auto simp: desc_limit_def ptr_read_def mem_size_def bit_le_to_word raw_set_accessed)

lemma writable_bits:
  assumes "readable_segment t"
  shows "(bit t 1 \<noteq> bit t 3) = writable_data t"
proof -
  have "t \<in> set (map nat [16..31])"
    using assms by (auto simp: readable_segment_def image_iff intro: bexI [of _ "int t"])
  moreover have "\<forall>k \<in> set (map nat [16..31]). readable_segment k \<longrightarrow> (bit k 1 \<noteq> bit k 3) = writable_data k"
    by (simp add: upto_rec1 readable_segment_def writable_data_def bit_nat_iff)
  ultimately show ?thesis using assms by blast
qed

text \<open>The conditions the code puts on the descriptor and the selector of a data segment.\<close>

definition loadable :: "z286Core \<Rightarrow> u16 \<Rightarrow> int \<Rightarrow> bool" where
  "loadable c s d \<longleftrightarrow> get_descriptor c s = Some d \<and> is_present (mem c) d \<and> readable_segment (get_full_type (mem c) d)
     \<and> cpl c \<le> get_dpl (mem c) d \<and> cpl c \<le> rpl s"

lemma data_checks_loadable:
  assumes "\<not> null_selector s"
  shows "data_checks s c = Inr (Some d) \<longleftrightarrow> loadable c s d"
  using assms by (auto simp: data_checks_def loadable_def split: option.splits)

lemma load_fault_iff:
  assumes "protected_mode c" "i \<noteq> SS" "\<not> null_selector s"
  shows "\<not> fst (write_seg_impl i s c) \<longleftrightarrow> (\<exists>d. loadable c s d)"
proof -
  have "data_checks s c \<noteq> Inr None"
    using assms(3) by (auto simp: data_checks_def split: option.splits)
  then show ?thesis
    using assms data_checks_loadable [OF assms(3), of c]
    by (auto simp: write_seg_impl_def Let_def split: sum.split option.split)
qed

lemma load_result:
  assumes "protected_mode c" "i \<noteq> SS" "\<not> null_selector s" "loadable c s d"
  shows "seg (snd (write_seg_impl i s c)) = (seg c)(i := s)
    \<and> base (descriptors (snd (write_seg_impl i s c)) i) = desc_base (mem c) d
    \<and> limit (descriptors (snd (write_seg_impl i s c)) i) = desc_limit (mem c) d
    \<and> cache_dpl (descriptors (snd (write_seg_impl i s c)) i) = get_dpl (mem c) d
    \<and> bit (attributes (descriptors (snd (write_seg_impl i s c)) i)) 9 = writable_data (get_full_type (mem c) d)"
proof -
  let ?t = "get_full_type (mem c) d"
  let ?x = "if writable_data ?t then ATTRIBUTES_RW else ATTRIBUTES_R"
  have d: "data_checks s c = Inr (Some d)" using assms(3,4) by (simp add: data_checks_loadable)
  have rd: "readable_segment ?t" using assms(4) by (simp add: loadable_def)
  have "write_seg_impl i s c = (False, set_seg i s (load_descriptor i d
      (if bit ?t 1 \<noteq> bit ?t 3 then ATTRIBUTES_RW else ATTRIBUTES_R) (mark_accessed d c)))"
    using assms(1,2) d by (simp add: write_seg_impl_def Let_def)
  then have w: "snd (write_seg_impl i s c) = set_seg i s (load_descriptor i d ?x (mark_accessed d c))"
    by (simp only: writable_bits [OF rd] snd_conv)
  have "bit (desc_attributes m d ?x) 9 = writable_data ?t" for m
    by (auto simp: desc_attributes_def attribute_defs bit_or_iff bit_ucast_word dest: bit_imp_le_length)
  then show ?thesis
    unfolding w by (cases "writable_data ?t") (simp_all add: cache_dpl_data_cases, simp_all add: cache_of_def)
qed

text \<open>C10: Loading a data segment register with a selector other than null faults unless the
  selector's descriptor is in its table, is present and readable, and neither its level nor the
  level in the selector is below the current one; these are all conditions, so the level in the
  selector is not compared with that of the descriptor.  When it does not fault, the register holds
  the selector, its cache has the base, the limit and the level of the descriptor, and allows writing
  exactly if the segment is writable data.\<close>

theorem segment_load_checked:
  assumes "protected_mode c" "i \<noteq> SS" "\<not> null_selector s"
  shows "(\<not> fst (write_seg_impl i s c) \<longleftrightarrow> (\<exists>d. loadable c s d))
    \<and> (\<forall>d. loadable c s d \<longrightarrow> seg (snd (write_seg_impl i s c)) = (seg c)(i := s)
         \<and> base (descriptors (snd (write_seg_impl i s c)) i) = desc_base (mem c) d
         \<and> limit (descriptors (snd (write_seg_impl i s c)) i) = desc_limit (mem c) d
         \<and> cache_dpl (descriptors (snd (write_seg_impl i s c)) i) = get_dpl (mem c) d
         \<and> bit (attributes (descriptors (snd (write_seg_impl i s c)) i)) 9 = writable_data (get_full_type (mem c) d))"
  using load_fault_iff [OF assms] load_result [OF assms] by blast

section \<open>An example\<close>

text \<open>
  A core at level 3: the table at 1000 has a code and a data segment of level 0, the same of level
  3, a call gate of level 3 to the code of level 0, and behind it a TSS.
\<close>

definition sample_table :: "u8 list" where
  "sample_table =
     [0, 0, 0, 0, 0, 0, 0, 0,
      0xFF, 0xFF, 0, 0, 1, 0x9A, 0, 0,
      0xFF, 0xFF, 0, 0, 2, 0x92, 0, 0,
      0xFF, 0xFF, 0, 0, 3, 0xFA, 0, 0,
      0xFF, 0xFF, 0, 0, 4, 0xF2, 0, 0,
      0x34, 0x12, 0x08, 0, 0, 0xE4, 0, 0,
      0, 0, 0x00, 0x80, 0x10, 0x00, 0, 0]"

definition sample286_mem :: z86Memory where
  "sample286_mem = \<lparr>
     raw = (\<lambda>a. if 0x1000 \<le> a \<and> a < 0x1038 then sample_table ! nat (a - 0x1000) else 0),
     bytes = 0x100000, a20 = None\<rparr>"

definition ring3 :: z286Core where
  "ring3 = (RESET286 (z86Core.extend sample_core
       \<lparr>descriptors = reset_descriptors, msw = 0, error_code = 0, cpl = 0, iopl = 0, nested_task = False\<rparr>))
     \<lparr>mem := sample286_mem, msw := 1, cpl := 3,
      seg := (\<lambda>_. 0x23)(CS := 0x1B),
      descriptors := reset_descriptors(
        CS := \<lparr>base = 0x30000, limit = 0xFFFF, attributes = 0x05FB\<rparr>,
        SS := \<lparr>base = 0x40000, limit = 0xFFFF, attributes = 0x03F3\<rparr>,
        GDT := \<lparr>base = 0x1000, limit = 0x2F, attributes = 0x0182\<rparr>,
        TSS := \<lparr>base = 0x1030, limit = 0x2B, attributes = 0x0083\<rparr>)\<rparr>"

lemma ring3_sel:
  "mem ring3 = sample286_mem" "msw ring3 = 1" "cpl ring3 = 3" "seg ring3 = (\<lambda>_. 0x23)(CS := 0x1B)"
  "protected_mode ring3" "nested_task ring3 = False"
  "descriptors ring3 GDT = \<lparr>base = 0x1000, limit = 0x2F, attributes = 0x0182\<rparr>"
  "descriptors ring3 TSS = \<lparr>base = 0x1030, limit = 0x2B, attributes = 0x0083\<rparr>"
  "descriptors ring3 SS = \<lparr>base = 0x40000, limit = 0xFFFF, attributes = 0x03F3\<rparr>"
  by (simp_all add: ring3_def RESET286_def protected_mode_def)

lemma level_ok_ring3: "level_ok cs ring3"
  by (simp add: level_ok_def ring3_sel rpl_def cache_dpl_def)

theorem reachable_level_ok_witness:
  "level_ok True (snd (CALLFABS_impl 0x100 0 0x28 ring3)) \<and> level_ok False (snd (write_seg_impl CS 0x23 ring3))"
proof
  show "level_ok True (snd (CALLFABS_impl 0x100 0 0x28 ring3))"
    by (rule reachable_level_ok [OF level_ok_ring3]) (rule r_into_rtranclp, rule z286_step.call)
  show "level_ok False (snd (write_seg_impl CS 0x23 ring3))"
    by (rule reachable_level_ok [OF level_ok_ring3]) (rule r_into_rtranclp, rule z286_step.load, simp)
qed

text \<open>MOV loads CS with the null selector, whose level is 0.\<close>

lemma MOV_CS_level: "rpl (seg (snd (write_seg_impl CS 0 ring3)) CS) = 0 \<and> cpl (snd (write_seg_impl CS 0 ring3)) = 3"
  by (simp add: write_seg_impl_def data_checks_def null_selector_def ring3_sel Let_def rpl_def)

theorem privilege_only_through_gates_witness:
  "cpl (snd (JMPFABS_impl 0 0x18 ring3)) = 3 \<and> 3 \<le> cpl (snd (IRET286 ring3))"
  using privilege_only_through_gates [OF ring3_sel(5), of DS "0x18" 0 0] by (simp add: ring3_sel(3))

theorem faults_are_precise_witness: "posts ring3 (snd (write_seg_impl DS 0x10 ring3))"
proof -
  have "fst (write_seg_impl DS 0x10 ring3)"
    by (simp add: write_seg_impl_def ring3_sel data_checks_def null_selector_def rpl_def)
  then show ?thesis using faults_are_precise [of DS "0x10" ring3 0 0 0 0 0 False] by blast
qed

lemmas sample286_eval = get_descriptor_def table_descriptor_def mem_ptr_def a20_mask_def ring3_sel
  sample286_mem_def sample_table_def get_full_type_def get_dpl_def is_present_def desc_flags1_def
  ptr_read_def mem_size_def read_bytes_def

theorem segment_load_checked_witness:
  "\<not> fst (write_seg_impl DS 0x23 ring3) \<and> seg (snd (write_seg_impl DS 0x23 ring3)) DS = 0x23
   \<and> limit (descriptors (snd (write_seg_impl DS 0x23 ring3)) DS) = 0xFFFF"
proof -
  have d: "get_descriptor ring3 0x23 = Some 0x1020" by (simp add: sample286_eval)
  have f: "desc_flags1 sample286_mem 0x1020 = 0xF2" "desc_limit sample286_mem 0x1020 = 0xFFFF"
    by (simp_all add: desc_flags1_def desc_limit_def sample286_eval upt_rec)
  have l: "loadable ring3 0x23 0x1020"
    by (simp add: loadable_def d rpl_def ring3_sel get_dpl_def get_full_type_def is_present_def f readable_segment_def)
  have n: "DS \<noteq> SS" "\<not> null_selector 0x23" by (simp_all add: null_selector_def)
  show ?thesis
    using segment_load_checked [OF ring3_sel(5) n] l f by (auto simp: ring3_sel)
qed

end
