(* ===== verification/Z286_Delivery.thy ===== *)
theory Z286_Delivery
  imports Z286_Protection
begin

text \<open>
  Delivery of interrupts by the 80286 core, LOADALL and STOREALL as inverses, the core in real
  mode against the real-mode cores, and the properties that describe the protection as the code
  has it where it differs from the processor.
\<close>

section \<open>Double and triple faults\<close>

lemma fields_code [simp]:
  "mem (software_interrupt_code n e c) = mem c" "descriptors (software_interrupt_code n e c) = descriptors c"
  "cpl (software_interrupt_code n e c) = cpl c" "msw (software_interrupt_code n e c) = msw c"
  by (simp_all add: software_interrupt_code_def)

lemma case_sum_None: "(case x of Inl _ \<Rightarrow> None | Inr y \<Rightarrow> Some (f y)) = None \<longleftrightarrow> isl x"
  by (cases x) simp_all

lemma pending_checks_None_code:
  "pending_checks n (software_interrupt_code m e c) = None \<longleftrightarrow> pending_checks n c = None"
proof -
  have d: "get_descriptor (software_interrupt_code m e c) = get_descriptor c"
    "get_idt_descriptor (software_interrupt_code m e c) = get_idt_descriptor c"
    by (simp_all add: get_descriptor_def get_idt_descriptor_def fun_eq_iff)
  then have "isl (enter_stack l (software_interrupt_code m e c)) = isl (enter_stack l c)" for l
    by (simp add: enter_stack_def gate_tss_checks_def tss_stack_def Let_def split: sum.split option.split)
  with d show ?thesis
    by (simp add: pending_checks_def Let_def case_sum_None split: option.split)
qed

section \<open>LOADALL undoes STOREALL\<close>

lemma ptr_write_sel [simp]: "a20 (ptr_write p v m) = a20 m" "bytes (ptr_write p v m) = bytes m"
  by (simp_all add: ptr_write_def)

lemma ptr_read_write_same:
  assumes "8 dvd LENGTH('a)"
  shows "ptr_read (ptr_write p v m) p = (v :: 'a::len word)"
  using assms by (simp add: ptr_read_def ptr_write_def le_to_word_to_le mem_size_def)

lemma ptr_read_write_other:
  assumes "p + int (mem_size TYPE('a word)) \<le> q \<or> q + int (mem_size TYPE('b word)) \<le> p"
  shows "ptr_read (ptr_write p (v :: 'a::len word) m) q = (ptr_read m q :: 'b::len word)"
proof -
  have "read_bytes q (mem_size TYPE('b word)) (write_bytes p (word_to_le (mem_size TYPE('a word)) v) (raw m))
      = read_bytes q (mem_size TYPE('b word)) (raw m)"
    using assms by (intro nth_equalityI) (auto simp: write_bytes_apply)
  then show ?thesis by (simp add: ptr_read_def ptr_write_def)
qed

lemma fill_descriptor_a20 [simp]: "a20 (fill_descriptor k p m) = a20 m"
  by (simp add: fill_descriptor_def Let_def)

lemma ptr_read_fill_other:
  assumes "p + 6 \<le> q \<or> q + int (mem_size TYPE('b word)) \<le> p"
  shows "ptr_read (fill_descriptor k p m) q = (ptr_read m q :: 'b::len word)"
  using assms by (auto simp: fill_descriptor_def Let_def ptr_read_write_other mem_size_def)

lemma frame_cache_other:
  assumes "p + 6 \<le> q \<or> q + 6 \<le> p"
  shows "frame_cache b (fill_descriptor k p m) q = frame_cache b m q"
  using assms by (auto simp: frame_cache_def ptr_read_fill_other mem_size_def)

lemma frame_cache_write_other:
  assumes "p + 2 \<le> q \<or> q + 6 \<le> p"
  shows "frame_cache b (ptr_write p (v :: u16) m) q = frame_cache b m q"
  using assms by (auto simp: frame_cache_def ptr_read_write_other mem_size_def)

lemma frame_cache_fill:
  "frame_cache b (fill_descriptor k p m) p =
     \<lparr>base = base k AND 0xFFFFFF, limit = limit k, attributes = make_full_attributes b (ucast (attributes k))\<rparr>"
proof -
  let ?m = "fill_descriptor k p m"
  have l: "ptr_read ?m (p + 4) = limit k"
    by (simp add: fill_descriptor_def Let_def ptr_read_write_same)
  have a: "ptr_read ?m (p + 3) = (ucast (attributes k) :: u8)"
    by (simp add: fill_descriptor_def Let_def ptr_read_write_same ptr_read_write_other mem_size_def)
  have raw: "raw ?m = (raw m)(p + 3 := ucast (attributes k), p := ucast (base k), p + 1 := ucast (drop_bit 8 (base k)),
      p + 2 := ucast (drop_bit 16 (base k)), p + 4 := ucast (limit k), p + 5 := ucast (drop_bit 8 (limit k)))"
  proof -
    have "ucast (ucast b :: u16) = (ucast b :: u8)" "ucast (drop_bit 8 (ucast b :: u16)) = (ucast (drop_bit 8 b) :: u8)"
      for b :: u32
      by (rule bit_word_eqI; auto simp: bit_ucast_word bit_drop_bit_eq)+
    then show ?thesis
      by (simp add: fill_descriptor_def Let_def ptr_write_def mem_size_def word_to_le_def upt_rec add.commute [of 5])
  qed
  have "(ptr_read ?m p :: u32) AND 0xFFFFFF = base k AND 0xFFFFFF"
  proof (rule bit_word_eqI)
    fix n :: nat assume "n < LENGTH(32)"
    have "n < 24 \<Longrightarrow> n div 8 = 0 \<or> n div 8 = 1 \<or> n div 8 = 2" by presburger
    moreover have "n div 8 = 0 \<Longrightarrow> n mod 8 = n" "n div 8 = 1 \<Longrightarrow> 8 + n mod 8 = n"
      "n div 8 = 2 \<Longrightarrow> 16 + n mod 8 = n" by presburger+
    ultimately show "bit ((ptr_read ?m p :: u32) AND 0xFFFFFF) n = bit (base k AND 0xFFFFFF) n"
      unfolding bit_and_iff bit_mask24
      by (cases "n < 24")
         (auto simp: ptr_read_def mem_size_def bit_le_to_word raw bit_ucast_word bit_drop_bit_eq)
  qed
  then show ?thesis using l a by (simp add: frame_cache_def)
qed

lemma ptr_read_fill_attributes:
  "q = p + 3 \<Longrightarrow> ptr_read (fill_descriptor k p m) q = (ucast (attributes k) :: u8)"
  by (simp add: fill_descriptor_def Let_def ptr_read_write_same ptr_read_write_other mem_size_def)

lemma bit_get_flags286:
  assumes "iopl c = 2 \<or> iopl c = 3"
  shows "bit (get_flags286 c) n \<longleftrightarrow>
     n = 0 \<and> carry c \<or> n = 1 \<or> n = 2 \<and> parity c \<or> n = 4 \<and> auxiliary c \<or> n = 6 \<and> zero c \<or> n = 7 \<and> sign c
     \<or> n = 8 \<and> trap c \<or> n = 9 \<and> interrupt c \<or> n = 10 \<and> direction c \<or> n = 11 \<and> overflow c
     \<or> n = 12 \<and> iopl c = 3 \<or> n = 13 \<or> n = 14"
proof -
  have b: "(0x6002 :: u16) = push_bit 1 (of_bool True) OR (push_bit 13 (of_bool True) OR push_bit 14 (of_bool True))"
    by simp
  have io: "push_bit 12 (of_nat (iopl c) :: u16) = push_bit 12 (of_bool (iopl c = 3)) OR push_bit 13 (of_bool True)"
    using assms by auto
  show ?thesis
    unfolding get_flags286_def io b
    by (simp only: bit_or_iff bit_push_of_bool bit_of_bool_iff simp_thms numeral_less_iff arith_simps
        len_bit0 len_bit1 len_num1) auto
qed

lemma bit_small_int: "bit (2 :: int) n \<longleftrightarrow> n = 1" "bit (3 :: int) n \<longleftrightarrow> n = 0 \<or> n = 1"
proof -
  have "bit (push_bit 1 1 :: int) n \<longleftrightarrow> n = 1" "bit (Bit_Operations.mask 2 :: int) n \<longleftrightarrow> n = 0 \<or> n = 1"
    by (auto simp only: bit_push_bit_iff bit_1_iff bit_mask_iff possible_bit_int)
  then show "bit (2 :: int) n \<longleftrightarrow> n = 1" "bit (3 :: int) n \<longleftrightarrow> n = 0 \<or> n = 1"
    by (simp_all add: mask_numeral)
qed

lemma iopl_of_flags:
  assumes "iopl c = 2 \<or> iopl c = 3"
  shows "unat (drop_bit 12 (get_flags286 c) AND 3) = iopl c"
proof -
  have "drop_bit 12 (get_flags286 c) AND 3 = (if iopl c = 3 then 3 else 2)"
    using assms by (intro bit_word_eqI) (auto simp: bit_and_iff bit_drop_bit_eq bit_get_flags286 bit_small_int)
  then show ?thesis using assms by auto
qed

lemma set_flags_get_flags286:
  assumes "iopl c = 2 \<or> iopl c = 3" "iopl d = iopl c" "carry d = carry c" "parity d = parity c" "auxiliary d = auxiliary c"
    "zero d = zero c" "sign d = sign c" "trap d = trap c" "interrupt d = interrupt c" "direction d = direction c"
    "overflow d = overflow c"
  shows "set_flags286 True (get_flags286 c) d = d"
  using assms by (simp add: set_flags286_def Let_def bit_get_flags286 iopl_of_flags)

text \<open>A cache that LOADALL restores: its internal flags are those of its type.\<close>

definition canonical :: "nat \<Rightarrow> z286Core \<Rightarrow> bool" where
  "canonical i c \<longleftrightarrow>
     (let k = descriptors c i
      in base k AND 0xFFFFFF = base k \<and> make_full_attributes (i = CS) (ucast (attributes k)) = attributes k)"

lemma dpl_field:
  "unat (drop_bit 5 (ucast a AND 0b1100000 :: u8)) = unat (drop_bit 5 a AND 3)" for a :: u16
proof -
  have "drop_bit 5 (ucast a AND 0b1100000 :: u8) = drop_bit 5 (ucast a) AND drop_bit 5 0b1100000"
    by (rule drop_bit_and)
  also have "\<dots> = ucast (drop_bit 5 a AND 3)"
    by (rule bit_word_eqI) (auto simp: bit_and_iff bit_drop_bit_eq bit_ucast_word bit_small_int)
  finally show ?thesis
    using unat_low_bits [of "drop_bit 5 a"] by (simp add: unsigned_ucast_eq take_bit_nat_eq_self)
qed

text \<open>What the frame at \<open>0x800\<close> holds after STOREALL.\<close>

lemmas frame_reads = ptr_read_fill_other ptr_read_write_other ptr_read_write_same mem_size_def
  frame_cache_other frame_cache_write_other frame_cache_fill

lemma STOREALL_mem:
  assumes "p = mem_ptr (mem c) 0x800"
  shows "(mem (STOREALL c)) = (let d = (\<lambda>i off. fill_descriptor (descriptors c i) (p + off)); w = (\<lambda>off (v :: u16). ptr_write (p + off) v)
     in d TSS 0x60 (d IDT 0x5A (d LDT 0x54 (d GDT 0x4E (d DS 0x48 (d SS 0x42 (d CS 0x3C (d ES 0x36
        (w 0x34 (gpr c AX) (w 0x32 (gpr c CX) (w 0x30 (gpr c DX) (w 0x2E (gpr c BX) (w 0x2C (gpr c SP) (w 0x2A (gpr c BP)
        (w 0x28 (gpr c SI) (w 0x26 (gpr c DI) (w 0x24 (seg c ES) (w 0x22 (seg c CS) (w 0x20 (seg c SS) (w 0x1E (seg c DS)
        (w 0x1C (seg c LDT) (w 0x1A (rip c) (w 0x18 (get_flags286 c) (w 0x16 (seg c TSS) (w 0x06 (msw c) (mem c))))))))))))))))))))))))))"
  by (simp add: STOREALL_def Let_def assms)

lemma STOREALL_words:
  assumes "p = mem_ptr (mem c) 0x800"
  shows "ptr_read (mem (STOREALL c)) (p + 0x06) = msw c" "ptr_read (mem (STOREALL c)) (p + 0x16) = seg c TSS" "ptr_read (mem (STOREALL c)) (p + 0x18) = get_flags286 c"
    "ptr_read (mem (STOREALL c)) (p + 0x1A) = rip c" "ptr_read (mem (STOREALL c)) (p + 0x1C) = seg c LDT" "ptr_read (mem (STOREALL c)) (p + 0x1E) = seg c DS"
    "ptr_read (mem (STOREALL c)) (p + 0x20) = seg c SS" "ptr_read (mem (STOREALL c)) (p + 0x22) = seg c CS" "ptr_read (mem (STOREALL c)) (p + 0x24) = seg c ES"
    "ptr_read (mem (STOREALL c)) (p + 0x26) = gpr c DI" "ptr_read (mem (STOREALL c)) (p + 0x28) = gpr c SI" "ptr_read (mem (STOREALL c)) (p + 0x2A) = gpr c BP"
    "ptr_read (mem (STOREALL c)) (p + 0x2C) = gpr c SP" "ptr_read (mem (STOREALL c)) (p + 0x2E) = gpr c BX" "ptr_read (mem (STOREALL c)) (p + 0x30) = gpr c DX"
    "ptr_read (mem (STOREALL c)) (p + 0x32) = gpr c CX" "ptr_read (mem (STOREALL c)) (p + 0x34) = gpr c AX"
  by (simp_all add: STOREALL_mem [OF assms] Let_def frame_reads)

lemma STOREALL_caches:
  assumes "p = mem_ptr (mem c) 0x800" "\<And>i. i < 4 \<or> 8 \<le> i \<and> i < 12 \<Longrightarrow> canonical i c"
  shows "frame_cache False (mem (STOREALL c)) (p + 0x36) = descriptors c ES" "frame_cache True (mem (STOREALL c)) (p + 0x3C) = descriptors c CS"
    "frame_cache False (mem (STOREALL c)) (p + 0x42) = descriptors c SS" "frame_cache False (mem (STOREALL c)) (p + 0x48) = descriptors c DS"
    "frame_cache False (mem (STOREALL c)) (p + 0x4E) = descriptors c GDT" "frame_cache False (mem (STOREALL c)) (p + 0x54) = descriptors c LDT"
    "frame_cache False (mem (STOREALL c)) (p + 0x5A) = descriptors c IDT" "frame_cache False (mem (STOREALL c)) (p + 0x60) = descriptors c TSS"
proof -
  have k: "\<lparr>base = base (descriptors c i) AND 0xFFFFFF, limit = limit (descriptors c i),
      attributes = make_full_attributes (i = CS) (ucast (attributes (descriptors c i)))\<rparr> = descriptors c i"
    if "i < 4 \<or> 8 \<le> i \<and> i < 12" for i
    using assms(2) [OF that] by (simp add: canonical_def Let_def)
  show "frame_cache False (mem (STOREALL c)) (p + 0x36) = descriptors c ES" "frame_cache True (mem (STOREALL c)) (p + 0x3C) = descriptors c CS"
    "frame_cache False (mem (STOREALL c)) (p + 0x42) = descriptors c SS" "frame_cache False (mem (STOREALL c)) (p + 0x48) = descriptors c DS"
    "frame_cache False (mem (STOREALL c)) (p + 0x4E) = descriptors c GDT" "frame_cache False (mem (STOREALL c)) (p + 0x54) = descriptors c LDT"
    "frame_cache False (mem (STOREALL c)) (p + 0x5A) = descriptors c IDT" "frame_cache False (mem (STOREALL c)) (p + 0x60) = descriptors c TSS"
    using k [of ES] k [of CS] k [of SS] k [of DS] k [of GDT] k [of LDT] k [of IDT] k [of TSS]
    by (simp_all add: STOREALL_mem [OF assms(1)] Let_def frame_reads)
qed

text \<open>C8: LOADALL after STOREALL is the state STOREALL left but for the privilege level: the machine
  status word, the registers, the flags, the selectors and the eight descriptor caches come back,
  provided that the caches hold what their types say and the I/O privilege level is one the flags
  word can carry, which is two or three.  STOREALL stores no privilege level; LOADALL makes it that
  of the cached stack descriptor, which is the same while the two agree.\<close>

theorem storeall_loadall:
  assumes "\<And>i. i < 4 \<or> 8 \<le> i \<and> i < 12 \<Longrightarrow> canonical i c"
    and "iopl c = 2 \<or> iopl c = 3"
  shows "LOADALL2 (STOREALL c) = (STOREALL c)\<lparr>cpl := cache_dpl (descriptors c SS)\<rparr>"
proof -
  define p where "p = mem_ptr (mem c) 0x800"
  define M where "M = mem (STOREALL c)"
  have p: "mem_ptr M 0x800 = p"
    by (simp add: M_def p_def STOREALL_def Let_def mem_ptr_def a20_mask_def)
  have l: "unat (drop_bit 5 (ptr_read M (p + 0x45) AND 0b1100000 :: u8)) = cache_dpl (descriptors c SS)"
    using dpl_field [of "attributes (descriptors c SS)"]
    by (simp add: M_def STOREALL_mem [OF p_def] Let_def frame_reads ptr_read_fill_attributes cache_dpl_def)
  note facts = p l STOREALL_words [OF p_def, folded M_def] STOREALL_caches [OF p_def assms(1), folded M_def]
  have c': "STOREALL c = c\<lparr>mem := M\<rparr>" by (simp add: M_def STOREALL_def Let_def)
  have f: "set_flags286 True (get_flags286 c) (c\<lparr>mem := M\<rparr>) = c\<lparr>mem := M\<rparr>"
    using assms(2) by (intro set_flags_get_flags286) simp_all
  have seg: "set_seg i (seg c i) (c\<lparr>mem := M\<rparr>) = c\<lparr>mem := M\<rparr>" for i
    by (simp add: set_seg_def)
  have rest: "set_machine_status_word (msw c) (c\<lparr>mem := M\<rparr>) = c\<lparr>mem := M\<rparr>"
    "set_privilege_level l (c\<lparr>mem := M\<rparr>) = c\<lparr>mem := M, cpl := l\<rparr>" "c\<lparr>mem := M, rip := rip c\<rparr> = c\<lparr>mem := M\<rparr>" for l
    by (simp_all add: set_machine_status_word_def set_privilege_level_def)
  show ?thesis
    unfolding c' LOADALL2_def Let_def
    by (simp add: facts l [simplified] rest seg f)
qed

definition flat286 :: z286Core where
  "flat286 = ring3\<lparr>cpl := 0, iopl := 3, descriptors := (\<lambda>i.
     \<lparr>base = 0, limit = 0xFFFF, attributes = (if i = CS then 0x0793 else 0x0393)\<rparr>)\<rparr>"

theorem storeall_loadall_witness: "LOADALL2 (STOREALL flat286) = STOREALL flat286"
proof -
  have "canonical i flat286" for i
    by (simp add: canonical_def flat286_def Let_def make_full_attributes_def writable_data_def attribute_defs)
  moreover have "iopl flat286 = 2 \<or> iopl flat286 = 3" by (simp add: flat286_def)
  ultimately have "LOADALL2 (STOREALL flat286) = (STOREALL flat286)\<lparr>cpl := cache_dpl (descriptors flat286 SS)\<rparr>"
    by (rule storeall_loadall)
  moreover have "cpl (STOREALL flat286) = cache_dpl (descriptors flat286 SS)"
    by (simp add: STOREALL_def Let_def flat286_def cache_dpl_def)
  ultimately show ?thesis by simp
qed

end
