(* ===== verification/Z286_Real.thy ===== *)
theory Z286_Real
  imports Z286_Protection Z86_Control
begin

text \<open>
  The 80286 core in real mode, against the real-mode cores: forgetting the protected-mode state
  turns its stack operations and far transfers into theirs, as long as the bases in the caches are
  the selectors times sixteen.  The stack of the 80286 core, in either mode, is a stack of words.
\<close>

section \<open>The core and what is forgotten\<close>

definition z80286 :: quirks where
  "z80286 = \<lparr>
     SAL_IS_SETMO = False, NO_UD = False, SINGLE_MEM_WRAPS = False, SHIFT_MASKING = True,
     REP_INVERT_MUL = False, REP_INVERT_IDIV = False, MIN_DIV_FAULT = False,
     FAULTS_ARE_TRAPS = False, DE_IS_TRAP = False, OLD_PUSH_SP = False, OLD_RESET_PC = False,
     OLD_AAA = False, WRAP_SEGMENT_MODRM = False, AAM_NO_DE = False, UNMASK_ENTER = False,
     REP_BOUND = False, REP_MUL_MISSTORE = False, HAS_A20_GATE = True,
     OPCODES_80186 = True, OPCODES_V20 = False, OPCODES_80286 = True\<rparr>"

definition real_core :: "z286Core \<Rightarrow> z86Core" where
  "real_core c = z86Core.truncate c"

definition real_ok :: "z286Core \<Rightarrow> bool" where
  "real_ok c \<longleftrightarrow> \<not> protected_mode c \<and> cpl c = 0
     \<and> (\<forall>i \<in> {ES, CS, SS, DS}. base (descriptors c i) = push_bit 4 (ucast (seg c i)))"

lemma real_core_sel [simp]:
  "seg (real_core c) = seg c" "gpr (real_core c) = gpr c" "mem (real_core c) = mem c" "rip (real_core c) = rip c"
  by (simp_all add: real_core_def z86Core.defs)

lemma real_core_upd [simp]:
  "real_core (c\<lparr>gpr := g\<rparr>) = (real_core c)\<lparr>gpr := g\<rparr>" "real_core (c\<lparr>mem := m\<rparr>) = (real_core c)\<lparr>mem := m\<rparr>"
  "real_core (c\<lparr>seg := s\<rparr>) = (real_core c)\<lparr>seg := s\<rparr>" "real_core (c\<lparr>rip := r\<rparr>) = (real_core c)\<lparr>rip := r\<rparr>"
  "real_core (c\<lparr>descriptors := d\<rparr>) = real_core c" "real_core (c\<lparr>iopl := l\<rparr>) = real_core c"
  by (simp_all add: real_core_def z86Core.defs)

lemma uint_base:
  "uint (push_bit 4 (ucast (s :: u16)) :: u32) = uint s * 16"
proof -
  have "uint s < 2 ^ 16" using uint_lt2p [of s] by simp
  then show ?thesis by (simp add: push_bit_eq_mult uint_word_ariths unsigned_ucast_eq take_bit_int_eq_self)
qed

section \<open>Simulation\<close>

locale simulation =
  fixes abs :: "'c \<Rightarrow> 'a"
    and inv :: "'c \<Rightarrow> bool"
    and cstep :: "'c \<Rightarrow> 'c"
    and astep :: "'a \<Rightarrow> 'a"
  assumes step_abs: "inv c \<Longrightarrow> abs (cstep c) = astep (abs c)"
    and step_inv: "inv c \<Longrightarrow> inv (cstep c)"
begin

lemma iterate: "inv c \<Longrightarrow> abs ((cstep ^^ n) c) = (astep ^^ n) (abs c) \<and> inv ((cstep ^^ n) c)"
  by (induction n) (auto simp: step_abs step_inv)

end

lemma real_stack: "real_ok c \<Longrightarrow> stack_ptr c = addr_addr (ctx_stack (real_core c)) 0"
  by (simp add: stack_ptr_def real_ok_def uint_base addr_addr_def addr_seg_def addr_ptr_def)

interpretation real_push: simulation real_core real_ok "push286 v" "PUSH z80286 v" for v
proof
  fix c assume ok: "real_ok c"
  then have ok': "real_ok (c\<lparr>gpr := g\<rparr>)" for g by (simp add: real_ok_def protected_mode_def)
  show "real_core (push286 v c) = PUSH z80286 v (real_core c)"
    using real_stack [OF ok'] by (simp add: push286_def PUSH_def PUSH_impl_def Let_def mem_size_def addr_write_def z80286_def)
  show "real_ok (push286 v c)" using ok by (simp add: real_ok_def protected_mode_def)
qed

lemma real_pop:
  assumes "real_ok c"
  shows "fst (pop286 c) = fst (POP z80286 (real_core c))" "real_core (snd (pop286 c)) = snd (POP z80286 (real_core c))"
    "real_ok (snd (pop286 c))"
  using assms real_stack [OF assms]
  by (simp_all add: pop286_def POP_eq stack_word_def addr_read_def z80286_def real_ok_def protected_mode_def)

lemma real_not_protected: "real_ok c \<Longrightarrow> \<not> protected_mode c"
  by (simp add: real_ok_def)

lemma real_load_cs:
  "real_core (load_cs_real s c) = (real_core c)\<lparr>seg := (seg c)(CS := s)\<rparr>"
  "real_ok c \<Longrightarrow> real_ok (load_cs_real s c)"
  by (auto simp: load_cs_real_def set_seg_def set_descriptor_base_def real_ok_def protected_mode_def)

lemma real_jmpabs [simp]: "real_core (jmpabs286 ip c) = JMPABS ip (real_core c)"
  by (simp add: jmpabs286_def JMPABS_def)

lemma real_ok_jmpabs [simp]: "real_ok (jmpabs286 ip c) = real_ok c"
  by (simp add: jmpabs286_def real_ok_def protected_mode_def)

interpretation real_jump: simulation real_core real_ok "\<lambda>c. snd (JMPFABS_impl ip s c)" "JMPFABS ip s" for ip s
proof
  fix c assume ok: "real_ok c"
  have step: "snd (JMPFABS_impl ip s c) = jmpabs286 ip (load_cs_real s c)"
    using real_not_protected [OF ok] by (simp add: JMPFABS_impl_def write_cs_jmp_def)
  show "real_core (snd (JMPFABS_impl ip s c)) = JMPFABS ip s (real_core c)"
    unfolding step by (simp add: real_load_cs(1) JMPFABS_def)
  show "real_ok (snd (JMPFABS_impl ip s c))"
    unfolding step using real_load_cs(2) [OF ok] by simp
qed

interpretation real_call: simulation real_core real_ok
    "\<lambda>c. snd (CALLFABS_impl next_ip ip s c)" "CALLFABS z80286 next_ip ip s" for next_ip ip s
proof
  fix c assume ok: "real_ok c"
  have step: "snd (CALLFABS_impl next_ip ip s c) =
      jmpabs286 ip (push286 next_ip (push286 (seg c CS) (load_cs_real s c)))"
    using real_not_protected [OF ok] by (simp add: CALLFABS_impl_def write_cs_call_def Let_def)
  note okl = real_load_cs(2) [OF ok, of s]
  show "real_ok (snd (CALLFABS_impl next_ip ip s c))"
    unfolding step by (simp add: real_push.step_inv okl)
  show "real_core (snd (CALLFABS_impl next_ip ip s c)) = CALLFABS z80286 next_ip ip s (real_core c)"
    unfolding step real_jmpabs real_push.step_abs [OF real_push.step_inv [OF okl]] real_push.step_abs [OF okl] real_load_cs(1)
    by (rule z86Core.equality)
       (simp_all add: CALLFABS_def JMPFABS_def JMPABS_def Let_def PUSH_impl_eq PUSH_eq ctx_stack_def ctx_addr_force_def)
qed

lemma real_ret:
  assumes "real_ok c"
  shows "fst (RETFI_impl 0 c) = False" "real_core (snd (RETFI_impl 0 c)) = RETF z80286 (real_core c)"
    "real_ok (snd (RETFI_impl 0 c))"
proof -
  let ?c1 = "snd (pop286 c)"
  let ?c2 = "snd (pop286 ?c1)"
  note ok1 = real_pop [OF assms]
  note ok2 = real_pop [OF ok1(3)]
  have step: "RETFI_impl 0 c = (False, jmpabs286 (fst (pop286 c)) (load_cs_real (fst (pop286 ?c1)) ?c2))"
    using real_not_protected [OF ok2(3)]
    by (simp add: RETFI_impl_def write_cs_ret_def Let_def split_beta load_cs_real_def add_sp_def)
  show "fst (RETFI_impl 0 c) = False" by (simp add: step)
  show "real_ok (snd (RETFI_impl 0 c))" using real_load_cs(2) [OF ok2(3)] by (simp add: step)
  show "real_core (snd (RETFI_impl 0 c)) = RETF z80286 (real_core c)"
    unfolding step snd_conv real_jmpabs real_load_cs(1) ok2(2) ok1(1,2) ok2(1)
    by (rule z86Core.equality)
       (simp_all add: RETF_def POP_impl_def POP_eq set_rip_def set_cs_def stack_word_def Let_def
          ctx_stack_def ctx_addr_force_def JMPABS_def ok1 ok2 pop286_def)
qed

lemma real_set_flags:
  "cpl c = 0 \<Longrightarrow> real_core (set_flags286 False fl c) = set_flags fl (real_core c)"
  by (simp add: set_flags286_def set_flags_def Let_def real_core_def z86Core.defs)

lemma real_iret:
  assumes "real_ok c"
  shows "fst (IRET286 c) = False" "real_core (snd (IRET286 c)) = IRET z80286 (real_core c)" "real_ok (snd (IRET286 c))"
proof -
  let ?c1 = "snd (pop286 c)"
  let ?c2 = "snd (pop286 ?c1)"
  let ?c3 = "snd (pop286 ?c2)"
  note ok1 = real_pop [OF assms]
  note ok2 = real_pop [OF ok1(3)]
  note ok3 = real_pop [OF ok2(3)]
  let ?s = "fst (pop286 ?c1)"
  let ?d = "set_seg CS ?s (set_flags286 False (fst (pop286 ?c2)) (set_descriptor_base CS (push_bit 4 (ucast ?s)) ?c3))"
  have step: "IRET286 c = (False, jmpabs286 (fst (pop286 c)) ?d)"
    using real_not_protected [OF ok3(3)] by (simp add: IRET286_def write_cs_iret_def Let_def split_beta)
  show "fst (IRET286 c) = False" by (simp add: step)
  have "cpl ?c3 = 0" using ok3(3) by (simp add: real_ok_def)
  then have d: "real_core ?d = (set_flags (fst (pop286 ?c2)) (real_core ?c3))\<lparr>seg := (seg ?c3)(CS := ?s)\<rparr>"
    by (simp add: set_seg_def set_descriptor_base_def real_set_flags)
  show "real_ok (snd (IRET286 c))"
    using ok3(3) by (auto simp: step real_ok_def protected_mode_def set_descriptor_base_def)
  have e: "real_core (snd (IRET286 c)) =
      JMPABS (fst (pop286 c)) ((set_flags (fst (pop286 ?c2)) (real_core ?c3))\<lparr>seg := (seg ?c3)(CS := ?s)\<rparr>)"
    by (simp only: step snd_conv real_jmpabs d)
  show "real_core (snd (IRET286 c)) = IRET z80286 (real_core c)"
    unfolding e ok3(1,2) ok2(1,2) ok1(1,2)
    by (rule z86Core.equality)
       (simp_all add: IRET_def POP_impl_def POP_eq set_rip_def set_cs_def stack_word_def Let_def set_flags_def
          ctx_stack_def ctx_addr_force_def JMPABS_def ok1 ok2 ok3 pop286_def)
qed

lemma real_ok_reset: "real_ok (RESET286 c)"
  by (auto simp: RESET286_def real_ok_def protected_mode_def reset_descriptors_def)

text \<open>C7: In real mode the stack and the far transfers of the 80286 core are those of the real-mode
  cores: PUSH, POP, far JMP, far CALL, RETF and IRET commute with forgetting the protected-mode
  state, never fault, and keep the bases of the caches equal to the selectors times sixteen, which
  holds after a reset.\<close>

theorem real_mode_refines:
  assumes "real_ok c"
  shows "real_core (push286 v c) = PUSH z80286 v (real_core c) \<and> real_ok (push286 v c)
    \<and> fst (pop286 c) = fst (POP z80286 (real_core c)) \<and> real_core (snd (pop286 c)) = snd (POP z80286 (real_core c))
    \<and> (\<exists>c'. JMPFABS_impl ip s c = (False, c') \<and> real_core c' = JMPFABS ip s (real_core c) \<and> real_ok c')
    \<and> (\<exists>c'. CALLFABS_impl next_ip ip s c = (False, c') \<and> real_core c' = CALLFABS z80286 next_ip ip s (real_core c) \<and> real_ok c')
    \<and> (\<exists>c'. RETFI_impl 0 c = (False, c') \<and> real_core c' = RETF z80286 (real_core c) \<and> real_ok c')
    \<and> (\<exists>c'. IRET286 c = (False, c') \<and> real_core c' = IRET z80286 (real_core c) \<and> real_ok c')"
proof -
  have jmp: "\<not> fst (JMPFABS_impl ip s c)" "\<not> fst (CALLFABS_impl next_ip ip s c)"
    using real_not_protected [OF assms]
    by (simp_all add: JMPFABS_impl_def CALLFABS_impl_def write_cs_jmp_def write_cs_call_def Let_def)
  have pair: "\<not> fst r \<Longrightarrow> P (snd r) \<Longrightarrow> \<exists>c'. r = (False, c') \<and> P c'" for r :: "bool \<times> z286Core" and P
    by (cases r) simp
  have "\<exists>c'. JMPFABS_impl ip s c = (False, c') \<and> (real_core c' = JMPFABS ip s (real_core c) \<and> real_ok c')"
    by (rule pair [OF jmp(1)]) (simp add: real_jump.step_abs real_jump.step_inv assms)
  moreover have "\<exists>c'. CALLFABS_impl next_ip ip s c = (False, c')
      \<and> (real_core c' = CALLFABS z80286 next_ip ip s (real_core c) \<and> real_ok c')"
    by (rule pair [OF jmp(2)]) (simp add: real_call.step_abs real_call.step_inv assms)
  moreover have "\<exists>c'. RETFI_impl 0 c = (False, c') \<and> (real_core c' = RETF z80286 (real_core c) \<and> real_ok c')"
    by (rule pair) (simp_all add: real_ret [OF assms])
  moreover have "\<exists>c'. IRET286 c = (False, c') \<and> (real_core c' = IRET z80286 (real_core c) \<and> real_ok c')"
    by (rule pair) (simp_all add: real_iret [OF assms])
  ultimately show ?thesis
    using real_push.step_abs [OF assms] real_push.step_inv [OF assms] real_pop(1,2) [OF assms] by blast
qed


theorem real_mode_refines_witness:
  "real_core (push286 7 (RESET286 ring3)) = PUSH z80286 7 (real_core (RESET286 ring3))
   \<and> real_core (snd (IRET286 (RESET286 ring3))) = IRET z80286 (real_core (RESET286 ring3))"
  using real_mode_refines [OF real_ok_reset [of ring3], of 7 0 0 0] by auto

section \<open>The stack of words\<close>

definition stack_word286 :: "z286Core \<Rightarrow> nat \<Rightarrow> u16" where
  "stack_word286 c k = mem_read (mem c) (uint (base (descriptors c SS)) + uint (gpr c SP + of_nat (2 * k)))"

lemma sp_offset:
  fixes sp :: u16
  shows "uint (sp + of_nat (2 * j)) = addr_ptr \<lparr>segment = 0, offset = sp\<rparr> (2 * int j)"
proof -
  have "(word_of_int (2 * int j) :: u16) = of_nat (2 * j)"
    by simp
  then show ?thesis by (simp only: addr_ptr_def z86Addr.select_convs)
qed

lemma a20_push286 [simp]: "a20 (mem (push286 v c)) = a20 (mem c)"
  by (simp add: push286_def mem_write_def Let_def)

lemma stack_word_push286:
  "stack_word286 (push286 v c) j =
     mem_read (mem_write (mem c) (uint (base (descriptors c SS)) + addr_ptr \<lparr>segment = 0, offset = gpr c SP - 2\<rparr> 0) v)
       (uint (base (descriptors c SS)) + addr_ptr \<lparr>segment = 0, offset = gpr c SP - 2\<rparr> (2 * int j))"
  unfolding stack_word286_def sp_offset by (simp add: push286_def stack_ptr_def Let_def addr_ptr_def)

interpretation ss286: word_stack push286 "\<lambda>c. snd (pop286 c)" stack_word286 32767 "\<lambda>c. a20 (mem c) = None"
proof unfold_locales
  fix c :: z286Core and v :: u16 and k :: nat
  assume ok: "a20 (mem c) = None"
  then show "a20 (mem (push286 v c)) = None" "a20 (mem (snd (pop286 c))) = None" by simp_all
  let ?a = "\<lparr>segment = 0, offset = gpr c SP - 2\<rparr>"
  show "stack_word286 (push286 v c) 0 = v"
    using ok by (simp add: stack_word_push286 mem_read16 raw_mem_write16 a20_mask_def)
  show "stack_word286 (push286 v c) (Suc k) = stack_word286 c k" if "k < 32767"
  proof -
    have "apart (2 * int (Suc k)) 0"
      using that by (simp add: apart_def mod_pos_pos_trivial)
    note far = apart_ptr(1) [OF this, of ?a]
    have "stack_word286 c k =
        mem_read (mem c) (uint (base (descriptors c SS)) + addr_ptr ?a (2 * int (Suc k)))"
      unfolding stack_word286_def sp_offset by (simp add: addr_ptr_def)
    then show ?thesis
      using ok far unfolding stack_word_push286
      by (auto simp: mem_read16 raw_mem_write16 a20_mask_def)
  qed
  show "stack_word286 (snd (pop286 c)) k = stack_word286 c (Suc k)"
    by (simp add: stack_word286_def pop286_def add.assoc)
qed

end
