(* ===== verification/Z286_Gates.thy ===== *)
theory Z286_Gates
  imports Z286_Delivery Z286_Real
begin

text \<open>
  Calls and interrupts into an inner privilege level, and the returns from them: a far call
  through a gate followed by RETF, and INT followed by IRET, give the caller back its level, its
  code and stack selectors, its stack pointer, the address behind the call and, for the
  interrupt, its flags.  On the way the stack of the inner level is written and descriptors are
  marked as accessed; the relation \<open>kept\<close> says that nothing else of the memory changes.
\<close>

section \<open>What the memory keeps\<close>

definition kept :: "int set \<Rightarrow> z86Memory \<Rightarrow> z86Memory \<Rightarrow> bool" where
  "kept F m m' \<longleftrightarrow> a20 m' = a20 m \<and> (\<forall>x. x \<notin> F \<longrightarrow> raw m' x = raw m x \<or> raw m' x = raw m x OR 1)"

lemma kept_refl [simp, intro]: "kept F m m"
  by (simp add: kept_def)

lemma kept_trans [trans]: "kept F m m' \<Longrightarrow> kept F m' m'' \<Longrightarrow> kept F m m''"
proof -
  assume m: "kept F m m'" "kept F m' m''"
  have "raw m'' x = raw m x \<or> raw m'' x = raw m x OR 1" if "x \<notin> F" for x
  proof -
    have "raw m' x = raw m x \<or> raw m' x = raw m x OR 1" "raw m'' x = raw m' x \<or> raw m'' x = raw m' x OR 1"
      using m that by (auto simp: kept_def)
    then show ?thesis by (elim disjE) (simp_all add: or.assoc)
  qed
  then show ?thesis using m by (simp add: kept_def)
qed

lemma desc_flags1_raw: "desc_flags1 m d = raw m (d + 5)"
  by (simp add: desc_flags1_def ptr_read_def mem_size_def read_bytes_def)

lemma kept_accessed: "kept F m m' \<Longrightarrow> kept F m (set_accessed d m')"
  by (erule kept_trans) (simp add: kept_def raw_set_accessed desc_flags1_raw, simp add: set_accessed_def)

lemma kept_push:
  assumes "kept F m (mem c)" "a20 m = None"
    and "\<And>i. 0 \<le> i \<Longrightarrow> i < 2 \<Longrightarrow> uint (base (descriptors c SS)) + uint (gpr c SP - 2) + i \<in> F"
  shows "kept F m (mem (push286 v c))"
  using assms(1,2) assms(3) [of 0] assms(3) [of 1]
  by (auto simp: kept_def push286_def Let_def raw_mem_write16 stack_ptr_def a20_mask_def)

lemma type_div_2: "get_full_type m d div 2 = unat (drop_bit 1 (raw m (d + 5)) AND 0b1111)"
proof -
  have "unat x div 2 = unat (drop_bit 1 x)" for x :: u8
    using unat_div [of x 2] by (simp add: drop_bit_eq_div)
  then have "get_full_type m d div 2 = unat (drop_bit 1 (desc_flags1 m d AND 0b11111))"
    unfolding get_full_type_def .
  also have "drop_bit 1 (desc_flags1 m d AND 0b11111) = drop_bit 1 (desc_flags1 m d) AND 0b1111"
    by (simp add: drop_bit_and)
  finally show ?thesis by (simp add: desc_flags1_raw)
qed

lemma segment_types:
  assumes "t < 32"
  shows "code_segment t \<longleftrightarrow> 12 \<le> t div 2" "conforming_code t \<longleftrightarrow> 14 \<le> t div 2"
    "t \<in> {0b10010, 0b10011} \<longleftrightarrow> t div 2 = 9"
  using assms by (auto simp: code_segment_def conforming_code_def)

lemma type_less: "get_full_type m d < 32"
proof -
  have "desc_flags1 m d AND 0b11111 = take_bit 5 (desc_flags1 m d)"
    by (simp add: take_bit_eq_mask mask_numeral)
  then show ?thesis using take_bit_nat_less_exp [of 5] by (simp add: get_full_type_def unsigned_take_bit_eq)
qed

lemma kept_descriptor:
  assumes "kept F m m'" "d + 5 \<notin> F"
  shows "get_dpl m' d = get_dpl m d" "is_present m' d = is_present m d"
    "code_segment (get_full_type m' d) = code_segment (get_full_type m d)"
    "conforming_code (get_full_type m' d) = conforming_code (get_full_type m d)"
    "is_valid_for_stack m' d = is_valid_for_stack m d"
proof -
  consider "raw m' (d + 5) = raw m (d + 5)" | "raw m' (d + 5) = raw m (d + 5) OR 1"
    using assms by (auto simp: kept_def)
  then have "get_dpl m' d = get_dpl m d \<and> is_present m' d = is_present m d
      \<and> get_full_type m' d div 2 = get_full_type m d div 2"
  proof cases
    case 1
    then show ?thesis by (simp add: get_dpl_def is_present_def type_div_2 desc_flags1_raw)
  next
    case 2
    then show ?thesis
      by (simp add: get_dpl_def is_present_def type_div_2 desc_flags1_raw drop_bit_or bit_or_iff bit_1_iff)
  qed
  then show "get_dpl m' d = get_dpl m d" "is_present m' d = is_present m d"
    "code_segment (get_full_type m' d) = code_segment (get_full_type m d)"
    "conforming_code (get_full_type m' d) = conforming_code (get_full_type m d)"
    "is_valid_for_stack m' d = is_valid_for_stack m d"
    by (simp_all only: is_valid_for_stack_def segment_types [OF type_less])
qed

lemma kept_get_descriptor:
  assumes "kept F (mem c) (mem c')" "descriptors c' GDT = descriptors c GDT" "descriptors c' IDT = descriptors c IDT"
  shows "get_descriptor c' s = get_descriptor c s"
proof -
  have "descriptors c' (GDT + of_bool b) = descriptors c (GDT + of_bool b)" for b
    using assms(2,3) by (cases b) simp_all
  then show ?thesis
    using assms(1) by (simp only: get_descriptor_def table_descriptor_def mem_ptr_def a20_mask_def kept_def)
qed

section \<open>Returns to an outer level\<close>

lemma pop_word [simp]: "fst (pop286 c) = stack_word286 c 0"
  by (simp add: pop286_def stack_word286_def stack_ptr_def)

lemma pop_rest [simp]: "stack_word286 (snd (pop286 c)) k = stack_word286 c (Suc k)"
  by (simp add: stack_word286_def pop286_def add.assoc)

lemma pop_checks [simp]:
  "get_descriptor (snd (pop286 c)) s = get_descriptor c s"
  "return_checks s (snd (pop286 c)) = return_checks s c"
  "outer_stack_checks l s (snd (pop286 c)) = outer_stack_checks l s c"
proof -
  show d: "get_descriptor (snd (pop286 c)) s = get_descriptor c s" for s by (simp add: get_descriptor_def)
  show "return_checks s (snd (pop286 c)) = return_checks s c"
    "outer_stack_checks l s (snd (pop286 c)) = outer_stack_checks l s c"
    by (simp_all add: return_checks_def outer_stack_checks_def d split: option.split)
qed

lemma add_sp_0 [simp]: "add_sp 0 c = c"
  by (simp add: add_sp_def)

lemma load_sel [simp]:
  "gpr (load_cs s d t c) = gpr c" "rip (load_cs s d t c) = rip c" "mem (load_cs s d t c) = set_accessed d (mem c)"
  "gpr (load_stack l sp s d c) = (gpr c)(SP := sp)" "rip (load_stack l sp s d c) = rip c"
  "gpr (jmpabs286 v c) = gpr c" "rip (jmpabs286 v c) = v" "mem (jmpabs286 v c) = mem c"
  "gpr (set_flags286 b w c) = gpr c"
  by (simp_all add: load_cs_def load_stack_def jmpabs286_def mark_accessed_def load_descriptor_def set_seg_def
      set_flags286_def set_privilege_level_def Let_def)

lemma return_stack_eq:
  assumes "outer_stack_checks l (stack_word286 c 1) c = Inr d"
  shows "return_stack l 0 c =
     (False, load_stack l (stack_word286 c 0) (stack_word286 c 1) d (snd (pop286 (snd (pop286 c)))))"
  using assms outer_stack_checks_Inr [OF assms] by (simp add: return_stack_def Let_def split_beta)

lemma RETFI_outer:
  assumes "protected_mode c" "return_checks (stack_word286 c 1) c = Inr dc" "is_present (mem c) dc"
    and "cpl c < rpl (stack_word286 c 1)"
    and "outer_stack_checks (rpl (stack_word286 c 1)) (stack_word286 c 3) c = Inr ds"
  shows "RETFI_impl 0 c = (False, jmpabs286 (stack_word286 c 0)
    (load_cs (stack_word286 c 1) dc (get_full_type (mem c) dc)
      (load_stack (rpl (stack_word286 c 1)) (stack_word286 c 2) (stack_word286 c 3) ds
        (snd (pop286 (snd (pop286 (snd (pop286 (snd (pop286 c)))))))))))"
proof -
  let ?c = "snd (pop286 (snd (pop286 c)))"
  have "return_stack (rpl (stack_word286 c 1)) 0 ?c =
      (False, load_stack (rpl (stack_word286 c 1)) (stack_word286 c 2) (stack_word286 c 3) ds
        (snd (pop286 (snd (pop286 ?c)))))"
    using return_stack_eq [of "rpl (stack_word286 c 1)" ?c ds] assms(5)
    by (simp add: numeral_2_eq_2 numeral_3_eq_3)
  then show ?thesis
    using assms by (simp add: RETFI_impl_def write_cs_ret_def split_beta Let_def)
qed

lemma IRET_outer:
  assumes "protected_mode c" "\<not> nested_task c" "return_checks (stack_word286 c 1) c = Inr dc"
    and "cpl c < rpl (stack_word286 c 1)"
    and "outer_stack_checks (rpl (stack_word286 c 1)) (stack_word286 c 4) c = Inr ds"
  shows "IRET286 c = (False, jmpabs286 (stack_word286 c 0)
    (load_cs (stack_word286 c 1) dc (get_full_type (mem c) dc)
      (set_flags286 False (stack_word286 c 2)
        (load_stack (rpl (stack_word286 c 1)) (stack_word286 c 3) (stack_word286 c 4) ds
          (snd (pop286 (snd (pop286 (snd (pop286 (snd (pop286 (snd (pop286 c))))))))))))))"
proof -
  let ?c = "snd (pop286 (snd (pop286 (snd (pop286 c)))))"
  have "return_stack (rpl (stack_word286 c 1)) 0 ?c =
      (False, load_stack (rpl (stack_word286 c 1)) (stack_word286 c 3) (stack_word286 c 4) ds
        (snd (pop286 (snd (pop286 ?c)))))"
    using return_stack_eq [of "rpl (stack_word286 c 1)" ?c ds] assms(5)
    by (simp add: eval_nat_numeral)
  then show ?thesis
    using assms by (simp add: IRET286_def write_cs_iret_def split_beta Let_def numeral_2_eq_2)
qed

section \<open>The frame on the inner stack\<close>

text \<open>The bytes of the top words of the stack.\<close>

definition frame_bytes :: "z286Core \<Rightarrow> nat \<Rightarrow> int set" where
  "frame_bytes c n = {uint (base (descriptors c SS)) + uint (gpr c SP + of_nat (2 * k)) + i |k i. k < n \<and> (i = 0 \<or> i = 1)}"

lemma frame_bytesI:
  "k < n \<Longrightarrow> i = 0 \<or> i = 1 \<Longrightarrow> b = base (descriptors c SS) \<Longrightarrow> sp = gpr c SP + of_nat (2 * k)
     \<Longrightarrow> uint b + uint sp + i \<in> frame_bytes c n"
  by (auto simp: frame_bytes_def)

lemma stack_word_cong:
  assumes "gpr c' SP = gpr c SP" "base (descriptors c' SS) = base (descriptors c SS)"
    and "a20 (mem c) = None" "a20 (mem c') = None"
    and "\<And>x. x \<in> frame_bytes c n \<Longrightarrow> raw (mem c') x = raw (mem c) x" "k < n"
  shows "stack_word286 c' k = stack_word286 c k"
proof -
  let ?p = "uint (base (descriptors c SS)) + uint (gpr c SP + of_nat (2 * k))"
  have "?p \<in> frame_bytes c n" "?p + 1 \<in> frame_bytes c n"
    using frame_bytesI [OF assms(6), of 0 "base (descriptors c SS)" c "gpr c SP + of_nat (2 * k)"]
      frame_bytesI [OF assms(6), of 1 "base (descriptors c SS)" c "gpr c SP + of_nat (2 * k)"] by simp_all
  then show ?thesis
    using assms(1-4) by (simp add: stack_word286_def mem_read16 a20_mask_def assms(5))
qed

text \<open>What the outer level needs for a return: its segments as when they were loaded.\<close>

definition returnable :: "z286Core \<Rightarrow> int \<Rightarrow> int \<Rightarrow> bool" where
  "returnable c dc ds \<longleftrightarrow>
     \<not> null_selector (seg c CS) \<and> get_descriptor c (seg c CS) = Some dc \<and> is_present (mem c) dc
     \<and> code_segment (get_full_type (mem c) dc)
     \<and> (if conforming_code (get_full_type (mem c) dc) then get_dpl (mem c) dc \<le> cpl c else get_dpl (mem c) dc = cpl c)
     \<and> \<not> null_selector (seg c SS) \<and> get_descriptor c (seg c SS) = Some ds \<and> is_present (mem c) ds
     \<and> is_valid_for_stack (mem c) ds \<and> get_dpl (mem c) ds = cpl c"

lemma returnable_checks:
  assumes "returnable c dc ds" "level_ok True c" "kept F (mem c) (mem c')" "dc + 5 \<notin> F" "ds + 5 \<notin> F"
    and "descriptors c' GDT = descriptors c GDT" "descriptors c' IDT = descriptors c IDT" "cpl c' \<le> cpl c"
  shows "return_checks (seg c CS) c' = Inr dc" "is_present (mem c') dc"
    "outer_stack_checks (rpl (seg c CS)) (seg c SS) c' = Inr ds"
proof -
  note d = kept_get_descriptor [OF assms(3,6,7)]
  note kc = kept_descriptor [OF assms(3,4)] and ks = kept_descriptor [OF assms(3,5)]
  show "return_checks (seg c CS) c' = Inr dc" "is_present (mem c') dc"
    "outer_stack_checks (rpl (seg c CS)) (seg c SS) c' = Inr ds"
    using assms(1,2,8)
    by (auto simp: return_checks_def outer_stack_checks_def returnable_def level_ok_def d kc ks Let_def)
qed

section \<open>Calls through a gate\<close>

lemma enter_stack_load:
  "enter_stack l c = Inr c' \<Longrightarrow> \<exists>sp ss d. c' = load_stack l sp ss d c"
  by (auto simp: enter_stack_def split: prod.splits sum.splits)

lemma call_inner:
  assumes "CALLFABS_impl next_ip ip s c = (False, c1)" "cpl c1 < cpl c" "get_descriptor c s = Some g" "protected_mode c"
  obtains sp ss d sel t gate_ip where
    "c1 = jmpabs286 gate_ip (push286 next_ip (push286 (seg c CS)
       (load_cs sel g t (push_old_stack c (load_stack (cpl c1) sp ss d c)))))"
  using assms
  by (auto simp: CALLFABS_impl_def write_cs_call_def Let_def load_cs_real_def set_descriptor_base_def
      dest!: enter_stack_load split: prod.splits sum.splits option.splits if_splits)

lemma gpr_push [simp]: "gpr (push286 v c) = (gpr c)(SP := gpr c SP - 2)" "rip (push286 v c) = rip c"
  by (simp_all add: push286_def Let_def)

lemma stack_word_jmpabs [simp]: "stack_word286 (jmpabs286 v c) k = stack_word286 c k"
  by (simp add: stack_word286_def)

lemma frame_jmpabs [simp]: "frame_bytes (jmpabs286 v c) n = frame_bytes c n"
  by (simp add: frame_bytes_def)

lemma a20_accessed [simp]: "a20 (set_accessed d m) = a20 m"
  by (simp add: set_accessed_def)

lemma a20_old_stack [simp]: "a20 (mem (push_old_stack o' c)) = a20 (mem c)"
  by (simp add: push_old_stack_def)

lemma old_stack_words:
  assumes "a20 (mem c) = None"
  shows "stack_word286 (push_old_stack o' c) 0 = gpr o' SP" "stack_word286 (push_old_stack o' c) (Suc 0) = seg o' SS"
  using assms by (simp_all add: push_old_stack_def ss286.peek_push_0 ss286.peek_push_Suc)

lemma words_behind_pushes:
  assumes "a20 (mem c) = None" "length vs + k < 32767"
  shows "stack_word286 (fold push286 vs c) (length vs + k) = stack_word286 c k"
  using assms by (intro ss286.peek_below_pushes) simp_all

text \<open>Marking a descriptor outside of the frame leaves the words of the frame.\<close>

lemma stack_word_load_cs:
  assumes "a20 (mem c) = None" "g + 5 \<notin> frame_bytes c n" "k < n"
  shows "stack_word286 (load_cs s g t c) k = stack_word286 c k"
  using assms by (intro stack_word_cong [where n = n]) (auto simp: raw_set_accessed)

lemma frame_below:
  assumes "gpr c SP = sp" "gpr c' SP = sp - of_nat (2 * m)" "base (descriptors c' SS) = base (descriptors c SS)"
  shows "frame_bytes c n \<subseteq> frame_bytes c' (n + m)"
proof
  fix x assume "x \<in> frame_bytes c n"
  then obtain k i where "k < n" "i = 0 \<or> i = 1" "x = uint (base (descriptors c SS)) + uint (sp + of_nat (2 * k)) + i"
    using assms(1) by (auto simp: frame_bytes_def)
  moreover from this have "uint (base (descriptors c SS)) + uint (sp + of_nat (2 * k)) + i \<in> frame_bytes c' (n + m)"
    using assms(2,3) by (intro frame_bytesI [of "k + m"]) (simp_all add: algebra_simps)
  ultimately show "x \<in> frame_bytes c' (n + m)" by simp
qed

lemma kept_push_frame:
  assumes "kept (frame_bytes c' n) m (mem c)" "a20 m = None"
    and "base (descriptors c SS) = base (descriptors c' SS)" "gpr c SP - 2 = gpr c' SP + of_nat (2 * k)" "k < n"
  shows "kept (frame_bytes c' n) m (mem (push286 v c))"
  using assms(1,2)
proof (rule kept_push)
  show "uint (base (descriptors c SS)) + uint (gpr c SP - 2) + i \<in> frame_bytes c' n" if "0 \<le> i" "i < 2" for i
    using that assms(3-5) by (intro frame_bytesI [of k]) auto
qed

lemma call_frame:
  assumes c3_def: "c3 = load_cs sel g t (push_old_stack c (load_stack l sp ss d c))"
    and c1_def: "c1 = jmpabs286 gate_ip (push286 next_ip (push286 (seg c CS) c3))"
    and a20: "a20 (mem c) = None" and g: "g + 5 \<notin> frame_bytes c1 4"
  shows "stack_word286 c1 0 = next_ip" "stack_word286 c1 1 = seg c CS" "stack_word286 c1 2 = gpr c SP"
    "stack_word286 c1 3 = seg c SS" "kept (frame_bytes c1 4) (mem c) (mem c1)"
    "descriptors c1 GDT = descriptors c GDT" "descriptors c1 IDT = descriptors c IDT"
    "seg c1 = (seg c)(SS := ss, CS := sel)" "(gpr c1)(SP := gpr c SP) = gpr c"
proof -
  let ?c0 = "load_stack l sp ss d c"
  let ?c2 = "push_old_stack c ?c0"
  have sp: "gpr ?c2 SP = sp - 4" "gpr c1 SP = sp - 8" "gpr c3 SP = sp - 4"
    by (simp_all add: c1_def c3_def push_old_stack_def)
  have a: "a20 (mem ?c2) = None" "a20 (mem c3) = None" using a20 by (simp_all add: c3_def)
  have base: "base (descriptors c1 SS) = base (descriptors ?c2 SS)" "base (descriptors c3 SS) = base (descriptors ?c2 SS)"
    by (simp_all add: c1_def c3_def)
  have "frame_bytes ?c2 2 \<subseteq> frame_bytes c1 (2 + 2)"
    using sp base by (intro frame_below [where sp = "sp - 4"]) simp_all
  then have g2: "g + 5 \<notin> frame_bytes ?c2 2" using g by auto
  have w: "stack_word286 c3 k = stack_word286 ?c2 k" if "k < 2" for k
    unfolding c3_def by (rule stack_word_load_cs [OF a(1) g2 that])
  have old: "stack_word286 c3 0 = gpr c SP" "stack_word286 c3 1 = seg c SS"
    using w [of 0] w [of 1] old_stack_words [of ?c0 c] a20 by simp_all
  have behind: "stack_word286 c1 (2 + k) = stack_word286 c3 k" if "k < 2" for k
    using words_behind_pushes [OF a(2), of "[seg c CS, next_ip]" k] that by (simp add: c1_def numeral_2_eq_2)
  show "stack_word286 c1 0 = next_ip" "stack_word286 c1 1 = seg c CS"
    using a by (simp_all add: c1_def ss286.peek_push_0 ss286.peek_push_Suc)
  show "stack_word286 c1 2 = gpr c SP" "stack_word286 c1 3 = seg c SS"
    using behind [of 0] behind [of 1] old by simp_all
  show "kept (frame_bytes c1 4) (mem c) (mem c1)"
  proof -
    have "kept (frame_bytes c1 4) (mem c) (mem ?c0)" by (simp add: kept_accessed)
    then have "kept (frame_bytes c1 4) (mem c) (mem (push286 (seg c SS) ?c0))"
      by (rule kept_push_frame [where k = 3]) (simp_all add: a20 sp c1_def c3_def push_old_stack_def)
    then have "kept (frame_bytes c1 4) (mem c) (mem ?c2)" unfolding push_old_stack_def
      by (rule kept_push_frame [where k = 2]) (simp_all add: a20 sp c1_def c3_def push_old_stack_def)
    then have "kept (frame_bytes c1 4) (mem c) (mem c3)" by (simp add: c3_def kept_accessed)
    then have "kept (frame_bytes c1 4) (mem c) (mem (push286 (seg c CS) c3))"
      by (rule kept_push_frame [where k = 1]) (simp_all add: a20 sp base c1_def)
    then have "kept (frame_bytes c1 4) (mem c) (mem (push286 next_ip (push286 (seg c CS) c3)))"
      by (rule kept_push_frame [where k = 0]) (simp_all add: a20 sp base c1_def)
    then show ?thesis by (simp add: c1_def)
  qed
  show "descriptors c1 GDT = descriptors c GDT" "descriptors c1 IDT = descriptors c IDT"
    "seg c1 = (seg c)(SS := ss, CS := sel)" "(gpr c1)(SP := gpr c SP) = gpr c"
    by (simp_all add: c1_def c3_def push_old_stack_def)
qed

lemma flags_kept [simp]:
  "get_flags286 (push286 v c) = get_flags286 c" "get_flags286 (snd (pop286 c)) = get_flags286 c"
  "get_flags286 (jmpabs286 v c) = get_flags286 c" "get_flags286 (push_old_stack o' c) = get_flags286 c"
  "get_flags286 (load_cs s d t c) = get_flags286 c" "get_flags286 (load_stack l sp s d c) = get_flags286 c"
  by (simp_all add: get_flags286_def push286_def pop286_def jmpabs286_def push_old_stack_def load_cs_def load_stack_def
      set_seg_def load_descriptor_def mark_accessed_def set_privilege_level_def Let_def)

lemma gpr_pop [simp]: "gpr (snd (pop286 c)) = (gpr c)(SP := gpr c SP + 2)"
  by (simp add: pop286_def)

text \<open>C2: A far call through a gate into an inner level, followed by a far return with the stack as
  the call left it, gives the caller back its privilege level, all selectors, all registers, the
  flags, and the address behind the call: provided that the caller's code and stack descriptors
  are still valid for its level and that the frame on the inner stack does not lie on the access
  bytes of the descriptors involved.\<close>

theorem gate_call_returns:
  assumes "level_ok True c" "a20 (mem c) = None" "returnable c dc ds" "get_descriptor c s = Some g"
    and "CALLFABS_impl next_ip ip s c = (False, c1)" "cpl c1 < cpl c"
    and "\<forall>d \<in> {g, dc, ds}. d + 5 \<notin> frame_bytes c1 4"
  shows "\<exists>c2. RETFI_impl 0 c1 = (False, c2) \<and> cpl c2 = cpl c \<and> seg c2 = seg c \<and> gpr c2 = gpr c
    \<and> rip c2 = next_ip \<and> get_flags286 c2 = get_flags286 c"
proof -
  have p: "protected_mode c" using assms(1) by (simp add: level_ok_def)
  obtain sp ss d sel t gate_ip where c1: "c1 = jmpabs286 gate_ip (push286 next_ip (push286 (seg c CS)
       (load_cs sel g t (push_old_stack c (load_stack (cpl c1) sp ss d c)))))"
    using call_inner [OF assms(5,6,4) p] .
  have g: "g + 5 \<notin> frame_bytes c1 4" using assms(7) by simp
  note frame = call_frame [OF refl c1 assms(2) g]
  have p1: "protected_mode c1" using p by (subst c1) (simp add: protected_mode_def)
  have f1: "get_flags286 c1 = get_flags286 c" by (subst c1) simp
  note ok = returnable_checks [OF assms(3,1) frame(5) _ _ frame(6,7)]
  have rpl: "rpl (seg c CS) = cpl c" using assms(1) by (simp add: level_ok_def)
  have seg: "(seg c1)(SS := seg c SS, CS := seg c CS) = seg c" unfolding frame(8) by auto
  have "RETFI_impl 0 c1 = (False, jmpabs286 next_ip (load_cs (seg c CS) dc (get_full_type (mem c1) dc)
      (load_stack (cpl c) (gpr c SP) (seg c SS) ds
        (snd (pop286 (snd (pop286 (snd (pop286 (snd (pop286 c1)))))))))))"
    using RETFI_outer [OF p1, of dc ds] ok assms(6,7) unfolding frame(1-4) rpl by simp
  then show ?thesis using seg by (simp add: frame(9) f1)
qed

section \<open>Interrupts through a gate\<close>

text \<open>The flags, but for the trap flag, which a handler clears.\<close>

definition flag_fields :: "z286Core \<Rightarrow> bool list \<times> nat" where
  "flag_fields c =
     ([carry c, parity c, auxiliary c, zero c, sign c, interrupt c, direction c, overflow c], iopl c)"

lemma flag_fields_kept [simp]:
  "flag_fields (push286 v c) = flag_fields c" "flag_fields (snd (pop286 c)) = flag_fields c"
  "flag_fields (push_old_stack o' c) = flag_fields c" "flag_fields (load_stack l sp s d c) = flag_fields c"
  "flag_fields (c\<lparr>rip := v\<rparr>) = flag_fields c" "flag_fields (enter_handler s d t c) = flag_fields c"
  by (simp_all add: flag_fields_def push286_def pop286_def push_old_stack_def load_stack_def enter_handler_def
      set_seg_def load_descriptor_def mark_accessed_def set_privilege_level_def Let_def)

lemma bit_get_flags286_low:
  assumes "n < 12"
  shows "bit (get_flags286 c) n \<longleftrightarrow>
     n = 0 \<and> carry c \<or> n = 1 \<or> n = 2 \<and> parity c \<or> n = 4 \<and> auxiliary c \<or> n = 6 \<and> zero c \<or> n = 7 \<and> sign c
     \<or> n = 8 \<and> trap c \<or> n = 9 \<and> interrupt c \<or> n = 10 \<and> direction c \<or> n = 11 \<and> overflow c"
proof -
  have b: "(0x6002 :: u16) = push_bit 1 (of_bool True) OR (push_bit 13 (of_bool True) OR push_bit 14 (of_bool True))"
    by simp
  have "\<not> bit (push_bit 12 (of_nat (iopl c)) :: u16) n" using assms by (simp add: bit_push_bit_iff)
  then show ?thesis
    using assms unfolding get_flags286_def b
    by (simp only: bit_or_iff bit_push_of_bool bit_of_bool_iff simp_thms numeral_less_iff arith_simps
        len_bit0 len_bit1 len_num1) auto
qed

lemma get_flags286_cong:
  "flag_fields c' = flag_fields c \<Longrightarrow> trap c' = trap c \<Longrightarrow> get_flags286 c' = get_flags286 c"
  by (simp add: flag_fields_def get_flags286_def)

lemma flags_back:
  assumes "flag_fields c' = flag_fields c" "cpl c' \<noteq> 0"
  shows "get_flags286 (set_flags286 False (get_flags286 c) c') = get_flags286 c"
proof (rule get_flags286_cong)
  show "trap (set_flags286 False (get_flags286 c) c') = trap c"
    by (simp add: set_flags286_def Let_def bit_get_flags286_low)
  show "flag_fields (set_flags286 False (get_flags286 c) c') = flag_fields c"
    using assms by (simp add: flag_fields_def set_flags286_def Let_def bit_get_flags286_low)
qed

lemma interrupt_frame_pushes:
  "interrupt_frame fl ret c = fold push286 [fl, seg c CS, ret] c"
  by (simp add: interrupt_frame_def)

lemma enter_handler_fields [simp]:
  "gpr (enter_handler s d t c) = gpr c" "mem (enter_handler s d t c) = set_accessed d (mem c)"
  "nested_task (enter_handler s d t c) = nested_task c"
  by (simp_all add: enter_handler_def Let_def set_seg_def mark_accessed_def load_descriptor_def)

lemma stack_word_enter_handler:
  assumes "a20 (mem c) = None" "g + 5 \<notin> frame_bytes c n" "k < n"
  shows "stack_word286 (enter_handler s g t c) k = stack_word286 c k"
  using assms by (intro stack_word_cong [where n = n]) (auto simp: raw_set_accessed)

lemma frame_rip [simp]:
  "frame_bytes (c\<lparr>rip := v\<rparr>) n = frame_bytes c n" "stack_word286 (c\<lparr>rip := v\<rparr>) k = stack_word286 c k"
  by (simp_all add: frame_bytes_def stack_word286_def)

lemma frame_enter_handler [simp]: "frame_bytes (enter_handler s d t c) n = frame_bytes c n"
  by (simp add: frame_bytes_def)

lemma int_frame:
  assumes c3_def: "c3 = (push_old_stack c (load_stack l sp ss d c))\<lparr>rip := x\<rparr>"
    and c1_def: "c1 = enter_handler sel g t (interrupt_frame fl ret c3)"
    and a20: "a20 (mem c) = None" and g: "g + 5 \<notin> frame_bytes c1 5"
  shows "stack_word286 c1 0 = ret" "stack_word286 c1 1 = seg c CS" "stack_word286 c1 2 = fl"
    "stack_word286 c1 3 = gpr c SP" "stack_word286 c1 4 = seg c SS" "kept (frame_bytes c1 5) (mem c) (mem c1)"
    "descriptors c1 GDT = descriptors c GDT" "descriptors c1 IDT = descriptors c IDT"
    "(seg c1)(SS := seg c SS, CS := seg c CS) = seg c" "(gpr c1)(SP := gpr c SP) = gpr c"
    "flag_fields c1 = flag_fields c" "nested_task c1 = nested_task c"
proof -
  let ?c0 = "load_stack l sp ss d c"
  let ?c4 = "fold push286 [fl, seg c CS, ret] c3"
  have cs: "seg c3 CS = seg c CS" by (simp add: c3_def)
  have c1: "c1 = enter_handler sel g t ?c4" using cs by (simp add: c1_def interrupt_frame_pushes)
  have sp: "gpr c3 SP = sp - 4" "gpr c1 SP = sp - 10" "gpr ?c4 SP = sp - 10"
    by (simp_all add: c1 c3_def push_old_stack_def)
  have base: "base (descriptors c1 SS) = base (descriptors ?c0 SS)" "base (descriptors c3 SS) = base (descriptors ?c0 SS)"
    by (simp_all add: c1 c3_def)
  have a: "a20 (mem c3) = None" "a20 (mem ?c4) = None" using a20 by (simp_all add: c3_def)
  have g4: "g + 5 \<notin> frame_bytes ?c4 5" using g by (simp add: c1)
  have w: "stack_word286 c1 k = stack_word286 ?c4 k" if "k < 5" for k
    unfolding c1 by (rule stack_word_enter_handler [OF a(2) g4 that])
  have old: "stack_word286 c3 0 = gpr c SP" "stack_word286 c3 1 = seg c SS"
    using old_stack_words [of ?c0 c] a20 by (simp_all add: c3_def)
  have behind: "stack_word286 ?c4 (3 + k) = stack_word286 c3 k" if "k < 2" for k
    using words_behind_pushes [OF a(1), of "[fl, seg c CS, ret]" k] that by (simp add: numeral_3_eq_3)
  have "stack_word286 ?c4 k = rev [fl, seg c CS, ret] ! k" if "k < 3" for k
    using a that by (intro ss286.peek_pushes) simp_all
  from this [of 0] this [of 1] this [of 2]
  show "stack_word286 c1 0 = ret" "stack_word286 c1 1 = seg c CS" "stack_word286 c1 2 = fl"
    using w [of 0] w [of 1] w [of 2] by simp_all
  show "stack_word286 c1 3 = gpr c SP" "stack_word286 c1 4 = seg c SS"
    using w [of 3] w [of 4] behind [of 0] behind [of 1] old by simp_all
  show "kept (frame_bytes c1 5) (mem c) (mem c1)"
  proof -
    have "kept (frame_bytes c1 5) (mem c) (mem ?c0)" by (simp add: kept_accessed)
    then have "kept (frame_bytes c1 5) (mem c) (mem (push286 (seg c SS) ?c0))"
      by (rule kept_push_frame [where k = 4]) (simp_all add: a20 sp base)
    then have "kept (frame_bytes c1 5) (mem c) (mem (push_old_stack c ?c0))" unfolding push_old_stack_def
      by (rule kept_push_frame [where k = 3]) (simp_all add: a20 sp base)
    then have "kept (frame_bytes c1 5) (mem c) (mem c3)" by (simp add: c3_def)
    then have "kept (frame_bytes c1 5) (mem c) (mem (push286 fl c3))"
      by (rule kept_push_frame [where k = 2]) (simp_all add: a20 sp base)
    then have "kept (frame_bytes c1 5) (mem c) (mem (push286 (seg c CS) (push286 fl c3)))"
      by (rule kept_push_frame [where k = 1]) (simp_all add: a20 sp base)
    then have "kept (frame_bytes c1 5) (mem c) (mem (push286 ret (push286 (seg c CS) (push286 fl c3))))"
      by (rule kept_push_frame [where k = 0]) (simp_all add: a20 sp base)
    then show ?thesis by (simp add: c1 kept_accessed)
  qed
  show "descriptors c1 GDT = descriptors c GDT" "descriptors c1 IDT = descriptors c IDT"
    "(seg c1)(SS := seg c SS, CS := seg c CS) = seg c" "(gpr c1)(SP := gpr c SP) = gpr c"
    "flag_fields c1 = flag_fields c" "nested_task c1 = nested_task c"
    by (auto simp: c1 c3_def push_old_stack_def)
qed

lemma int_stack_load:
  "int_stack b inner l c = Inr c' \<Longrightarrow> c' = c \<and> \<not> inner \<or> (\<exists>sp ss d. inner \<and> c' = load_stack l sp ss d c)"
  by (cases "enter_stack l c") (auto simp: int_stack_def dest: enter_stack_load split: if_splits)

lemma flags_old_stack_load [simp]: "get_flags286 (push_old_stack c (load_stack l sp ss d c)) = get_flags286 c"
  by simp

lemma cpl_enter_int [simp]: "cpl (enter_int n gate s dest t ret c) = cpl c"
  by (simp add: enter_int_def Let_def)

lemma enter_int_frame:
  "\<not> interrupt_uses_error_code n \<Longrightarrow> enter_int n gate s dest t ret c =
     enter_handler s dest t (interrupt_frame (get_flags286 c) ret (c\<lparr>rip := desc_ip (mem c) gate\<rparr>))"
  by (simp add: enter_int_def push_error_code_def Let_def)

lemma int_dest_checks_Inr: "int_dest_checks b s c = Inr g \<Longrightarrow> get_descriptor c s = Some g"
  by (auto simp: int_dest_checks_def split: if_splits option.splits)

lemma int_inner:
  assumes "int_software_interrupt junk ret n i1 c = (False, c1)" "cpl c1 < cpl c" "protected_mode c"
    and "\<not> interrupt_uses_error_code n" "get_idt_descriptor c n = Some gate"
    and "get_descriptor c (desc_segment (mem c) gate) = Some g"
  obtains sp ss d sel t x where
    "c1 = enter_handler sel g t (interrupt_frame (get_flags286 c) ret
       ((push_old_stack c (load_stack (cpl c1) sp ss d c))\<lparr>rip := x\<rparr>))"
proof -
  let ?s = "desc_segment (mem c) gate"
  let ?t = "get_full_type (mem c) g"
  let ?l = "get_dpl (mem c) g"
  let ?i = "\<not> conforming_code ?t \<and> ?l < cpl c"
  from assms obtain c' where c': "int_stack i1 ?i ?l c = Inr c'"
    and c1: "c1 = enter_int n gate ?s g ?t ret (if ?i then push_old_stack c c' else c')"
  proof -
    have "\<exists>dest. int_dest_checks i1 ?s c = Inr dest"
      using assms(1,2) unfolding int_software_interrupt_def if_P [OF assms(3)] assms(5) option.case Let_def
      by (simp split: if_split_asm sum.split_asm)
    then have dest: "int_dest_checks i1 ?s c = Inr g" using assms(6) int_dest_checks_Inr by fastforce
    have "(case int_stack i1 ?i ?l c of Inl f \<Rightarrow> (True, raise_fault f c)
        | Inr c' \<Rightarrow> (False, enter_int n gate ?s g ?t ret (if ?i then push_old_stack c c' else c'))) = (False, c1)"
      using assms(1,2) unfolding int_software_interrupt_def if_P [OF assms(3)] assms(5) option.case Let_def dest sum.case
      by (simp only: split: if_split_asm sum.split_asm) simp_all
    then show ?thesis using that by (simp split: sum.split_asm)
  qed
  from int_stack_load [OF c'] obtain sp ss d where i: "?i" and ld: "c' = load_stack ?l sp ss d c"
    using assms(2) unfolding c1 by auto
  have "cpl c1 = ?l" unfolding c1 ld using i by simp
  moreover have "c1 = enter_handler ?s g ?t (interrupt_frame (get_flags286 c) ret
       ((push_old_stack c (load_stack ?l sp ss d c))\<lparr>rip := desc_ip (mem (push_old_stack c c')) gate\<rparr>))"
    using c1 unfolding if_P [OF i] enter_int_frame [OF assms(4)] by (simp add: ld)
  ultimately show ?thesis by (intro that) simp
qed

text \<open>C3: INT through a gate into an inner level, followed by IRET with the stack as the interrupt left
  it, gives the interrupted code back its privilege level, all selectors, all registers, every flag
  and the return address, under the same conditions on its segments and the frame, when the vector
  pushes no error code and no task is nested.\<close>

theorem int_iret_returns:
  assumes "level_ok True c" "a20 (mem c) = None" "returnable c dc ds" "\<not> nested_task c"
    and "get_idt_descriptor c n = Some gate" "get_descriptor c (desc_segment (mem c) gate) = Some g"
    and "int_software_interrupt junk ret n i1 c = (False, c1)" "cpl c1 < cpl c" "\<not> interrupt_uses_error_code n"
    and "\<forall>d \<in> {g, dc, ds}. d + 5 \<notin> frame_bytes c1 5"
  shows "\<exists>c2. IRET286 c1 = (False, c2) \<and> cpl c2 = cpl c \<and> seg c2 = seg c \<and> gpr c2 = gpr c
    \<and> rip c2 = ret \<and> get_flags286 c2 = get_flags286 c"
proof -
  have p: "protected_mode c" using assms(1) by (simp add: level_ok_def)
  obtain sp ss d sel t x where c1: "c1 = enter_handler sel g t (interrupt_frame (get_flags286 c) ret
       ((push_old_stack c (load_stack (cpl c1) sp ss d c))\<lparr>rip := x\<rparr>))"
    using int_inner [OF assms(7,8) p assms(9,5,6)] .
  have g: "g + 5 \<notin> frame_bytes c1 5" using assms(10) by simp
  note frame = int_frame [OF refl c1 assms(2) g]
  have p1: "protected_mode c1" using p by (subst c1) (simp add: protected_mode_def)
  note ok = returnable_checks [OF assms(3,1) frame(6) _ _ frame(7,8)]
  have rpl: "rpl (seg c CS) = cpl c" using assms(1) by (simp add: level_ok_def)
  let ?c5 = "load_stack (cpl c) (gpr c SP) (seg c SS) ds
        (snd (pop286 (snd (pop286 (snd (pop286 (snd (pop286 (snd (pop286 c1))))))))))"
  have r: "IRET286 c1 = (False, jmpabs286 ret (load_cs (seg c CS) dc (get_full_type (mem c1) dc)
      (set_flags286 False (get_flags286 c) ?c5)))"
    using IRET_outer [OF p1, of dc ds] ok assms(4,8,10) unfolding frame(1-5,12) rpl by simp
  have "get_flags286 (set_flags286 False (get_flags286 c) ?c5) = get_flags286 c"
    using assms(8) by (intro flags_back) (simp_all add: frame(11))
  with r show ?thesis using frame(9) by (simp add: frame(10))
qed

section \<open>An example\<close>

lemma ring3_descriptors:
  "get_descriptor ring3 0x1B = Some 0x1018" "get_descriptor ring3 0x23 = Some 0x1020"
  "get_descriptor ring3 0x28 = Some 0x1028" "get_descriptor ring3 0x08 = Some 0x1008" "get_descriptor ring3 0x10 = Some 0x1010"
  by (simp_all add: sample286_eval)

lemma ring3_flags:
  "desc_flags1 sample286_mem 0x1008 = 0x9A" "desc_flags1 sample286_mem 0x1010 = 0x92" "desc_flags1 sample286_mem 0x1018 = 0xFA"
  "desc_flags1 sample286_mem 0x1020 = 0xF2" "desc_flags1 sample286_mem 0x1028 = 0xE4"
  "desc_segment sample286_mem 0x1028 = 8" "tss_stack ring3 0 = (0x8000, 0x10)" "desc_base sample286_mem 0x1010 = 0x20000"
  by (simp_all add: desc_flags1_def desc_segment_def desc_base_def tss_stack_def sample286_eval upt_rec)

lemmas descriptor_eval = get_full_type_def get_dpl_def is_present_def is_valid_for_stack_def
  code_segment_def conforming_code_def null_selector_def rpl_def with_rpl_def system_types ring3_sel ring3_descriptors ring3_flags

lemma ring3_returnable: "returnable ring3 0x1018 0x1020"
  by (simp add: returnable_def descriptor_eval)

lemma ring3_enter: "enter_stack 0 ring3 = Inr (load_stack 0 0x8000 0x10 0x1010 ring3)"
  by (simp add: enter_stack_def gate_tss_checks_def descriptor_eval)

lemma ring3_call:
  "\<exists>ip. CALLFABS_impl 0x100 0 0x28 ring3 = (False, jmpabs286 ip (push286 0x100 (push286 0x1B
     (load_cs 8 0x1028 0x1A (push_old_stack ring3 (load_stack 0 0x8000 0x10 0x1010 ring3))))))"
proof -
  have "gate_checks 0x28 0x1028 ring3 = Inr (8, 0x1008)"
    by (simp add: gate_checks_def descriptor_eval)
  moreover have "get_full_type sample286_mem 0x1028 = DESCRIPTOR_CALL_GATE16" "get_full_type sample286_mem 0x1008 = 0x1A"
    "get_dpl sample286_mem 0x1008 = 0"
    by (simp_all add: descriptor_eval)
  ultimately show ?thesis
    using ring3_sel(2-5)
    by (simp add: CALLFABS_impl_def write_cs_call_def ring3_enter Let_def ring3_sel(1) ring3_descriptors null_selector_def
        transfer_types_def is_task_def system_types conforming_code_def with_rpl_def) (rule exI, rule refl)
qed

lemma ring3_stack:
  "base (descriptors (load_stack 0 sp ss 0x1010 ring3) SS) = 0x20000"
  using ring3_flags by (simp add: cache_of_def ring3_sel)

lemma frame_outside:
  assumes "base (descriptors c SS) = 0x20000" "x < 0x20000"
  shows "x \<notin> frame_bytes c n"
proof
  assume "x \<in> frame_bytes c n"
  then obtain k i where "x = uint (base (descriptors c SS)) + uint (gpr c SP + of_nat (2 * k)) + i" "i = 0 \<or> i = 1"
    unfolding frame_bytes_def by blast
  moreover have "uint (base (descriptors c SS)) = 0x20000" using assms(1) by simp
  ultimately show False using assms(2) uint_ge_0 [of "gpr c SP + of_nat (2 * k)"] by linarith
qed

theorem gate_call_returns_witness:
  "\<exists>c1 c2. CALLFABS_impl 0x100 0 0x28 ring3 = (False, c1) \<and> cpl c1 = 0
     \<and> RETFI_impl 0 c1 = (False, c2) \<and> cpl c2 = 3 \<and> rip c2 = 0x100"
proof -
  obtain ip where call: "CALLFABS_impl 0x100 0 0x28 ring3 = (False, jmpabs286 ip (push286 0x100 (push286 0x1B
     (load_cs 8 0x1028 0x1A (push_old_stack ring3 (load_stack 0 0x8000 0x10 0x1010 ring3))))))" (is "_ = (False, ?c1)")
    using ring3_call by blast
  have "\<forall>d \<in> {0x1028, 0x1018, 0x1020}. d + 5 \<notin> frame_bytes ?c1 4"
    using ring3_stack by (simp add: frame_outside)
  then show ?thesis
    using gate_call_returns [OF level_ok_ring3 _ ring3_returnable ring3_descriptors(3) call]
    by (auto simp: call ring3_sel sample286_mem_def)
qed

text \<open>The same core with a trap gate in place of the call gate, seen as vector 20 of its interrupt table.\<close>

definition ring3_idt :: z286Core where
  "ring3_idt = ring3\<lparr>mem := sample286_mem\<lparr>raw := (raw sample286_mem)(0x102D := 0xE7)\<rparr>,
     descriptors := (descriptors ring3)(IDT := \<lparr>base = 0x1008, limit = 0xFF, attributes = 0x0182\<rparr>)\<rparr>"

lemma ring3_idt_sel:
  "msw ring3_idt = 1" "cpl ring3_idt = 3" "seg ring3_idt = (\<lambda>_. 0x23)(CS := 0x1B)" "protected_mode ring3_idt"
  "\<not> nested_task ring3_idt" "a20 (mem ring3_idt) = None" "level_ok True ring3_idt"
  by (simp_all add: ring3_idt_def ring3_sel protected_mode_def sample286_mem_def level_ok_def rpl_def cache_dpl_def)

lemma ring3_idt_descriptors:
  "get_descriptor ring3_idt 0x1B = Some 0x1018" "get_descriptor ring3_idt 0x23 = Some 0x1020"
  "get_descriptor ring3_idt 0x08 = Some 0x1008" "get_descriptor ring3_idt 0x10 = Some 0x1010"
  "get_idt_descriptor ring3_idt 0x20 = Some 0x1028" 
  by (simp_all add: sample286_eval ring3_idt_def get_idt_descriptor_def)

lemma ring3_idt_flags:
  "desc_flags1 (mem ring3_idt) 0x1008 = 0x9A" "desc_flags1 (mem ring3_idt) 0x1010 = 0x92"
  "desc_flags1 (mem ring3_idt) 0x1018 = 0xFA" "desc_flags1 (mem ring3_idt) 0x1020 = 0xF2"
  "desc_flags1 (mem ring3_idt) 0x1028 = 0xE7" "desc_segment (mem ring3_idt) 0x1028 = 8"
  "tss_stack ring3_idt 0 = (0x8000, 0x10)" "desc_base (mem ring3_idt) 0x1010 = 0x20000"
  by (simp_all add: desc_flags1_def desc_segment_def desc_base_def tss_stack_def sample286_eval upt_rec ring3_idt_def)

lemma ring3_idt_int:
  "\<exists>c1. int_software_interrupt 0 7 0x20 False ring3_idt = (False, c1) \<and> cpl c1 = 0
     \<and> base (descriptors c1 SS) = 0x20000"
proof -
  note eval = descriptor_eval ring3_idt_sel ring3_idt_descriptors ring3_idt_flags
  have "int_dest_checks False 8 ring3_idt = Inr 0x1008"
    by (simp add: int_dest_checks_def eval)
  moreover have "enter_stack 0 ring3_idt = Inr (load_stack 0 0x8000 0x10 0x1010 ring3_idt)"
    by (simp add: enter_stack_def gate_tss_checks_def eval)
  moreover have "get_full_type (mem ring3_idt) 0x1028 = 7" "get_full_type (mem ring3_idt) 0x1008 = 0x1A"
    "get_dpl (mem ring3_idt) 0x1008 = 0" "get_dpl (mem ring3_idt) 0x1028 = 3" "is_present (mem ring3_idt) 0x1028"
    by (simp_all add: eval)
  ultimately show ?thesis
    using ring3_idt_sel(2,4) ring3_idt_descriptors(5) ring3_idt_flags(6,8)
    by (simp add: int_software_interrupt_def int_stack_def Let_def interrupt_types_def system_types conforming_code_def
        enter_int_def cache_of_def)
qed

theorem int_iret_returns_witness:
  "\<exists>c1 c2. int_software_interrupt 0 7 0x20 False ring3_idt = (False, c1) \<and> cpl c1 = 0
     \<and> IRET286 c1 = (False, c2) \<and> cpl c2 = 3 \<and> rip c2 = 7"
proof -
  obtain c1 where c1: "int_software_interrupt 0 7 0x20 False ring3_idt = (False, c1)" "cpl c1 = 0"
    "base (descriptors c1 SS) = 0x20000"
    using ring3_idt_int by blast
  have ok: "returnable ring3_idt 0x1018 0x1020"
    by (simp add: returnable_def descriptor_eval ring3_idt_sel ring3_idt_descriptors ring3_idt_flags)
  have "get_descriptor ring3_idt (desc_segment (mem ring3_idt) 0x1028) = Some 0x1008"
    by (simp add: ring3_idt_flags ring3_idt_descriptors)
  moreover have "\<forall>d \<in> {0x1008, 0x1018, 0x1020}. d + 5 \<notin> frame_bytes c1 5"
    using c1(3) by (simp add: frame_outside)
  ultimately show ?thesis
    using int_iret_returns [OF ring3_idt_sel(7,6) ok ring3_idt_sel(5) ring3_idt_descriptors(5) _ c1(1)]
    by (auto simp: c1 ring3_idt_sel interrupt_uses_error_code_def)
qed

end
