(* ===== verification/Z286_Entry.thy ===== *)
theory Z286_Entry
  imports Z286_Gates
begin

text \<open>
  What the core does when an interrupt is delivered in protected mode: which handler it enters, with
  which level, code segment and offset and with which frame on its stack, and when it is the double
  fault or the triple fault instead.
\<close>

section \<open>The handler and its frame\<close>

text \<open>
  What the code guarantees of the state \<open>c'\<close> in which the handler of vector \<open>k\<close> starts when it
  interrupts \<open>c\<close>.  The words of the frame and the offset of the gate are as named unless the
  frame, or the mark on the descriptor of the handler's segment, lies on one another.
\<close>

definition frame_words :: "u8 \<Rightarrow> bool \<Rightarrow> z286Core \<Rightarrow> u16 list" where
  "frame_words k inner c = (if interrupt_uses_error_code k then [error_code c] else [])
     @ [rip c, seg c CS, get_flags286 c] @ (if inner then [gpr c SP, seg c SS] else [])"

definition handler_entered :: "u8 \<Rightarrow> z286Core \<Rightarrow> z286Core \<Rightarrow> bool" where
  "handler_entered k c c' \<longleftrightarrow>
     (\<exists>gate s dest. get_idt_descriptor c k = Some gate \<and> is_present (mem c) gate
        \<and> interrupt_types (get_full_type (mem c) gate) \<and> s = desc_segment (mem c) gate
        \<and> (if get_full_type (mem c) gate = DESCRIPTOR_TASK_GATE then c' = c
           else get_descriptor c s = Some dest \<and> is_present (mem c) dest \<and> code_segment (get_full_type (mem c) dest)
             \<and> (let inner = (\<not> conforming_code (get_full_type (mem c) dest) \<and> get_dpl (mem c) dest < cpl c);
                   ws = frame_words k inner c
                in cpl c' = (if inner then get_dpl (mem c) dest else cpl c)
                 \<and> seg c' CS = with_rpl s (cpl c') \<and> \<not> trap c'
                 \<and> (a20 (mem c) = None \<and> dest + 5 \<notin> frame_bytes c' (length ws) \<longrightarrow>
                      map (stack_word286 c') [0..<length ws] = ws)
                 \<and> (a20 (mem c) = None \<and> (\<forall>i\<in>{0, 1}. gate + i \<notin> frame_bytes c' (length ws) \<and> gate + i \<noteq> dest + 5) \<longrightarrow>
                      rip c' = desc_ip (mem c') gate))))"

lemma push_rip: "push286 v (c\<lparr>rip := x\<rparr>) = (push286 v c)\<lparr>rip := x\<rparr>"
  by (simp add: push286_def stack_ptr_def Let_def)

lemma enter_pending_pushes:
  "enter_pending k gate s dest t c =
     enter_handler s dest t ((fold push286 ([get_flags286 c, seg c CS, rip c]
         @ (if interrupt_uses_error_code k then [error_code c] else [])) c)
       \<lparr>rip := desc_ip (mem (fold push286 [get_flags286 c, seg c CS, rip c] c)) gate\<rparr>)"
  by (simp add: enter_pending_def Let_def push_error_code_def interrupt_frame_def push_rip)
    (simp add: push286_def Let_def)

lemma enter_pending_fields:
  "cpl (enter_pending k gate s dest t c) = cpl c" "seg (enter_pending k gate s dest t c) CS = with_rpl s (cpl c)"
  "\<not> trap (enter_pending k gate s dest t c)"
  by (simp_all add: enter_pending_def Let_def)
    (simp add: enter_handler_def Let_def set_seg_def mark_accessed_def load_descriptor_def)

lemma pushed_words:
  assumes "a20 (mem c) = None" "length vs < 100" "\<And>j. j < m \<Longrightarrow> stack_word286 c j = ws ! j" "length ws = m" "m < 100"
  shows "map (stack_word286 (fold push286 vs c)) [0..<length vs + m] = rev vs @ ws"
proof (rule nth_equalityI)
  fix k assume "k < length (map (stack_word286 (fold push286 vs c)) [0..<length vs + m])"
  then have k: "k < length vs + m" by simp
  show "map (stack_word286 (fold push286 vs c)) [0..<length vs + m] ! k = (rev vs @ ws) ! k"
  proof (cases "k < length vs")
    case True
    then show ?thesis using k assms(1,2) ss286.peek_pushes [of c vs k] by (simp add: nth_append)
  next
    case False
    then show ?thesis
      using k assms(2,3,5) words_behind_pushes [OF assms(1), of vs "k - length vs"] by (simp add: nth_append)
  qed
qed (use assms in simp)

lemma raw_push:
  assumes "a20 (mem c) = None" "x \<notin> frame_bytes (push286 v c) (Suc n)"
  shows "raw (mem (push286 v c)) x = raw (mem c) x"
proof -
  have "uint (base (descriptors c SS)) + uint (gpr c SP - 2) + i \<in> frame_bytes (push286 v c) (Suc n)" if "i = 0 \<or> i = 1" for i
    using that by (intro frame_bytesI [of 0]) simp_all
  from this [of 0] this [of 1] show ?thesis using assms
    by (auto simp: push286_def Let_def raw_mem_write16 stack_ptr_def a20_mask_def)
qed

lemma desc_ip_raw: "desc_ip m' d = desc_ip m d" if "raw m' d = raw m d" "raw m' (d + 1) = raw m (d + 1)"
  using that by (simp add: desc_ip_def ptr_read_def mem_size_def read_bytes_def upt_rec)

lemma enter_pending_rip:
  assumes "a20 (mem c) = None" "0 < n"
    and "\<forall>i\<in>{0, 1}. gate + i \<notin> frame_bytes (enter_pending k gate s dest t c) n \<and> gate + i \<noteq> dest + 5"
  shows "rip (enter_pending k gate s dest t c) = desc_ip (mem (enter_pending k gate s dest t c)) gate"
proof -
  let ?c3 = "fold push286 [get_flags286 c, seg c CS, rip c] c"
  let ?err = "if interrupt_uses_error_code k then [error_code c] else []"
  obtain m where m: "n = Suc m" using assms(2) by (cases n) auto
  have a: "a20 (mem ?c3) = None" using assms(1) by simp
  have r: "raw (mem (fold push286 ?err ?c3)) x = raw (mem ?c3) x" if "x \<notin> frame_bytes (fold push286 ?err ?c3) n" for x
    using raw_push [OF a, of x "error_code c" m] that by (auto simp: m)
  have "raw (mem (enter_pending k gate s dest t c)) x = raw (mem ?c3) x"
    if "x \<notin> frame_bytes (enter_pending k gate s dest t c) n" "x \<noteq> dest + 5" for x
    using that r [of x] by (simp add: enter_pending_pushes raw_set_accessed)
  then have "desc_ip (mem (enter_pending k gate s dest t c)) gate = desc_ip (mem ?c3) gate"
    using assms(3) by (intro desc_ip_raw) force+
  then show ?thesis by (simp add: enter_pending_pushes)
    (simp add: enter_handler_def Let_def set_seg_def mark_accessed_def load_descriptor_def)
qed


lemma enter_pending_words:
  assumes "a20 (mem c) = None" "\<And>j. j < length ws \<Longrightarrow> stack_word286 c j = ws ! j" "length ws < 100"
    and "vs = (if interrupt_uses_error_code k then [error_code c] else []) @ [rip c, seg c CS, get_flags286 c] @ ws"
    and "dest + 5 \<notin> frame_bytes (enter_pending k gate s dest t c) (length vs)"
  shows "map (stack_word286 (enter_pending k gate s dest t c)) [0..<length vs] = vs"
proof -
  let ?ps = "[get_flags286 c, seg c CS, rip c] @ (if interrupt_uses_error_code k then [error_code c] else [])"
  let ?c4 = "fold push286 ?ps c"
  have a: "a20 (mem ?c4) = None" using assms(1) by simp
  have vs: "vs = rev ?ps @ ws" using assms(4) by simp
  have "map (stack_word286 ?c4) [0..<length ?ps + length ws] = rev ?ps @ ws"
    by (rule pushed_words) (use assms in simp_all)
  then have w: "map (stack_word286 ?c4) [0..<length vs] = vs" unfolding vs by simp
  have "stack_word286 (enter_pending k gate s dest t c) j = stack_word286 ?c4 j" if "j < length vs" for j
    using stack_word_enter_handler [of "?c4\<lparr>rip := x\<rparr>" dest "length vs" j s t for x] a that assms(5)
    unfolding enter_pending_pushes by simp
  then have "map (stack_word286 (enter_pending k gate s dest t c)) [0..<length vs] = map (stack_word286 ?c4) [0..<length vs]"
    by simp
  with w show ?thesis by simp
qed

lemma pending_checks_task:
  "pending_checks k c = Some (gate, None) \<Longrightarrow> get_idt_descriptor c k = Some gate \<and> is_present (mem c) gate
     \<and> interrupt_types (get_full_type (mem c) gate) \<and> get_full_type (mem c) gate = DESCRIPTOR_TASK_GATE"
  by (auto simp: pending_checks_def Let_def split: option.splits if_splits sum.splits)

lemma pending_checks_segment:
  "pending_checks k c = Some (gate, Some (s, dest, c')) \<Longrightarrow> get_idt_descriptor c k = Some gate \<and> is_present (mem c) gate
     \<and> interrupt_types (get_full_type (mem c) gate) \<and> get_full_type (mem c) gate \<noteq> DESCRIPTOR_TASK_GATE
     \<and> s = desc_segment (mem c) gate \<and> get_descriptor c s = Some dest \<and> is_present (mem c) dest
     \<and> code_segment (get_full_type (mem c) dest)
     \<and> (if \<not> conforming_code (get_full_type (mem c) dest) \<and> get_dpl (mem c) dest < cpl c
        then \<exists>sp ss d. c' = push_old_stack c (load_stack (get_dpl (mem c) dest) sp ss d c) else c' = c)"
  by (auto simp: pending_checks_def Let_def split: option.splits if_splits sum.splits dest!: enter_stack_load)

lemma stack_change_kept [simp]:
  "rip (push_old_stack o' c) = rip c" "error_code (push_old_stack o' c) = error_code c"
  "error_code (load_stack l sp ss d c) = error_code c"
  by (simp_all add: push_old_stack_def push286_def load_stack_def set_seg_def load_descriptor_def mark_accessed_def
      set_privilege_level_def Let_def)

lemma enters_handler:
  assumes "pending_checks k c = Some (gate, Some (s, dest, cs))"
  shows "handler_entered k c (enter_pending k gate s dest t cs)"
proof -
  note P = pending_checks_segment [OF assms]
  let ?inner = "\<not> conforming_code (get_full_type (mem c) dest) \<and> get_dpl (mem c) dest < cpl c"
  let ?ws = "if ?inner then [gpr c SP, seg c SS] else []"
  let ?c' = "enter_pending k gate s dest t cs"
  have cs: "cs = c \<and> \<not> ?inner \<or> (\<exists>sp ss d. ?inner \<and> cs = push_old_stack c (load_stack (get_dpl (mem c) dest) sp ss d c))"
    using P by meson
  have f: "rip cs = rip c" "seg cs CS = seg c CS" "get_flags286 cs = get_flags286 c" "error_code cs = error_code c"
    "cpl cs = (if ?inner then get_dpl (mem c) dest else cpl c)"
    using cs by auto
  have a: "a20 (mem cs) = a20 (mem c)" using cs by auto
  have w: "stack_word286 cs j = ?ws ! j" if "a20 (mem c) = None" "j < length ?ws" for j
    using cs that old_stack_words [of "load_stack l sp ss d c" c for l sp ss d]
    by (cases j) (auto split: if_splits)
  have ng: "get_full_type (mem c) gate \<noteq> DESCRIPTOR_TASK_GATE" using P by blast
  have fw: "frame_words k ?inner c = (if interrupt_uses_error_code k then [error_code cs] else []) @ [rip cs, seg cs CS, get_flags286 cs] @ ?ws"
    unfolding frame_words_def f by simp
  have words: "map (stack_word286 ?c') [0..<length (frame_words k ?inner c)] = frame_words k ?inner c"
    if "a20 (mem c) = None" "dest + 5 \<notin> frame_bytes ?c' (length (frame_words k ?inner c))"
    by (rule enter_pending_words [OF _ w [OF that(1)] _ fw]) (use that a in simp_all)
  have n: "0 < length (frame_words k ?inner c)" by (simp add: frame_words_def)
  have ip: "rip ?c' = desc_ip (mem ?c') gate"
    if "a20 (mem c) = None" "\<forall>i\<in>{0, 1}. gate + i \<notin> frame_bytes ?c' (length (frame_words k ?inner c)) \<and> gate + i \<noteq> dest + 5"
    using enter_pending_rip [OF _ n that(2)] that(1) a by simp
  show ?thesis
    unfolding handler_entered_def Let_def
  proof (rule exI [of _ gate], rule exI [of _ s], rule exI [of _ dest], unfold if_not_P [OF ng])
    have "cpl ?c' = (if ?inner then get_dpl (mem c) dest else cpl c)" using f(5) by (simp add: enter_pending_fields)
    moreover have "seg ?c' CS = with_rpl s (cpl ?c')" unfolding enter_pending_fields by (rule refl)
    moreover have "\<not> trap ?c'" by (rule enter_pending_fields)
    ultimately show "get_idt_descriptor c k = Some gate \<and> is_present (mem c) gate
        \<and> interrupt_types (get_full_type (mem c) gate) \<and> s = desc_segment (mem c) gate
        \<and> get_descriptor c s = Some dest \<and> is_present (mem c) dest \<and> code_segment (get_full_type (mem c) dest)
        \<and> cpl ?c' = (if ?inner then get_dpl (mem c) dest else cpl c) \<and> seg ?c' CS = with_rpl s (cpl ?c') \<and> \<not> trap ?c'
        \<and> (a20 (mem c) = None \<and> dest + 5 \<notin> frame_bytes ?c' (length (frame_words k ?inner c)) \<longrightarrow>
             map (stack_word286 ?c') [0..<length (frame_words k ?inner c)] = frame_words k ?inner c)
        \<and> (a20 (mem c) = None \<and> (\<forall>i\<in>{0, 1}. gate + i \<notin> frame_bytes ?c' (length (frame_words k ?inner c)) \<and> gate + i \<noteq> dest + 5)
             \<longrightarrow> rip ?c' = desc_ip (mem ?c') gate)"
      using P words ip by blast
  qed
qed

section \<open>Delivery\<close>

lemma delivery_first:
  assumes "protected_mode c" "pending_checks k c \<noteq> None"
  shows "\<exists>c'. handle_pending_interrupt286 junk k c = Delivered c' \<and> handler_entered k c c'"
proof -
  obtain gate r where r: "pending_checks k c = Some (gate, r)" using assms(2) by auto
  show ?thesis
  proof (cases r)
    case None
    then have "handler_entered k c c" using pending_checks_task [of k c gate] r
      by (auto simp: handler_entered_def)
    then show ?thesis using assms(1) r None by (subst handle_pending_interrupt286.simps) simp
  next
    case (Some x)
    then obtain s dest cs where x: "r = Some (s, dest, cs)" by (cases x) auto
    show ?thesis using assms(1) r enters_handler [of k c gate s dest cs] unfolding x
      by (subst handle_pending_interrupt286.simps) simp
  qed
qed

text \<open>C11: Delivering an interrupt in protected mode always ends, after at most one double fault.  When
  the checks of its gate pass it enters the handler, with the level, the code segment, the offset
  and the frame that handler_entered names; otherwise, when those of the double fault pass, it
  enters that handler with the error code 0; otherwise it is a triple fault, and the core is reset:
  it goes on in real mode at F000:FFF0, with its memory as it was.\<close>

theorem delivery_total:
  assumes "protected_mode c"
  shows "(pending_checks number c \<noteq> None \<longrightarrow>
      (\<exists>c'. handle_pending_interrupt286 junk number c = Delivered c' \<and> handler_entered number c c'))
    \<and> (pending_checks number c = None \<and> number \<noteq> IntDF \<and> pending_checks IntDF c \<noteq> None \<longrightarrow>
      (\<exists>c'. handle_pending_interrupt286 junk number c = Delivered c'
         \<and> handler_entered IntDF (software_interrupt_code IntDF 0 c) c'))
    \<and> (pending_checks number c = None \<and> pending_checks IntDF c = None \<longrightarrow>
      (\<exists>c'. handle_pending_interrupt286 junk number c = TripleFault c'
         \<and> after_delivery (TripleFault c') = RESET286 c
         \<and> rip (RESET286 c) = 0xFFF0 \<and> seg (RESET286 c) CS = 0xF000 \<and> \<not> protected_mode (RESET286 c)
         \<and> mem (RESET286 c) = mem c))"
proof -
  let ?c1 = "software_interrupt_code IntDF 0 c"
  have p: "protected_mode ?c1" using assms by (simp add: protected_mode_def)
  have second: "handle_pending_interrupt286 junk number c = handle_pending_interrupt286 junk IntDF ?c1"
    if "pending_checks number c = None" "number \<noteq> IntDF"
    using that assms by (subst handle_pending_interrupt286.simps) simp
  have triple: "handle_pending_interrupt286 junk IntDF d = TripleFault d"
    if "pending_checks IntDF d = None" "protected_mode d" for d
    using that by (subst handle_pending_interrupt286.simps) simp
  have reset: "RESET286 ?c1 = RESET286 c" by (simp add: RESET286_def software_interrupt_code_def)
  note n = pending_checks_None_code [of IntDF IntDF 0 c]
  have r: "rip (RESET286 c) = 0xFFF0" "seg (RESET286 c) CS = 0xF000" "\<not> protected_mode (RESET286 c)"
    "mem (RESET286 c) = mem c"
    by (simp_all add: RESET286_def protected_mode_def)
  show ?thesis
  proof (intro conjI impI)
    show "\<exists>c'. handle_pending_interrupt286 junk number c = Delivered c' \<and> handler_entered number c c'"
      if "pending_checks number c \<noteq> None"
      using delivery_first [OF assms that] .
    show "\<exists>c'. handle_pending_interrupt286 junk number c = Delivered c' \<and> handler_entered IntDF ?c1 c'"
      if "pending_checks number c = None \<and> number \<noteq> IntDF \<and> pending_checks IntDF c \<noteq> None"
      using delivery_first [OF p, of IntDF junk] second n that by simp
    show "\<exists>c'. handle_pending_interrupt286 junk number c = TripleFault c'
        \<and> after_delivery (TripleFault c') = RESET286 c
        \<and> rip (RESET286 c) = 0xFFF0 \<and> seg (RESET286 c) CS = 0xF000 \<and> \<not> protected_mode (RESET286 c)
        \<and> mem (RESET286 c) = mem c"
      if "pending_checks number c = None \<and> pending_checks IntDF c = None"
    proof (cases "number = IntDF")
      case True
      then show ?thesis using triple [OF _ assms] that r by simp
    next
      case False
      then show ?thesis using second triple [OF _ p] n reset that r by simp
    qed
  qed
qed

lemma ring3_idt_pending: "pending_checks 0x20 ring3_idt \<noteq> None"
proof -
  note eval = descriptor_eval ring3_idt_sel ring3_idt_descriptors ring3_idt_flags
  have "enter_stack 0 ring3_idt = Inr (load_stack 0 0x8000 0x10 0x1010 ring3_idt)"
    by (simp add: enter_stack_def gate_tss_checks_def eval)
  moreover have "get_full_type (mem ring3_idt) 0x1028 = 7" "get_full_type (mem ring3_idt) 0x1008 = 0x1A"
    "get_dpl (mem ring3_idt) 0x1008 = 0" "is_present (mem ring3_idt) 0x1028" "is_present (mem ring3_idt) 0x1008"
    by (simp_all add: eval)
  ultimately show ?thesis
    using ring3_idt_sel(2,4) ring3_idt_descriptors(3,5) ring3_idt_flags(6)
    by (simp add: pending_checks_def Let_def interrupt_types_def system_types conforming_code_def code_segment_def
        null_selector_def)
qed

theorem delivery_total_witness:
  "(\<exists>c'. handle_pending_interrupt286 0 13 ring3 = TripleFault c' \<and> after_delivery (TripleFault c') = RESET286 ring3)
   \<and> (\<exists>c'. handle_pending_interrupt286 0 0x20 ring3_idt = Delivered c' \<and> handler_entered 0x20 ring3_idt c')"
proof -
  have "descriptors ring3 IDT = \<lparr>base = 0, limit = 0xFFFF, attributes = 0b00010 OR ATTRIBUTES_R OR ATTRIBUTES_VALID\<rparr>"
    by (simp add: ring3_def reset_descriptors_def)
  then have "get_idt_descriptor ring3 13 = Some 8" "get_idt_descriptor ring3 8 = Some 8"
    by (simp_all add: get_idt_descriptor_def sample286_eval)
  moreover have "get_full_type (mem ring3) 8 = 0"
    by (simp add: sample286_eval)
  ultimately have "pending_checks 13 ring3 = None" "pending_checks IntDF ring3 = None"
    by (simp_all add: pending_checks_def interrupt_types_def system_types Let_def IntDF_def)
  then show ?thesis
    using delivery_total [OF ring3_sel(5), of 13 0] delivery_total [OF ring3_idt_sel(4), of "0x20" 0] ring3_idt_pending
    by blast
qed

end
