(* ===== verification/Zenc.thy ===== *)
theory Zenc
  imports Z86_Memory
begin

text \<open>
  The second program of the library: the file transformation \<^verbatim>\<open>src/zenc.cpp\<close>, which masks a
  file in blocks of 16 bytes behind a header of 16 bytes.  A file is a byte list.  The
  128 bit vector operations act on words lane by lane.  What the C library leaves open is an
  argument: \<open>alloc_ok\<close> tells for a size whether \<^verbatim>\<open>_mm_malloc\<close> delivers a buffer.  A file that is too
  short for what \<^verbatim>\<open>fread\<close> asks for leaves the memory indeterminate, and reading it is undefined.
  \<^verbatim>\<open>long\<close> holds file sizes below \<open>2 ^ 63\<close>.
\<close>

section \<open>Rotation and lanes\<close>

definition rotl128 :: "u128 \<Rightarrow> nat \<Rightarrow> u128" where
  "rotl128 x n = push_bit n x OR drop_bit (128 - n) x"

definition rotr128 :: "u128 \<Rightarrow> nat \<Rightarrow> u128" where
  "rotr128 x n = drop_bit n x OR push_bit (128 - n) x"

definition lanes :: "('l::len word \<Rightarrow> 'l word \<Rightarrow> 'l word) \<Rightarrow> u128 \<Rightarrow> u128 \<Rightarrow> u128" where
  "lanes f x y =
     fold (\<lambda>i r. r OR push_bit (LENGTH('l) * i)
        (ucast (f (ucast (drop_bit (LENGTH('l) * i) x)) (ucast (drop_bit (LENGTH('l) * i) y)))))
       [0..<128 div LENGTH('l)] 0"

definition mm_add_epi8 :: "u128 \<Rightarrow> u128 \<Rightarrow> u128" where
  "mm_add_epi8 = lanes ((+) :: u8 \<Rightarrow> u8 \<Rightarrow> u8)"

definition mm_sub_epi16 :: "u128 \<Rightarrow> u128 \<Rightarrow> u128" where
  "mm_sub_epi16 = lanes ((-) :: u16 \<Rightarrow> u16 \<Rightarrow> u16)"

definition mm_add_epi32 :: "u128 \<Rightarrow> u128 \<Rightarrow> u128" where
  "mm_add_epi32 = lanes ((+) :: u32 \<Rightarrow> u32 \<Rightarrow> u32)"

section \<open>The header\<close>

record EncryptHeader =
  magic :: "u8 list"
  version :: u16
  alignment :: u8
  buffer_extra :: u8
  file_size :: u64

definition header_bytes :: "EncryptHeader \<Rightarrow> u8 list" where
  "header_bytes h = magic h @ word_to_le 2 (version h) @ [alignment h, buffer_extra h] @ word_to_le 8 (file_size h)"

definition header_of :: "u8 list \<Rightarrow> EncryptHeader" where
  "header_of bs = \<lparr>magic = take 4 bs, version = le_to_word (take 2 (drop 4 bs)), alignment = bs ! 6,
     buffer_extra = bs ! 7, file_size = le_to_word (take 8 (drop 8 bs))\<rparr>"

definition ZENC :: "u8 list" where "ZENC = [0x5A, 0x45, 0x4E, 0x43]"

definition start_mask :: "u8 list" where
  "start_mask = [0x4C, 0x65, 0x53, 0x61, 0x6E, 0x61, 0x65, 0x00, 0xA4, 0x55, 0x01, 0x3E, 0x79, 0x65, 0x65, 0x74]"

section \<open>The block loop\<close>

definition next_mask :: "u128 \<Rightarrow> u128 \<Rightarrow> u128" where
  "next_mask accel msk =
     (let msk = mm_add_epi8 msk accel;
          msk = mm_sub_epi16 msk accel
      in mm_add_epi32 msk accel)"

fun xor_blocks :: "u128 \<Rightarrow> u128 \<Rightarrow> nat \<Rightarrow> u8 list \<Rightarrow> u8 list" where
  "xor_blocks accel msk 0 buffer = []"
| "xor_blocks accel msk (Suc iters) buffer =
     (let data = le_to_word (take 16 buffer) :: u128;
          data = data XOR msk
      in word_to_le 16 data @ xor_blocks accel (next_mask accel msk) iters (drop 16 buffer))"

definition transform :: "u8 \<Rightarrow> u8 list \<Rightarrow> u8 list" where
  "transform extra buffer =
     (let mask_init = le_to_word start_mask;
          xor_mask = rotl128 mask_init ((unat extra + 1) * 6);
          xor_accel = rotr128 mask_init ((unat extra + 1) * 7);
          iters = length buffer div 16
      in xor_blocks xor_accel xor_mask iters buffer)"

section \<open>Files\<close>

definition align_up :: "nat \<Rightarrow> nat \<Rightarrow> nat" where
  "align_up val mul = (val + mul - 1) div mul * mul"

text \<open>\<^verbatim>\<open>read_file_to_aligned_buffer\<close>: the buffer, if there is one, and the file's size.\<close>

definition read_file_to_aligned_buffer :: "(nat \<Rightarrow> bool) \<Rightarrow> nat \<Rightarrow> u8 list \<Rightarrow> u8 list option \<times> nat" where
  "read_file_to_aligned_buffer alloc_ok align file =
     (let aligned_size = align_up (length file) align
      in (if alloc_ok aligned_size then Some (file @ replicate (aligned_size - length file) 0) else None,
          length file))"

definition encrypt_file :: "(nat \<Rightarrow> bool) \<Rightarrow> u8 list \<Rightarrow> u8 list" where
  "encrypt_file alloc_ok input =
     (case read_file_to_aligned_buffer alloc_ok 16 input of
        (None, fsize) \<Rightarrow> []
      | (Some buffer, fsize) \<Rightarrow>
          (let extra = of_nat (length buffer - fsize) :: u8
           in header_bytes \<lparr>magic = ZENC, version = 1, alignment = 16, buffer_extra = extra, file_size = of_nat fsize\<rparr>
              @ transform extra buffer))"

text \<open>
  What decryption comes to is one of three: there is no result, there is one, or the C program does
  something undefined (\<open>Undefined\<close>): a rotation by 128 bits or more, an access outside its buffer, or
  a use of memory nothing has been written to.
\<close>

datatype 'a decrypted = Nothing | Result 'a | Undefined

definition header_accepted :: "EncryptHeader \<Rightarrow> bool" where
  "header_accepted header \<longleftrightarrow>
     magic header = ZENC \<and> version header = 1 \<and> alignment header \<ge> 16
     \<and> alignment header AND (alignment header - 1) = 0"

definition buffer_size :: "EncryptHeader \<Rightarrow> u64" where
  "buffer_size header = ucast (buffer_extra header) + file_size header"

text \<open>
  \<^verbatim>\<open>decrypt_file_to_buffer\<close>: each of the two calls of \<^verbatim>\<open>fread\<close> asks for one element and does not look
  at the count it returns.  When the file ends before the element does, its bytes are indeterminate:
  those of the header are compared with \<^verbatim>\<open>ZENC\<close>, those of the buffer are read by the block loop.
\<close>

definition decrypt_file_to_buffer :: "(nat \<Rightarrow> bool) \<Rightarrow> u8 list \<Rightarrow> u8 list decrypted \<times> u64" where
  "decrypt_file_to_buffer alloc_ok file =
     (if length file < 16 then (Undefined, 0)
      else
        let header = header_of (take 16 file);
            rest = drop 16 file
        in (if header_accepted header then
              if buffer_size header AND ucast (alignment header - 1) = 0 \<and> alloc_ok (unat (buffer_size header)) then
                if length rest < unat (buffer_size header) then Undefined
                else if (unat (buffer_extra header) + 1) * 7 < 128 then
                  Result (transform (buffer_extra header) (take (unat (buffer_size header)) rest))
                else Undefined
              else Nothing
            else Nothing,
            file_size header))"

text \<open>\<^verbatim>\<open>main\<close> with \<^verbatim>\<open>d\<close>: what is written to the output file, if it is opened.\<close>

definition main_d :: "(nat \<Rightarrow> bool) \<Rightarrow> u8 list \<Rightarrow> u8 list decrypted" where
  "main_d alloc_ok file =
     (case decrypt_file_to_buffer alloc_ok file of
        (Result buffer, fsize) \<Rightarrow>
          if unat fsize \<le> length buffer then Result (take (unat fsize) buffer) else Undefined
      | (no, fsize) \<Rightarrow> no)"

section \<open>The transformation is its own inverse\<close>

lemma length_xor_blocks [simp]: "length (xor_blocks accel msk n buffer) = 16 * n"
  by (induction accel msk n buffer rule: xor_blocks.induct) (simp_all add: Let_def)

lemma xor_block:
  assumes "length bs = 16"
  shows "word_to_le 16 (le_to_word (word_to_le 16 (le_to_word bs XOR msk :: u128)) XOR msk :: u128) = bs"
proof -
  have "le_to_word (word_to_le 16 (le_to_word bs XOR msk :: u128)) = (le_to_word bs XOR msk :: u128)"
    by (rule le_to_word_to_le) simp
  moreover have "word_to_le 16 (le_to_word bs :: u128) = bs"
    using word_to_le_to_word [of bs, where 'a = 128] assms by simp
  ultimately show ?thesis by (simp add: xor.assoc)
qed

lemma xor_blocks_involution:
  "length buffer = 16 * n \<Longrightarrow> xor_blocks accel msk n (xor_blocks accel msk n buffer) = buffer"
proof (induction accel msk n buffer rule: xor_blocks.induct)
  case (2 accel msk iters buffer)
  then show ?case by (simp add: Let_def xor_block)
qed simp

lemma transform_involution:
  assumes "16 dvd length buffer"
  shows "transform extra (transform extra buffer) = buffer" "length (transform extra buffer) = length buffer"
  using assms by (auto simp: transform_def Let_def xor_blocks_involution elim!: dvdE)

section \<open>The header comes back\<close>

lemma length_header_bytes [simp]: "length (magic h) = 4 \<Longrightarrow> length (header_bytes h) = 16"
  by (simp add: header_bytes_def)

lemma header_of_bytes:
  assumes "length (magic h) = 4"
  shows "header_of (header_bytes h) = h"
proof -
  have "le_to_word (word_to_le 2 (version h)) = version h" "le_to_word (word_to_le 8 (file_size h)) = file_size h"
    by (simp_all add: le_to_word_to_le)
  then show ?thesis using assms by (simp add: header_of_def header_bytes_def nth_append)
qed

lemma align_up_16: "16 dvd align_up n 16" "n \<le> align_up n 16" "align_up n 16 < n + 16"
  unfolding align_up_def by (simp, presburger, presburger)

text \<open>C30: Decrypting an encrypted file gives the file back, whatever its bytes and its size are,
  where the two buffers can be allocated and the size is below two to the 63.\<close>

theorem zenc_roundtrip:
  assumes "\<And>n. alloc_ok n" "int (length bs) < 2 ^ 63"
  shows "main_d alloc_ok (encrypt_file alloc_ok bs) = Result bs"
proof -
  define a where "a = align_up (length bs) 16"
  define ex where "ex = a - length bs"
  define buf where "buf = bs @ replicate ex 0"
  define h where "h = \<lparr>magic = ZENC, version = 1, alignment = 16, buffer_extra = of_nat ex, file_size = of_nat (length bs)\<rparr>"
  have a: "16 dvd a" "length bs \<le> a" "ex < 16" "a = length bs + ex"
    using align_up_16 [of "length bs"] by (auto simp: a_def ex_def)
  have buf: "length buf = a" using a by (simp add: buf_def)
  have sz: "length bs < 2 ^ 64" "a < 2 ^ 64" using assms(2) a by simp_all
  have u: "unat (buffer_extra h) = ex" "unat (file_size h) = length bs"
    using a sz by (simp_all add: h_def unat_of_nat)
  have bsz: "buffer_size h = of_nat a"
  proof -
    have "ucast (of_nat ex :: u8) = (of_nat ex :: u64)"
      using a(3) by (simp add: unsigned_of_nat take_bit_nat_eq_self)
    then show ?thesis using a(4) by (simp add: buffer_size_def h_def)
  qed
  have al: "buffer_size h AND ucast (alignment h - 1) = 0"
  proof -
    have "ucast (alignment h - 1) = (Bit_Operations.mask 4 :: u64)" by (simp add: h_def mask_numeral)
    then have "buffer_size h AND ucast (alignment h - 1) = take_bit 4 (of_nat a :: u64)"
      by (simp add: bsz take_bit_eq_mask)
    also have "\<dots> = of_nat (take_bit 4 a)" by (simp only: take_bit_of_nat)
    also have "\<dots> = 0" using a(1) by (simp add: take_bit_eq_mod [where 'a = nat] dvd_eq_mod_eq_0)
    finally show ?thesis .
  qed
  have enc: "encrypt_file alloc_ok bs = header_bytes h @ transform (buffer_extra h) buf"
    using assms(1) by (simp add: encrypt_file_def read_file_to_aligned_buffer_def Let_def a_def [symmetric]
        h_def buf_def ex_def)
  have m: "length (magic h) = 4" by (simp add: h_def ZENC_def)
  have acc: "header_accepted h" by (simp add: h_def header_accepted_def)
  have n: "unat (buffer_size h) = a" using sz by (simp add: bsz unat_of_nat)
  have dec: "decrypt_file_to_buffer alloc_ok (encrypt_file alloc_ok bs) = (Result buf, file_size h)"
    using a buf acc al u by (simp add: enc decrypt_file_to_buffer_def Let_def m header_of_bytes
        length_header_bytes n assms(1) transform_involution)
  show ?thesis by (simp add: main_d_def dec u buf a) (simp add: buf_def)
qed

theorem zenc_roundtrip_witness:
  "main_d (\<lambda>n. True) (encrypt_file (\<lambda>n. True) [1, 2, 3]) = Result [1, 2, 3]"
  by (rule zenc_roundtrip) simp_all

lemma pred_div_mod_16:
  fixes n :: nat
  assumes "16 \<le> n"
  shows "n mod 16 \<noteq> 0 \<Longrightarrow> (n - 1) div 16 = n div 16" "n mod 16 = 0 \<Longrightarrow> (n - 1) mod 16 = 15"
proof -
  define q r where "q = n div 16" and "r = n mod 16"
  have n: "n = 16 * q + r" "r < 16" by (simp_all add: q_def r_def)
  have q: "0 < q" using assms by (simp add: q_def)
  show "(n - 1) div 16 = n div 16" if "n mod 16 \<noteq> 0"
  proof -
    have "n - 1 = 16 * q + (r - 1)" "r - 1 < 16" using n that by (simp_all add: r_def)
    then show ?thesis using n by simp
  qed
  show "(n - 1) mod 16 = 15" if "n mod 16 = 0"
  proof -
    have "n - 1 = 16 * (q - 1) + 15" using n that q by (simp add: r_def algebra_simps)
    then show ?thesis by simp
  qed
qed

lemma power_of_two_low_bits:
  fixes al :: u8
  assumes "16 \<le> al" "al AND (al - 1) = 0"
  shows "take_bit 4 (al - 1) = 15"
proof -
  have "al \<noteq> 0" using assms(1) by auto
  then have m: "unat (al - 1) = unat al - 1" by (rule unat_minus_one)
  have a: "16 \<le> unat al" using assms(1) by (simp add: word_le_nat_alt)
  have d: "unat (drop_bit 4 w) = unat w div 16" for w :: u8
    by (simp add: drop_bit_eq_div unat_div)
  have "unat al mod 16 = 0"
  proof (rule ccontr)
    assume "unat al mod 16 \<noteq> 0"
    then have "(unat al - 1) div 16 = unat al div 16" by (rule pred_div_mod_16 [OF a])
    then have "unat (drop_bit 4 (al - 1)) = unat (drop_bit 4 al)" by (simp only: d m)
    then have "drop_bit 4 (al - 1) = drop_bit 4 al" by (simp only: word_unat_eq_iff)
    moreover have "drop_bit 4 al AND drop_bit 4 (al - 1) = 0"
      by (simp only: drop_bit_and [symmetric] assms(2) drop_bit_of_0)
    ultimately have "unat (drop_bit 4 al) = 0" by simp
    then show False using a by (simp only: d)
  qed
  then have "(unat al - 1) mod 16 = 15" by (rule pred_div_mod_16 [OF a])
  then have "unat (take_bit 4 (al - 1)) = unat (15 :: u8)"
    by (simp only: unsigned_take_bit_eq m) (simp add: take_bit_eq_mod)
  then show ?thesis by (simp only: word_unat_eq_iff)
qed

text \<open>C40: The checks of the header do not make decryption safe.  With a header that passes them,
  and whatever bytes follow it, the program has no defined behaviour exactly if the buffer can be
  allocated and the padding is 18 bytes or more (the rotation of the mask is too far), or size and
  padding together do not fit 64 bits (more bytes are written out than the buffer has), or the file
  ends before the size the header gives (the loop reads bytes of the buffer that were never
  written).\<close>

theorem zenc_unchecked_header:
  assumes h: "header_accepted h" "buffer_size h AND ucast (alignment h - 1) = 0"
  shows "main_d alloc_ok (header_bytes h @ rest) = Undefined \<longleftrightarrow>
    alloc_ok (unat (buffer_size h))
    \<and> (18 \<le> unat (buffer_extra h) \<or> 2 ^ 64 \<le> unat (buffer_extra h) + unat (file_size h)
       \<or> length rest < unat (buffer_extra h) + unat (file_size h))"
proof -
  have m: "length (magic h) = 4" using h(1) by (simp add: header_accepted_def ZENC_def)
  define n where "n = unat (buffer_size h)"
  have a: "16 dvd n"
  proof -
    have low: "take_bit 4 (alignment h - 1) = Bit_Operations.mask 4"
      using h(1) by (simp add: header_accepted_def power_of_two_low_bits mask_numeral)
    have "\<not> bit (buffer_size h) i" if "i < 4" for i
    proof -
      have "bit (take_bit 4 (alignment h - 1)) i" using that by (simp add: low bit_mask_iff)
      then have "bit (ucast (alignment h - 1) :: u64) i" using that by (simp add: bit_take_bit_iff bit_ucast_word)
      then show ?thesis using h(2) by (metis bit_and_iff bit_0_eq bot_apply bot_bool_def)
    qed
    then have "take_bit 4 (buffer_size h) = 0" by (auto intro!: bit_word_eqI simp: bit_take_bit_iff)
    then have "take_bit 4 n = 0" by (metis n_def unsigned_take_bit_eq unsigned_0)
    then show ?thesis by (simp add: take_bit_eq_mod dvd_eq_mod_eq_0)
  qed
  have dec: "decrypt_file_to_buffer alloc_ok (header_bytes h @ rest) =
      (if \<not> alloc_ok n then Nothing
       else if n \<le> length rest \<and> unat (buffer_extra h) < 18
       then Result (transform (buffer_extra h) (take n rest)) else Undefined, file_size h)"
    by (auto simp: decrypt_file_to_buffer_def Let_def m header_of_bytes h n_def)
  have len: "length (transform (buffer_extra h) (take n rest)) = n" if "n \<le> length rest"
    using a that by (simp add: transform_involution)
  have "n = (unat (buffer_extra h) + unat (file_size h)) mod 2 ^ 64"
  proof -
    have "take_bit 64 (unat (buffer_extra h)) = unat (buffer_extra h)"
      using unsigned_less [of "buffer_extra h", where 'a = nat] by (intro take_bit_nat_eq_self) simp
    then show ?thesis by (simp add: n_def buffer_size_def unat_word_ariths unsigned_ucast_eq)
  qed
  moreover have "unat (buffer_extra h) < 2 ^ 8" "unat (file_size h) < 2 ^ 64"
    using unsigned_less [of "buffer_extra h", where 'a = nat] unsigned_less [of "file_size h", where 'a = nat]
    by simp_all
  ultimately have "n < unat (file_size h) \<longleftrightarrow> 2 ^ 64 \<le> unat (buffer_extra h) + unat (file_size h)"
      "n = unat (buffer_extra h) + unat (file_size h) \<or> 2 ^ 64 \<le> unat (buffer_extra h) + unat (file_size h)"
    by (auto simp: mod_if [of "_ + _"])
  then show ?thesis by (auto simp: main_d_def dec len not_le n_def [symmetric])
qed

theorem zenc_unchecked_header_witness:
  "main_d (\<lambda>n. True)
     (header_bytes \<lparr>magic = ZENC, version = 1, alignment = 16, buffer_extra = 1, file_size = 0xFFFFFFFFFFFFFFFF\<rparr> @ []) = Undefined
   \<and> main_d (\<lambda>n. True)
     (header_bytes \<lparr>magic = ZENC, version = 1, alignment = 16, buffer_extra = 15, file_size = 1\<rparr> @ replicate 16 0) \<noteq> Undefined"
proof
  let ?h = "\<lparr>magic = ZENC, version = 1, alignment = 16, buffer_extra = 1, file_size = 0xFFFFFFFFFFFFFFFF\<rparr>"
  have "header_accepted ?h" by (simp add: header_accepted_def)
  then show "main_d (\<lambda>n. True) (header_bytes ?h @ []) = Undefined"
    using zenc_unchecked_header [of ?h "\<lambda>n. True" "[]"] by (simp add: buffer_size_def)
next
  let ?h = "\<lparr>magic = ZENC, version = 1, alignment = 16, buffer_extra = 15, file_size = 1\<rparr>"
  have "header_accepted ?h" by (simp add: header_accepted_def)
  then show "main_d (\<lambda>n. True) (header_bytes ?h @ replicate 16 0) \<noteq> Undefined"
    using zenc_unchecked_header [of ?h "\<lambda>n. True" "replicate 16 0"] by (simp add: buffer_size_def)
qed

end
