(* ===== verification/Z86_V20.thy ===== *)
theory Z86_V20
  imports Z86_Invariant
begin

text \<open>
  The two-byte opcodes 0F 10 to 0F 1F, 0F 20, 0F 22, 0F 26, 0F 28 and 0F 2A of the V20
  (\<^verbatim>\<open>8086_cpu.cpp\<close>, the rows guarded by \<^verbatim>\<open>OPCODES_V20\<close>), which a core
  without SSE reaches: bit instructions on a byte or a word with the count in CL or an
  immediate, and the nibble rotates.  The packed decimal instructions have empty bodies.
\<close>

section \<open>The handlers\<close>

text \<open>Each group takes only the extension 0; the others are invalid (\<^verbatim>\<open>THROW_UD_GRP\<close>).\<close>

definition v20_group ::
  "quirks \<Rightarrow> (operand \<Rightarrow> 'a::len word frame \<Rightarrow> u8 \<times> 'a word frame) \<Rightarrow> 'a unop" where
  "v20_group cfg f dst r s =
     (if r \<noteq> 0 \<and> \<not> NO_UD cfg
      then (OP_FAULT, s\<lparr>ctx := snd (set_fault cfg IntUD (ctx s))\<rparr>)
      else f dst s)"

definition v20_TEST1 ::
  "('a word frame \<Rightarrow> u8) \<Rightarrow> operand \<Rightarrow> 'a::len word frame \<Rightarrow> u8 \<times> 'a word frame" where
  "v20_TEST1 count dst s = (OP_NO_WRITE, s\<lparr>ctx := TEST1 (read_op dst s) (count s) (ctx s)\<rparr>)"

text \<open>The three that change the operand, with the code the lambda returns.\<close>

definition v20_bit ::
  "u8 \<Rightarrow> ('a word \<Rightarrow> u8 \<Rightarrow> 'a word) \<Rightarrow> ('a word frame \<Rightarrow> u8) \<Rightarrow>
     operand \<Rightarrow> 'a::len word frame \<Rightarrow> u8 \<times> 'a word frame" where
  "v20_bit ret f count dst s = (ret, write_op dst (f (read_op dst s) (count s)) s)"

definition count_CL :: "'v frame \<Rightarrow> u8" where
  "count_CL s = reg_C (ctx s)"

definition count_imm :: "quirks \<Rightarrow> 'v frame \<Rightarrow> u8" where
  "count_imm cfg s = exec8 cfg (pc s) (ctx s)"

text \<open>\<open>ROL4\<close> and \<open>ROR4\<close> on the operand and AL.\<close>

definition v20_nibble ::
  "(bool \<Rightarrow> u8 \<Rightarrow> u8 \<Rightarrow> u8 \<times> u8) \<Rightarrow> operand \<Rightarrow> u8 frame \<Rightarrow> u8 \<times> u8 frame" where
  "v20_nibble f dst s =
     (let (v, al) = f (dst = Reg 0) (read_op dst s) (index_reg (ctx s) 0);
          s = write_op dst v s
      in (OP_WRITE, s\<lparr>ctx := set_index_reg 0 al (ctx s)\<rparr>))"

text \<open>
  The forms with the count in CL.  The word forms have the same lambdas as the byte forms.
\<close>

definition v20_CL :: "'a::len itself \<Rightarrow> quirks \<Rightarrow> u8 \<Rightarrow> z86Addr \<Rightarrow> z86Core \<Rightarrow> outcome" where
  "v20_CL _ cfg op p c =
     fault_check (unopM_impl cfg False (v20_group cfg
       (if op = 0x10 \<or> op = 0x11 then v20_TEST1 (count_CL :: 'a word frame \<Rightarrow> u8)
        else if op = 0x12 \<or> op = 0x13 then v20_bit OP_WRITE CLR1 count_CL
        else if op = 0x14 \<or> op = 0x15 then v20_bit OP_WRITE SET1 count_CL
        else v20_bit OP_WRITE NOT1 count_CL)) p c)"

text \<open>
  The forms with an immediate count: the lambda reads the byte after the operand, and
  \<^verbatim>\<open>++pc\<close> skips it.  All return \<^verbatim>\<open>OP_NO_WRITE\<close>.
\<close>

definition v20_imm :: "'a::len itself \<Rightarrow> quirks \<Rightarrow> u8 \<Rightarrow> z86Addr \<Rightarrow> z86Core \<Rightarrow> outcome" where
  "v20_imm _ cfg op p c =
     fault_check_imm 1 (unopM_impl cfg False (v20_group cfg
       (if op = 0x18 \<or> op = 0x19 then v20_TEST1 (count_imm cfg :: 'a word frame \<Rightarrow> u8)
        else if op = 0x1A \<or> op = 0x1B then v20_bit OP_NO_WRITE CLR1 (count_imm cfg)
        else if op = 0x1C \<or> op = 0x1D then v20_bit OP_NO_WRITE SET1 (count_imm cfg)
        else v20_bit OP_NO_WRITE NOT1 (count_imm cfg))) p c)"

text \<open>
  The dispatch on the second opcode byte.  Odd opcodes work on words, but 0F 1F is written
  with \<^verbatim>\<open>OP_BYTE\<close> and works on a byte.  Opcodes outside the rows modelled give
  \<open>None\<close>.
\<close>

definition exec_v20 :: "quirks \<Rightarrow> u8 \<Rightarrow> z86Addr \<Rightarrow> z86Core \<Rightarrow> outcome option" where
  "exec_v20 cfg op p c =
     (if op \<in> {0x10, 0x12, 0x14, 0x16} then Some (v20_CL TYPE(8) cfg op p c)
      else if op \<in> {0x11, 0x13, 0x15, 0x17} then Some (v20_CL TYPE(16) cfg op p c)
      else if op \<in> {0x18, 0x1A, 0x1C, 0x1E, 0x1F} then Some (v20_imm TYPE(8) cfg op p c)
      else if op \<in> {0x19, 0x1B, 0x1D} then Some (v20_imm TYPE(16) cfg op p c)
      else if op \<in> {0x20, 0x22, 0x26} then Some (Break p c)
      else if op = 0x28 then Some (fault_check (unopM_impl cfg False (v20_group cfg (v20_nibble ROL4)) p c))
      else if op = 0x2A then Some (fault_check (unopM_impl cfg False (v20_group cfg (v20_nibble ROR4)) p c))
      else None)"

text \<open>The instruction from the byte 0F on, with \<open>p\<close> at the second byte.\<close>

definition exec_two_byte :: "quirks \<Rightarrow> z86Addr \<Rightarrow> z86Core \<Rightarrow> outcome option" where
  "exec_two_byte cfg p c = (let (op, p) = fetch8 cfg p c in exec_v20 cfg op p c)"

section \<open>The invariant of the core\<close>

lemma core_ok_TEST1 [simp]: "core_ok (TEST1 x n c) = core_ok c"
  by (simp add: TEST1_def)

lemma core_ok_v20_TEST1 [simp]:
  "core_ok (ctx s) \<Longrightarrow> core_ok (ctx (snd (v20_TEST1 n dst s)))"
  by (simp add: v20_TEST1_def)

lemma core_ok_v20_bit [simp]:
  "core_ok (ctx s) \<Longrightarrow> core_ok (ctx (snd (v20_bit ret f n dst s)))"
  by (simp add: v20_bit_def)

lemma core_ok_v20_nibble [simp]:
  "core_ok (ctx s) \<Longrightarrow> core_ok (ctx (snd (v20_nibble g dst s)))"
  by (simp add: v20_nibble_def Let_def split_beta)

lemma core_ok_v20_group [simp]:
  "(\<And>dst s. core_ok (ctx s) \<Longrightarrow> core_ok (ctx (snd (f dst s)))) \<Longrightarrow> core_ok (ctx s) \<Longrightarrow>
     core_ok (ctx (snd (v20_group cfg f dst r s)))"
  by (simp add: v20_group_def)

lemma ok_v20:
  "core_ok c \<Longrightarrow> outcome_ok (v20_CL T cfg op p c)"
  "core_ok c \<Longrightarrow> outcome_ok (v20_imm T cfg op p c)"
  by (simp_all add: v20_CL_def v20_imm_def core_ok_M)

text \<open>The invariant of the real-mode cores extends over the two-byte opcodes.\<close>

theorem two_byte_core_ok:
  assumes "core_ok c" "exec_two_byte cfg p c = Some r"
  shows "outcome_ok r"
  using assms by (auto simp: exec_two_byte_def exec_v20_def ok_v20 core_ok_M Let_def split_beta split: if_splits)

section \<open>What the handlers compute\<close>

text \<open>ROR4 undoes ROL4 on the operand and on the low half of AL.\<close>

theorem ROR4_ROL4:
  "fst (ROR4 False (fst (ROL4 False d a)) (snd (ROL4 False d a))) = d
    \<and> snd (ROR4 False (fst (ROL4 False d a)) (snd (ROL4 False d a))) AND 0xF = a AND 0xF
    \<and> snd (ROL4 False d a) AND 0xF = drop_bit 4 d"
proof -
  have m: "(0xF :: u8) = mask 4" by (simp add: mask_eq_exp_minus_1)
  show ?thesis
    unfolding ROL4_def ROR4_def Let_def m
    by (intro conjI; rule bit_word_eqI) (auto simp: bit_simps dest: bit_imp_le_length)
qed

text \<open>On AL itself ROL4 exchanges its halves and ROR4 does nothing.\<close>

lemma ROL4_ROR4_AL: "fst (ROL4 True d a) = word_rotl 4 d" "fst (ROR4 True d a) = d"
  by (simp_all add: ROL4_def ROR4_def)

lemma unopM_memory:
  assumes "fetch8 cfg p c = (modrm, p1)" "modrm_is_mem modrm" "parse_memM cfg modrm p1 c = (a, p2)"
    and "lam Local (modrm_R modrm) \<lparr>mval = addr_read cfg a 0 (mem c), pc = p2, ctx = c\<rparr> = (ret, s)"
    and "\<not> OP_HAD_FAULT ret"
  shows "OP_NEEDS_WRITE ret \<Longrightarrow> unopM_impl cfg False lam p c =
      (False, pc s, (ctx s)\<lparr>mem := addr_write cfg a 0 (mval s) (mem (ctx s))\<rparr>)"
    and "\<not> OP_NEEDS_WRITE ret \<Longrightarrow> unopM_impl cfg False lam p c = (False, pc s, ctx s)"
  using assms by (simp_all add: unopM_impl_def Let_def)

text \<open>C27: The bit instructions of the V20 on a byte in memory.  With the count in CL, CLR1, SET1
  and NOT1 write the changed byte back; with an immediate count the same three skip their operand
  bytes and leave memory and registers as they were, so the change is lost.\<close>

theorem v20_memory_forms:
  assumes "fetch8 cfg p c = (modrm, p1)" "modrm_is_mem modrm" "modrm_R modrm = 0"
    and "parse_memM cfg modrm p1 c = (a, p2)"
  shows "exec_v20 cfg 0x12 p c = Some (Break p2
        (c\<lparr>mem := addr_write cfg a 0 (CLR1 (addr_read cfg a 0 (mem c) :: u8) (reg_C c)) (mem c)\<rparr>))
    \<and> exec_v20 cfg 0x14 p c = Some (Break p2
        (c\<lparr>mem := addr_write cfg a 0 (SET1 (addr_read cfg a 0 (mem c) :: u8) (reg_C c)) (mem c)\<rparr>))
    \<and> exec_v20 cfg 0x16 p c = Some (Break p2
        (c\<lparr>mem := addr_write cfg a 0 (NOT1 (addr_read cfg a 0 (mem c) :: u8) (reg_C c)) (mem c)\<rparr>))
    \<and> exec_v20 cfg 0x1A p c = Some (Break (addr_add p2 1) c)
    \<and> exec_v20 cfg 0x1C p c = Some (Break (addr_add p2 1) c)
    \<and> exec_v20 cfg 0x1E p c = Some (Break (addr_add p2 1) c)"
  using assms
  by (simp add: exec_v20_def v20_CL_def v20_imm_def v20_group_def v20_bit_def read_op_def write_op_def
      unopM_memory(1,2) [OF assms(1,2,4)] fault_check_def fault_check_imm_def OP_NEEDS_WRITE_def
      OP_HAD_FAULT_def OP_WRITE_def OP_NO_WRITE_def count_CL_def)


theorem v20_memory_forms_witness:
  "exec_v20 zNV30 0x14 \<lparr>segment = 0x1000, offset = 0\<rparr> sample_core =
      Some (Break \<lparr>segment = 0x1000, offset = 1\<rparr> (sample_core\<lparr>mem :=
        addr_write zNV30 \<lparr>segment = 0x3000, offset = 0x10\<rparr> 0 (8 :: u8) (mem sample_core)\<rparr>))
    \<and> exec_v20 zNV30 0x1C \<lparr>segment = 0x1000, offset = 0\<rparr> sample_core =
      Some (Break \<lparr>segment = 0x1000, offset = 2\<rparr> sample_core)"
proof -
  let ?p = "\<lparr>segment = 0x1000, offset = 0\<rparr>"
  let ?a = "\<lparr>segment = 0x3000, offset = 0x10\<rparr>"
  have f: "fetch8 zNV30 ?p sample_core = (0, \<lparr>segment = 0x1000, offset = 1\<rparr>)"
    by (simp add: fetch8_def addr_read_advance_def addr_add_def addr_read8 sample_defs)
  have m: "modrm_is_mem 0" "modrm_R 0 = 0" "modrm_Mod 0 = 0" "modrm_M 0 = 0"
    by (simp_all add: modrm_is_mem_def modrm_R_def modrm_Mod_def modrm_M_def)
  have q: "parse_memM zNV30 0 \<lparr>segment = 0x1000, offset = 1\<rparr> sample_core
      = (?a, \<lparr>segment = 0x1000, offset = 1\<rparr>)"
    by (simp add: parse_memM_def m Let_def ctx_addr_def ctx_segment_def segment_mask16_def
        index_word_reg_def first_reg16_def sample_defs)
  have r: "addr_read zNV30 ?a 0 (mem sample_core) = (0 :: u8)" "reg_C sample_core = (3 :: u8)"
    by (simp_all add: addr_read8 sample_defs reg_C_def lo8_def)
  show ?thesis
    using v20_memory_forms [OF f m(1,2) q] unfolding r
    by (simp add: SET1_def bit_count_def addr_add_def)
qed

end
