(* ===== verification/Z86_Vector.thy ===== *)
theory Z86_Vector
  imports Z86_Arith
begin

text \<open>
  The packed integer operations of \<^verbatim>\<open>z86_core_internal_pre.h\<close> (PACKSS to PSIGN).
  A vector of the compiler (\<^verbatim>\<open>vec<T, n>\<close>) is the list of its lanes, lane 0 first; a
  register is the union of all its vector views, modelled as one word of which
  \<open>reg_lanes\<close> and \<open>unlanes\<close> are the views, so that \<^verbatim>\<open>std::bit_cast\<close> between
  two views is a round through the register word.  Every C++ template is one definition per
  signedness where the operation depends on it, polymorphic in the lane width.  Vector
  arithmetic wraps in each lane; the element-wise built-ins of the compiler are modelled by
  their documented meaning.
\<close>

unbundle bit_operations_syntax

section \<open>Views of a register\<close>

definition reg_lanes :: "'r::len word \<Rightarrow> 'a::len word list" where
  "reg_lanes w = map (\<lambda>i. ucast (drop_bit (i * LENGTH('a)) w)) [0..<LENGTH('r) div LENGTH('a)]"

fun unlanes :: "'a::len word list \<Rightarrow> 'r::len word" where
  "unlanes [] = 0"
| "unlanes (x # xs) = ucast x OR push_bit LENGTH('a) (unlanes xs)"

section \<open>Packing, interleaving and duplication\<close>

definition clamp :: "int \<Rightarrow> int \<Rightarrow> int \<Rightarrow> int" where
  "clamp lo hi v = max (min v hi) lo"

definition PACKSS :: "'a::len word list \<Rightarrow> 'a word list \<Rightarrow> 'b::len word list" where
  "PACKSS dst src =
     map (\<lambda>v. word_of_int (clamp (smin TYPE('b word)) (smax TYPE('b word)) (sint v))) (dst @ src)"

definition PACKUS :: "'a::len word list \<Rightarrow> 'a word list \<Rightarrow> 'b::len word list" where
  "PACKUS dst src = map (\<lambda>v. word_of_int (clamp 0 (2 ^ LENGTH('b) - 1) (sint v))) (dst @ src)"

definition PUNPCKL :: "'a::len word list \<Rightarrow> 'a word list \<Rightarrow> 'a word list" where
  "PUNPCKL dst src = concat (map (\<lambda>i. [dst ! i, src ! i]) [0..<length dst div 2])"

definition PUNPCKH :: "'a::len word list \<Rightarrow> 'a word list \<Rightarrow> 'a word list" where
  "PUNPCKH dst src =
     (let half_vec_length = length dst div 2
      in concat (map (\<lambda>i. [dst ! (half_vec_length + i), src ! (half_vec_length + i)])
                   [0..<half_vec_length]))"

definition MOVLDUP :: "'a::len word list \<Rightarrow> 'a word list" where
  "MOVLDUP src = concat (map (\<lambda>i. [src ! (2 * i), src ! (2 * i)]) [0..<length src div 2])"

definition MOVHDUP :: "'a::len word list \<Rightarrow> 'a word list" where
  "MOVHDUP src =
     concat (map (\<lambda>i. [src ! (2 * i + 1), src ! (2 * i + 1)]) [0..<length src div 2])"

section \<open>Arithmetic on lanes\<close>

text \<open>
  Where the code widens its lanes to a type of twice the width (\<^verbatim>\<open>dbl_int_t\<close>),
  that type is an argument.
\<close>

definition PAVG :: "'t::len itself \<Rightarrow> 'a::len word list \<Rightarrow> 'a word list \<Rightarrow> 'a word list" where
  "PAVG _ = map2 (\<lambda>d s. ucast (drop_bit 1 (ucast d + ucast s + 1 :: 't word)))"

definition PABS :: "'a::len word list \<Rightarrow> 'a word list" where
  "PABS = map (\<lambda>v. word_of_int \<bar>sint v\<bar>)"

definition PADD :: "'a::len word list \<Rightarrow> 'a word list \<Rightarrow> 'a word list" where
  "PADD = map2 (+)"

definition PSUB :: "'a::len word list \<Rightarrow> 'a word list \<Rightarrow> 'a word list" where
  "PSUB = map2 (-)"

definition add_sat_u :: "'a::len word \<Rightarrow> 'a word \<Rightarrow> 'a word" where
  "add_sat_u d s = word_of_int (clamp 0 (2 ^ LENGTH('a) - 1) (uint d + uint s))"

definition add_sat_s :: "'a::len word \<Rightarrow> 'a word \<Rightarrow> 'a word" where
  "add_sat_s d s = word_of_int (clamp (smin TYPE('a word)) (smax TYPE('a word)) (sint d + sint s))"

definition sub_sat_u :: "'a::len word \<Rightarrow> 'a word \<Rightarrow> 'a word" where
  "sub_sat_u d s = word_of_int (clamp 0 (2 ^ LENGTH('a) - 1) (uint d - uint s))"

definition sub_sat_s :: "'a::len word \<Rightarrow> 'a word \<Rightarrow> 'a word" where
  "sub_sat_s d s = word_of_int (clamp (smin TYPE('a word)) (smax TYPE('a word)) (sint d - sint s))"

definition PADDS_u :: "'a::len word list \<Rightarrow> 'a word list \<Rightarrow> 'a word list" where
  "PADDS_u = map2 add_sat_u"

definition PADDS_s :: "'a::len word list \<Rightarrow> 'a word list \<Rightarrow> 'a word list" where
  "PADDS_s = map2 add_sat_s"

definition PSUBS_u :: "'a::len word list \<Rightarrow> 'a word list \<Rightarrow> 'a word list" where
  "PSUBS_u = map2 sub_sat_u"

definition PSUBS_s :: "'a::len word list \<Rightarrow> 'a word list \<Rightarrow> 'a word list" where
  "PSUBS_s = map2 sub_sat_s"

text \<open>
  The interleavings of \<^verbatim>\<open>util.h\<close> that separate the lanes of two vectors by the
  parity of their index.  Despite the names, \<open>vec_odd_interleave\<close> takes the lanes of
  even index (the first, third, ...) and \<open>vec_even_interleave\<close> those of odd index.
\<close>

definition vec_odd_interleave :: "'a list \<Rightarrow> 'a list \<Rightarrow> 'a list" where
  "vec_odd_interleave lower upper =
     (if length lower = 1 then lower
      else map (\<lambda>i. (lower @ upper) ! (2 * i)) [0..<length lower])"

definition vec_even_interleave :: "'a list \<Rightarrow> 'a list \<Rightarrow> 'a list" where
  "vec_even_interleave lower upper =
     (if length lower = 1 then lower
      else map (\<lambda>i. (lower @ upper) ! (2 * i + 1)) [0..<length lower])"

definition PHADD :: "'a::len word list \<Rightarrow> 'a word list \<Rightarrow> 'a word list" where
  "PHADD dst src =
     (let odds = vec_odd_interleave dst src; evens = vec_even_interleave dst src
      in map2 (+) odds evens)"

definition PHADDS :: "'a::len word list \<Rightarrow> 'a word list \<Rightarrow> 'a word list" where
  "PHADDS dst src =
     (let odds = vec_odd_interleave dst src; evens = vec_even_interleave dst src
      in map2 add_sat_s odds evens)"

definition PHSUB :: "'a::len word list \<Rightarrow> 'a word list \<Rightarrow> 'a word list" where
  "PHSUB dst src =
     (let odds = vec_odd_interleave dst src; evens = vec_even_interleave dst src
      in map2 (-) odds evens)"

definition PHSUBS :: "'a::len word list \<Rightarrow> 'a word list \<Rightarrow> 'a word list" where
  "PHSUBS dst src =
     (let odds = vec_odd_interleave dst src; evens = vec_even_interleave dst src
      in map2 sub_sat_s odds evens)"

section \<open>Products and sums of lanes\<close>

text \<open>
  \<open>PSAD\<close> fills lane \<^verbatim>\<open>4 * i\<close> of the wide result and leaves the others zero.
\<close>

definition PSAD :: "'a::len word list \<Rightarrow> 'a word list \<Rightarrow> 'b::len word list" where
  "PSAD dst src =
     (let temp = PABS (PSUB dst src); dst_vec_length = length dst div 2
      in map (\<lambda>j. if j mod 4 = 0 \<and> j div 4 < dst_vec_length div 4
                   then word_of_int (sint (temp ! j) + sint (temp ! (j + 1))
                                     + sint (temp ! (j + 2)) + sint (temp ! (j + 3)))
                   else 0)
           [0..<dst_vec_length])"

definition PMADD :: "'a::len word list \<Rightarrow> 'a word list \<Rightarrow> 'b::len word list" where
  "PMADD dst src =
     (let temp = map2 (\<lambda>d s. scast d * scast s :: 'b word) dst src
      in map (\<lambda>i. temp ! (2 * i) + temp ! (2 * i + 1)) [0..<length dst div 2])"

definition PMULL :: "'a::len word list \<Rightarrow> 'a word list \<Rightarrow> 'a word list" where
  "PMULL = map2 (*)"

definition PMULH_u :: "'t::len itself \<Rightarrow> 'a::len word list \<Rightarrow> 'a word list \<Rightarrow> 'a word list" where
  "PMULH_u _ = map2 (\<lambda>d s. ucast (drop_bit LENGTH('a) (ucast d * ucast s :: 't word)))"

definition PMULH_s :: "'t::len itself \<Rightarrow> 'a::len word list \<Rightarrow> 'a word list \<Rightarrow> 'a word list" where
  "PMULH_s _ = map2 (\<lambda>d s. ucast (signed_drop_bit LENGTH('a) (scast d * scast s :: 't word)))"

definition PMUL :: "'a::len word list \<Rightarrow> 'a word list \<Rightarrow> 'b::len word list" where
  "PMUL dst src = map (\<lambda>i. ucast (dst ! (2 * i)) * ucast (src ! (2 * i))) [0..<length dst div 2]"

section \<open>Shifts, logic and comparisons\<close>

text \<open>A shift of a lane by its width or more is undefined in C++ and is \<open>None\<close> here.\<close>

definition PSHL :: "'a::len word list \<Rightarrow> nat \<Rightarrow> 'a word list option" where
  "PSHL dst src = (if src < LENGTH('a) then Some (map (push_bit src) dst) else None)"

definition PSHR_u :: "'a::len word list \<Rightarrow> nat \<Rightarrow> 'a word list option" where
  "PSHR_u dst src = (if src < LENGTH('a) then Some (map (drop_bit src) dst) else None)"

definition PSHR_s :: "'a::len word list \<Rightarrow> nat \<Rightarrow> 'a word list option" where
  "PSHR_s dst src = (if src < LENGTH('a) then Some (map (signed_drop_bit src) dst) else None)"

definition PAND :: "'a::len word list \<Rightarrow> 'a word list \<Rightarrow> 'a word list" where
  "PAND = map2 (AND)"

definition PANDN :: "'a::len word list \<Rightarrow> 'a word list \<Rightarrow> 'a word list" where
  "PANDN = map2 (\<lambda>d s. NOT d AND s)"

definition POR :: "'a::len word list \<Rightarrow> 'a word list \<Rightarrow> 'a word list" where
  "POR = map2 (OR)"

definition PXOR :: "'a::len word list \<Rightarrow> 'a word list \<Rightarrow> 'a word list" where
  "PXOR = map2 (XOR)"

definition max_s :: "'a::len word \<Rightarrow> 'a word \<Rightarrow> 'a word" where
  "max_s d s = (if sint d < sint s then s else d)"

definition PMAX_u :: "'a::len word list \<Rightarrow> 'a word list \<Rightarrow> 'a word list" where
  "PMAX_u = map2 max"

definition PMAX_s :: "'a::len word list \<Rightarrow> 'a word list \<Rightarrow> 'a word list" where
  "PMAX_s = map2 max_s"

text \<open>\<open>PMIN\<close> calls the maximum, too.\<close>

definition PMIN_u :: "'a::len word list \<Rightarrow> 'a word list \<Rightarrow> 'a word list" where
  "PMIN_u = map2 max"

definition PMIN_s :: "'a::len word list \<Rightarrow> 'a word list \<Rightarrow> 'a word list" where
  "PMIN_s = map2 max_s"

definition PCMPEQ :: "'a::len word list \<Rightarrow> 'a word list \<Rightarrow> 'a word list" where
  "PCMPEQ = map2 (\<lambda>d s. if d = s then - 1 else 0)"

definition PCMPGT :: "'a::len word list \<Rightarrow> 'a word list \<Rightarrow> 'a word list" where
  "PCMPGT = map2 (\<lambda>d s. if sint s < sint d then - 1 else 0)"

definition PSIGN :: "'a::len word list \<Rightarrow> 'a word list \<Rightarrow> 'a word list" where
  "PSIGN = map2 (\<lambda>d s. if s = 0 then 0 else if 0 < sint s then d else - d)"

section \<open>Facts on the views\<close>

lemma length_lanes [simp]:
  "length (reg_lanes (w :: 'r::len word) :: 'a::len word list) = LENGTH('r) div LENGTH('a)"
  by (simp add: reg_lanes_def)

lemma nth_lanes:
  "i < LENGTH('r) div LENGTH('a) \<Longrightarrow>
    (reg_lanes (w :: 'r::len word) :: 'a::len word list) ! i = ucast (drop_bit (i * LENGTH('a)) w)"
  by (simp add: reg_lanes_def)

lemma bit_nth_lanes:
  "i < LENGTH('r) div LENGTH('a) \<Longrightarrow>
    bit ((reg_lanes (w :: 'r::len word) :: 'a::len word list) ! i) n
      \<longleftrightarrow> n < LENGTH('a) \<and> bit w (i * LENGTH('a) + n)"
  by (simp add: nth_lanes bit_ucast_word bit_drop_bit_eq)

lemma bit_unlanes:
  "bit (unlanes (xs :: 'a::len word list) :: 'r::len word) n \<longleftrightarrow>
     n < LENGTH('r) \<and> n div LENGTH('a) < length xs
       \<and> bit (xs ! (n div LENGTH('a))) (n mod LENGTH('a))"
proof (induction xs arbitrary: n)
  case Nil
  then show ?case by simp
next
  case (Cons x xs)
  show ?case
  proof (cases "n < LENGTH('a)")
    case True
    then show ?thesis by (auto simp: bit_simps bit_ucast_word)
  next
    case False
    define m where "m = n - LENGTH('a)"
    then have n: "n = LENGTH('a) + m" using False by simp
    have d: "n div LENGTH('a) = Suc (m div LENGTH('a))" "n mod LENGTH('a) = m mod LENGTH('a)"
      by (simp_all add: n div_add_self1)
    have x: "\<not> bit x n" using False by (auto dest: bit_imp_le_length)
    show ?thesis
      using Cons.IH [of m] False x unfolding unlanes.simps d
      by (auto simp: m_def bit_simps bit_ucast_word)
  qed
qed

lemma lanes_unlanes:
  assumes "LENGTH('a) * length xs = LENGTH('r)"
  shows "reg_lanes (unlanes (xs :: 'a::len word list) :: 'r::len word) = xs"
proof (rule nth_equalityI)
  have len: "LENGTH('r) div LENGTH('a) = length xs" by (simp flip: assms)
  then show "length (reg_lanes (unlanes xs :: 'r word) :: 'a word list) = length xs" by simp
  fix i assume "i < length (reg_lanes (unlanes xs :: 'r word) :: 'a word list)"
  then have i: "i < length xs" by (simp add: len)
  have b: "i * LENGTH('a) + n < LENGTH('r)" if "n < LENGTH('a)" for n
  proof -
    have "Suc i * LENGTH('a) \<le> length xs * LENGTH('a)" using i by (intro mult_le_mono1) simp
    then show ?thesis using that by (simp add: mult.commute flip: assms)
  qed
  show "(reg_lanes (unlanes xs :: 'r word) :: 'a word list) ! i = xs ! i"
    by (rule bit_word_eqI) (use i b in \<open>auto simp: bit_nth_lanes bit_unlanes len\<close>)
qed

lemma unlanes_lanes:
  assumes "LENGTH('a) dvd LENGTH('r)"
  shows "unlanes (reg_lanes (w :: 'r::len word) :: 'a::len word list) = w"
proof (rule bit_word_eqI)
  fix n assume n: "n < LENGTH('r)"
  then have "n div LENGTH('a) < LENGTH('r) div LENGTH('a)"
    using assms by (simp add: less_mult_imp_div_less)
  then show "bit (unlanes (reg_lanes w :: 'a word list) :: 'r word) n = bit w n"
    using n by (simp add: bit_unlanes bit_nth_lanes div_mult_mod_eq)
qed

section \<open>Facts on lanes\<close>

lemma sint_word_of_int_in:
  "\<lbrakk>smin TYPE('a word) \<le> k; k \<le> smax TYPE('a word)\<rbrakk> \<Longrightarrow> sint (word_of_int k :: 'a::len word) = k"
  by (simp add: sint_sbintrunc' smin_def smax_def signed_take_bit_int_eq_self)

lemma uint_word_of_int_in:
  "\<lbrakk>0 \<le> k; k < 2 ^ LENGTH('a)\<rbrakk> \<Longrightarrow> uint (word_of_int k :: 'a::len word) = k"
  by (simp add: uint_word_of_int take_bit_int_eq_self flip: take_bit_eq_mod)

lemma uint_drop_bit: "uint (drop_bit n (w :: 'a::len word)) = uint w div 2 ^ n"
  by (simp only: unsigned_drop_bit_eq bintr_uint order.refl flip: drop_bit_eq_div)

lemma uint_ucast_in:
  "uint (w :: 't::len word) < 2 ^ LENGTH('a) \<Longrightarrow> uint (ucast w :: 'a::len word) = uint w"
  by (simp only: ucast_eq) (rule uint_word_of_int_in [OF uint_ge_0])

lemma uint_avg:
  assumes "LENGTH('a) < LENGTH('t)"
  shows "uint (ucast (drop_bit 1 (ucast d + ucast s + 1 :: 't::len word)) :: 'a::len word)
           = (uint (d :: 'a word) + uint (s :: 'a word) + 1) div 2"
proof -
  have p: "2 * 2 ^ LENGTH('a) \<le> (2 :: int) ^ LENGTH('t)"
    using power_increasing [of "Suc LENGTH('a)" "LENGTH('t)" "2::int"] assms by simp
  define k where "k = uint d + uint s + 1"
  define W where "W = (ucast d + ucast s + 1 :: 't word)"
  define M :: int where "M = 2 ^ LENGTH('a)"
  have "0 \<le> uint d" "uint d < M" "0 \<le> uint s" "uint s < M"
    unfolding M_def by (simp_all add: uint_lt_2p)
  then have k: "0 \<le> k" "k < 2 * 2 ^ LENGTH('a)"
    unfolding k_def M_def [symmetric] by linarith+
  have "W = word_of_int k"
    by (simp only: ucast_eq of_int_add of_int_1 k_def W_def)
  then have W: "uint W = k"
    by (simp only:) (rule uint_word_of_int_in [OF k(1) order.strict_trans2 [OF k(2) p]])
  have "uint (drop_bit 1 W) < 2 ^ LENGTH('a)"
    unfolding uint_drop_bit W power_one_right M_def [symmetric] using k(2) [folded M_def] by linarith
  then show ?thesis
    unfolding W_def [symmetric] k_def [symmetric] by (simp only: uint_ucast_in uint_drop_bit W power_one_right)
qed

lemma sint_scast_mult:
  assumes "2 * LENGTH('a) \<le> LENGTH('t)"
  shows "sint (scast d * scast s :: 't::len word) = sint (d :: 'a::len word) * sint (s :: 'a word)"
proof -
  define h :: int where "h = 2 ^ (LENGTH('a) - 1)"
  have b: "- h \<le> sint x \<and> sint x < h" for x :: "'a word"
    using sint_bounds [of x] by (auto simp: smin_def smax_def h_def)
  have h: "h * h \<le> smax TYPE('t word)"
  proof -
    define g where "g = h * h"
    have "0 < g" by (simp add: g_def h_def)
    have "2 * LENGTH('a) - 1 = 1 + ((LENGTH('a) - 1) + (LENGTH('a) - 1))"
      using len_gt_0 [where 'a = 'a] by linarith
    then have "2 * g = 2 ^ (2 * LENGTH('a) - 1)"
      unfolding h_def g_def by (simp only: power_add power_one_right)
    also have "\<dots> \<le> 2 ^ (LENGTH('t) - 1)"
      using assms by (intro power_increasing diff_le_mono) simp_all
    finally have "2 * g \<le> smax TYPE('t word) + 1" by (simp add: smax_def)
    then show ?thesis using \<open>0 < g\<close> unfolding g_def [symmetric] by linarith
  qed
  have "\<bar>sint d * sint s\<bar> \<le> h * h"
    unfolding abs_mult using b [of d] b [of s] by (intro mult_mono) auto
  then have r: "smin TYPE('t word) \<le> sint d * sint s" "sint d * sint s \<le> smax TYPE('t word)"
    using h by (auto simp: smin_def smax_def)
  have "(scast d * scast s :: 't word) = word_of_int (sint d * sint s)"
    by (simp only: scast_eq of_int_mult)
  then show ?thesis using r by (simp only: sint_word_of_int_in)
qed

lemma word_of_int_sint_id: "word_of_int (sint (x :: 'a::len word)) = x"
  by (simp only: scast_id flip: scast_eq)

lemma zdiv_less:
  assumes "0 < (b :: int)" "a < c * b"
  shows "a div b < c"
proof (rule ccontr)
  assume "\<not> a div b < c"
  then have "c * b \<le> a div b * b" using assms(1) by (simp add: mult_right_mono)
  also have "\<dots> \<le> a"
    using pos_mod_sign [OF assms(1), of a] by (simp flip: minus_mod_eq_div_mult)
  finally show False using assms(2) by simp
qed

lemma zdiv_ge: "\<lbrakk>0 < (b :: int); c * b \<le> a\<rbrakk> \<Longrightarrow> c \<le> a div b"
  using zdiv_mono1 [of "c * b" a b] by simp

lemma uint_ucast_prod:
  assumes "2 * LENGTH('a) \<le> LENGTH('t)"
  shows "uint (ucast d * ucast s :: 't::len word) = uint (d :: 'a::len word) * uint (s :: 'a word)"
proof -
  define M :: int where "M = 2 ^ LENGTH('a)"
  have b: "0 \<le> uint x \<and> uint x < M" for x :: "'a word"
    unfolding M_def by (simp add: uint_lt_2p)
  have "M * M = 2 ^ (2 * LENGTH('a))" by (simp add: M_def mult_2 power_add)
  also have "\<dots> \<le> 2 ^ LENGTH('t)" using assms by (intro power_increasing) simp_all
  finally have M: "M * M \<le> 2 ^ LENGTH('t)" .
  have "uint d * uint s < M * M" using b [of d] b [of s] by (intro mult_strict_mono') auto
  then have r: "0 \<le> uint d * uint s" "uint d * uint s < 2 ^ LENGTH('t)"
    using M by simp_all
  have "(ucast d * ucast s :: 't word) = word_of_int (uint d * uint s)"
    by (simp only: ucast_eq of_int_mult)
  then show ?thesis using r by (simp only: uint_word_of_int_in)
qed

lemma product_u:
  assumes "2 * LENGTH('a) \<le> LENGTH('t)"
  shows "uint (ucast (drop_bit LENGTH('a) (ucast d * ucast s :: 't::len word)) :: 'a word) * 2 ^ LENGTH('a)
           + uint (d * s) = uint (d :: 'a::len word) * uint (s :: 'a word)"
proof -
  define M :: int where "M = 2 ^ LENGTH('a)"
  have b: "0 \<le> uint x \<and> uint x < M" for x :: "'a word"
    unfolding M_def by (simp add: uint_lt_2p)
  have "uint d * uint s < M * M" using b [of d] b [of s] by (intro mult_strict_mono') auto
  then have "uint d * uint s div M < M" by (intro zdiv_less) (simp_all add: M_def)
  then have "uint (ucast (drop_bit LENGTH('a) (ucast d * ucast s :: 't word)) :: 'a word) = uint d * uint s div M"
    by (subst uint_ucast_in) (simp_all only: uint_drop_bit uint_ucast_prod [OF assms] M_def)
  moreover have "uint (d * s) = uint d * uint s mod M"
    by (simp add: uint_word_ariths M_def)
  ultimately show ?thesis by (simp only: M_def [symmetric] div_mult_mod_eq)
qed

lemma sint_ucast_in:
  assumes "LENGTH('a) \<le> LENGTH('t)"
    and "smin TYPE('a word) \<le> sint (w :: 't::len word)" "sint w \<le> smax TYPE('a word)"
  shows "sint (ucast w :: 'a::len word) = sint w"
proof -
  have "(ucast w :: 'a word) = scast w"
    by (rule fun_cong [OF down_cast_same]) (simp_all add: is_down assms(1))
  then show ?thesis
    using assms by (simp only: scast_eq sint_word_of_int_in)
qed

lemma product_s:
  assumes "2 * LENGTH('a) \<le> LENGTH('t)"
  shows "sint (ucast (signed_drop_bit LENGTH('a) (scast d * scast s :: 't::len word)) :: 'a word) * 2 ^ LENGTH('a)
           + uint (d * s) = sint (d :: 'a::len word) * sint (s :: 'a word)"
proof -
  define p where "p = sint d * sint s"
  define h :: int where "h = 2 ^ (LENGTH('a) - 1)"
  have M: "2 ^ LENGTH('a) = 2 * h"
    unfolding h_def using len_gt_0 [where 'a = 'a] by (simp flip: power_Suc)
  have h: "0 < h" by (simp add: h_def)
  have b: "- h \<le> sint x \<and> sint x < h" for x :: "'a word"
    using sint_bounds [of x] by (auto simp: smin_def smax_def h_def)
  have "\<bar>p\<bar> \<le> h * h"
    unfolding abs_mult p_def using b [of d] b [of s] by (intro mult_mono) auto
  then have "- h * (2 * h) \<le> p" "p < h * (2 * h)" using mult_pos_pos [OF h h] by (simp_all add: abs_le_iff)
  then have q: "- h \<le> p div (2 * h)" "p div (2 * h) < h"
    using h by (simp_all add: zdiv_less zdiv_ge)
  have e: "sint (signed_drop_bit LENGTH('a) (scast d * scast s :: 't word)) = p div (2 * h)"
    by (simp only: sint_signed_drop_bit_eq sint_scast_mult [OF assms] drop_bit_eq_div M p_def)
  have "sint (ucast (signed_drop_bit LENGTH('a) (scast d * scast s :: 't word)) :: 'a word) = p div (2 * h)"
  proof -
    have r: "smin TYPE('a word) \<le> p div (2 * h)" "p div (2 * h) \<le> smax TYPE('a word)"
      unfolding smin_def smax_def h_def [symmetric] using q by linarith+
    show ?thesis by (subst sint_ucast_in) (use assms r in \<open>simp_all add: e\<close>)
  qed
  moreover have "uint (d * s) = p mod (2 * h)"
  proof -
    have "d * s = word_of_int p"
      by (simp only: p_def of_int_mult word_of_int_sint_id)
    then show ?thesis by (simp only: uint_word_of_int M)
  qed
  ultimately show ?thesis by (simp only: M div_mult_mod_eq p_def)
qed


lemma product_16_bound:
  fixes x y :: "16 word"
  shows "\<bar>sint x * sint y\<bar> \<le> 2 ^ 30"
    and "\<not> (x = 0x8000 \<and> y = 0x8000) \<Longrightarrow> sint x * sint y < 2 ^ 30"
proof -
  have b: "\<bar>sint z\<bar> \<le> 2 ^ 15" for z :: "16 word"
    using sint_bounds [of z] by (simp add: smin_def smax_def abs_le_iff)
  show "\<bar>sint x * sint y\<bar> \<le> 2 ^ 30"
    using mult_mono [OF b [of x] b [of y]] by (simp add: abs_mult)
  have m: "\<bar>sint z\<bar> \<le> 2 ^ 15 - 1" if "z \<noteq> 0x8000" for z :: "16 word"
  proof -
    have "sint z \<noteq> sint (0x8000 :: 16 word)" using that by (metis word_of_int_sint_id)
    then show ?thesis using sint_bounds [of z] by (simp add: smin_def smax_def abs_le_iff)
  qed
  assume "\<not> (x = 0x8000 \<and> y = 0x8000)"
  then consider "x \<noteq> 0x8000" | "y \<noteq> 0x8000" by blast
  then have "\<bar>sint x * sint y\<bar> \<le> (2 ^ 15 - 1) * 2 ^ 15"
    using mult_mono [OF m [of x] b [of y]] mult_mono [OF b [of x] m [of y]]
    by cases (simp_all add: abs_mult)
  then show "sint x * sint y < 2 ^ 30" by (simp add: abs_le_iff)
qed

lemma madd_16:
  fixes a b c d :: "16 word"
  shows "sint (scast a * scast b + scast c * scast d :: 32 word) =
    (if a = 0x8000 \<and> b = 0x8000 \<and> c = 0x8000 \<and> d = 0x8000 then - (2 ^ 31)
     else sint a * sint b + sint c * sint d)"
proof -
  have e: "(scast a * scast b + scast c * scast d :: 32 word)
             = word_of_int (sint a * sint b + sint c * sint d)"
    by (simp only: scast_eq of_int_mult of_int_add)
  show ?thesis
  proof (cases "a = 0x8000 \<and> b = 0x8000 \<and> c = 0x8000 \<and> d = 0x8000")
    case True
    then show ?thesis by simp
  next
    case False
    then have "sint a * sint b + sint c * sint d < 2 ^ 31"
      using product_16_bound(1) [of a b] product_16_bound(2) [of a b]
        product_16_bound(1) [of c d] product_16_bound(2) [of c d] by (auto simp: abs_le_iff)
    moreover have "- (2 ^ 31) \<le> sint a * sint b + sint c * sint d"
      using product_16_bound(1) [of a b] product_16_bound(1) [of c d] by (auto simp: abs_le_iff)
    ultimately have "sint (word_of_int (sint a * sint b + sint c * sint d) :: 32 word)
        = sint a * sint b + sint c * sint d"
      by (intro sint_word_of_int_in) (simp_all add: smin_def smax_def)
    then show ?thesis unfolding e using False by (simp only: if_False)
  qed
qed

lemma add_sat_u_saturate: "add_sat_u = (saturate_add_u :: 'a::len word \<Rightarrow> _)"
proof (intro ext)
  fix d s :: "'a word"
  show "add_sat_u d s = saturate_add_u d s"
  proof (cases "uint d + uint s < 2 ^ LENGTH('a)")
    case True
    then have "d \<le> d + s" by (simp add: word_le_def uint_plus_carry)
    then show ?thesis
      using True by (simp add: add_sat_u_def saturate_add_u_def clamp_def)
  next
    case False
    then have "\<not> d \<le> d + s"
      by (simp add: word_le_def uint_plus_carry not_le uint_lt_2p)
    then show ?thesis
      using False by (simp add: add_sat_u_def saturate_add_u_def clamp_def word_of_int_2p_len)
  qed
qed

lemma sub_sat_u_saturate: "sub_sat_u = (saturate_sub_u :: 'a::len word \<Rightarrow> _)"
proof (intro ext)
  fix d s :: "'a word"
  show "sub_sat_u d s = saturate_sub_u d s"
  proof (cases "uint s \<le> uint d")
    case True
    have "d - s \<le> d" using True by (simp add: word_le_def uint_minus_borrow)
    then show ?thesis
      using True uint_lt_2p [of d] by (simp add: sub_sat_u_def saturate_sub_u_def clamp_def)
  next
    case False
    then have "\<not> d - s \<le> d"
      by (simp add: word_le_def uint_minus_borrow not_le uint_lt_2p)
    then show ?thesis
      using False by (simp add: sub_sat_u_def saturate_sub_u_def clamp_def)
  qed
qed

lemma drop_bit_sign: "drop_bit (LENGTH('a) - 1) (x :: 'a::len word) = of_bool (sint x < 0)"
proof (rule bit_word_eqI)
  fix n assume "n < LENGTH('a)"
  then show "bit (drop_bit (LENGTH('a) - 1) x) n = bit (of_bool (sint x < 0) :: 'a word) n"
    unfolding sint_neg_iff_msb
    by (cases n) (auto simp: bit_drop_bit_eq bit_simps dest: bit_imp_le_length)
qed

lemma smax_Suc: "smax TYPE('a::len word) + 1 = smin TYPE('a word) + 2 ^ LENGTH('a)"
  using power_Suc [of "2::int" "LENGTH('a) - 1"] by (simp add: smax_def smin_def del: power_Suc)

lemma word_smax_Suc: "word_of_int (smax TYPE('a word)) + 1 = (word_of_int (smin TYPE('a word)) :: 'a::len word)"
proof -
  have "(word_of_int (smax TYPE('a word) + 1) :: 'a word) = word_of_int (smin TYPE('a word) + 2 ^ LENGTH('a))"
    by (simp only: smax_Suc)
  then show ?thesis by (simp only: of_int_add of_int_1 word_of_int_2p_len add_0_right)
qed

lemma word_smin_pred: "word_of_int (smin TYPE('a word)) - 1 = (word_of_int (smax TYPE('a word)) :: 'a::len word)"
  by (simp flip: word_smax_Suc)

lemma smin_less_smax: "smin TYPE('a::len word) < smax TYPE('a word)"
  using zero_less_power [of "2::int" "LENGTH('a) - 1"] unfolding smin_def smax_def by linarith

lemma add_sat_s_saturate: "add_sat_s = (saturate_add_s :: 'a::len word \<Rightarrow> _)"
proof (intro ext)
  fix d s :: "'a word"
  define v where "v = sint d + sint s"
  have e: "d + s = word_of_int v"
    by (simp only: v_def of_int_add word_of_int_sint_id)
  have n: "sint s < 0" if "v < smin TYPE('a word)"
    using that sint_bounds [of d] unfolding v_def by linarith
  have p: "\<not> sint s < 0" if "smax TYPE('a word) < v"
    using that sint_bounds [of d] unfolding v_def by linarith
  consider "v < smin TYPE('a word)" | "smax TYPE('a word) < v"
    | "smin TYPE('a word) \<le> v" "v \<le> smax TYPE('a word)" by linarith
  then show "add_sat_s d s = saturate_add_s d s"
    unfolding add_sat_s_def saturate_add_s_def add_would_overflow_s_def drop_bit_sign v_def [symmetric]
    using n p smin_less_smax [where 'a = 'a]
    by cases (simp_all add: clamp_def e word_smax_Suc word_smin_pred add.commute [of 1] del: of_int_add of_int_diff)
qed

lemma sub_sat_s_saturate: "sub_sat_s = (saturate_sub_s :: 'a::len word \<Rightarrow> _)"
proof (intro ext)
  fix d s :: "'a word"
  define v where "v = sint d - sint s"
  have e: "d - s = word_of_int v"
    by (simp only: v_def of_int_diff word_of_int_sint_id)
  have n: "\<not> sint s < 0" if "v < smin TYPE('a word)"
    using that sint_bounds [of d] unfolding v_def by linarith
  have p: "sint s < 0" if "smax TYPE('a word) < v"
    using that sint_bounds [of d] unfolding v_def by linarith
  consider "v < smin TYPE('a word)" | "smax TYPE('a word) < v"
    | "smin TYPE('a word) \<le> v" "v \<le> smax TYPE('a word)" by linarith
  then show "sub_sat_s d s = saturate_sub_s d s"
    unfolding sub_sat_s_def saturate_sub_s_def sub_would_overflow_s_def drop_bit_sign v_def [symmetric]
    using n p smin_less_smax [where 'a = 'a]
    by cases (simp_all add: clamp_def e word_smax_Suc word_smin_pred add.commute [of 1] del: of_int_add of_int_diff)
qed

end
