(* ===== verification/Z86_Simd.thy ===== *)
theory Z86_Simd
  imports Z86_Vector
begin

text \<open>
  The dispatch of the packed integer instructions (MMX, and SSE to SSE4.1 with an operand-size
  prefix) in the two-byte and three-byte opcode maps of
  \<^verbatim>\<open>z86_execute_impl\<close> in \<^verbatim>\<open>8086_cpu.cpp\<close>, on the register files and the
  ModRM operand templates \<^verbatim>\<open>binopRM_MM\<close>, \<^verbatim>\<open>binopMR_MM\<close>,
  \<^verbatim>\<open>binopRM_XX\<close>, \<^verbatim>\<open>binopMR_XX\<close> and \<^verbatim>\<open>binopRM_MX\<close> of
  \<^verbatim>\<open>z86_core_internal_post.h\<close>.  The tables follow the code row by row, with the
  operation each row calls, so they also carry the rows that call another operation than
  their comment names.  A memory operand is the list of the bytes at its address.  The
  shifts by a register, MASKMOV and the floating-point arithmetic are not in the tables.
\<close>

section \<open>State, operands and instructions\<close>

record simd_flags =
  CPUID_X87 :: bool
  CPUID_MMX :: bool
  CPUID_3DNOW :: bool
  CPUID_SSE :: bool
  CPUID_SSE2 :: bool
  CPUID_SSE3 :: bool
  CPUID_SSSE3 :: bool
  CPUID_SSE41 :: bool
  SIMD_NO_UD :: bool

text \<open>
  The register files, and the REX prefix byte of the current instruction (0 when it has none, and
  always outside long mode).  The file \<open>xmm\<close> has 16 registers on a core with long mode and SSE, which
  is what \<^verbatim>\<open>z86_64\<close> is, and 8 on the others.
\<close>

record simd_regs =
  mm :: "u64 list"
  xmm :: "u128 list"
  rex_bits :: u8

datatype opcode_prefix = OpcodeNoPrefix | Opcode66Prefix | OpcodeF2Prefix | OpcodeF3Prefix

datatype simd_operand = RegM nat | MemM "u8 list"

datatype simd_instr =
    Always_UD
  | Empty_case "simd_flags \<Rightarrow> bool"
  | RM_MM "simd_flags \<Rightarrow> bool" "u64 \<Rightarrow> u64 \<Rightarrow> u64"
  | MR_MM "simd_flags \<Rightarrow> bool" "u64 \<Rightarrow> u64"
  | RM_XX "simd_flags \<Rightarrow> bool" "u128 \<Rightarrow> u128 \<Rightarrow> u128"
  | MR_XX "simd_flags \<Rightarrow> bool" "u128 \<Rightarrow> u128"
  | RM_MX "simd_flags \<Rightarrow> bool" "u64 \<Rightarrow> u128 \<Rightarrow> u64"

text \<open>
  \<open>Not_executed\<close> is a case with an empty body: no register changes and the ModRM byte is
  not consumed.  \<open>Done\<close> carries the registers and the bytes written to a memory operand.
\<close>

datatype simd_outcome = UD_fault | Not_executed | Done simd_regs "u8 list option"

definition mmx_regs :: "simd_flags \<Rightarrow> bool" where
  "mmx_regs fl \<longleftrightarrow> CPUID_X87 fl \<or> CPUID_MMX fl \<or> CPUID_3DNOW fl"

definition sse_regs :: "simd_flags \<Rightarrow> bool" where
  "sse_regs fl \<longleftrightarrow> CPUID_SSE fl \<or> CPUID_SSE2 fl"

section \<open>Operand templates\<close>

text \<open>
  The bits of the REX prefix extend the numbers of the \<open>xmm\<close> registers in the ModRM byte
  (\<^verbatim>\<open>index_xmm_regR\<close> and \<^verbatim>\<open>index_xmm_regMB\<close>; no row passes \<^verbatim>\<open>OP_NO_REX\<close>), but not those of the
  \<open>mm\<close> registers.
\<close>

definition REX_B :: "u8 \<Rightarrow> u8" where
  "REX_B raw = push_bit 3 (raw AND 1)"

definition REX_R :: "u8 \<Rightarrow> u8" where
  "REX_R raw = push_bit 1 (raw AND 4)"

definition xmm_regR :: "simd_regs \<Rightarrow> nat \<Rightarrow> nat" where
  "xmm_regR s i = i OR unat (REX_R (rex_bits s))"

definition xmm_regMB :: "simd_regs \<Rightarrow> nat \<Rightarrow> nat" where
  "xmm_regMB s i = i OR unat (REX_B (rex_bits s))"

definition read_mm :: "simd_regs \<Rightarrow> simd_operand \<Rightarrow> u64" where
  "read_mm s m = (case m of RegM i \<Rightarrow> mm s ! i | MemM bs \<Rightarrow> unlanes (take 8 bs))"

definition read_xx :: "simd_regs \<Rightarrow> simd_operand \<Rightarrow> u128" where
  "read_xx s m = (case m of RegM i \<Rightarrow> xmm s ! xmm_regMB s i | MemM bs \<Rightarrow> unlanes (take 16 bs))"

definition binopRM_MM :: "(u64 \<Rightarrow> u64 \<Rightarrow> u64) \<Rightarrow> nat \<Rightarrow> simd_operand \<Rightarrow> simd_regs \<Rightarrow> simd_outcome" where
  "binopRM_MM f r m s =
     (let mval = read_mm s m in Done (s\<lparr>mm := (mm s)[r := f (mm s ! r) mval]\<rparr>) None)"

definition binopRM_XX :: "(u128 \<Rightarrow> u128 \<Rightarrow> u128) \<Rightarrow> nat \<Rightarrow> simd_operand \<Rightarrow> simd_regs \<Rightarrow> simd_outcome" where
  "binopRM_XX f r m s =
     (let mval = read_xx s m;
          r = xmm_regR s r
      in Done (s\<lparr>xmm := (xmm s)[r := f (xmm s ! r) mval]\<rparr>) None)"

text \<open>
  Every use of the store templates passes \<^verbatim>\<open>OP_NO_READ\<close>: the destination is not
  read, so the lambda is a function of the register alone.
\<close>

definition binopMR_MM :: "(u64 \<Rightarrow> u64) \<Rightarrow> nat \<Rightarrow> simd_operand \<Rightarrow> simd_regs \<Rightarrow> simd_outcome" where
  "binopMR_MM f r m s =
     (let rval = mm s ! r
      in case m of
        MemM bs \<Rightarrow> Done s (Some (reg_lanes (f rval)))
      | RegM i \<Rightarrow> Done (s\<lparr>mm := (mm s)[i := f rval]\<rparr>) None)"

definition binopMR_XX :: "(u128 \<Rightarrow> u128) \<Rightarrow> nat \<Rightarrow> simd_operand \<Rightarrow> simd_regs \<Rightarrow> simd_outcome" where
  "binopMR_XX f r m s =
     (let rval = xmm s ! xmm_regR s r
      in case m of
        MemM bs \<Rightarrow> Done s (Some (reg_lanes (f rval)))
      | RegM i \<Rightarrow> Done (s\<lparr>xmm := (xmm s)[xmm_regMB s i := f rval]\<rparr>) None)"

text \<open>The memory operand of \<open>binopRM_MX\<close> is one lane of the type, the rest zero.\<close>

definition binopRM_MX :: "(u64 \<Rightarrow> u128 \<Rightarrow> u64) \<Rightarrow> nat \<Rightarrow> simd_operand \<Rightarrow> simd_regs \<Rightarrow> simd_outcome" where
  "binopRM_MX f r m s =
     (let mval = (case m of RegM i \<Rightarrow> xmm s ! xmm_regMB s i | MemM bs \<Rightarrow> unlanes (take 8 bs))
      in Done (s\<lparr>mm := (mm s)[r := f (mm s ! r) mval]\<rparr>) None)"

text \<open>
  The check of the feature (\<^verbatim>\<open>THROW_UD_WITHOUT_FLAG\<close>) is dropped on cores without
  the invalid opcode fault; the check that the registers exist is not.
\<close>

fun exec_simd :: "simd_flags \<Rightarrow> nat \<Rightarrow> simd_operand \<Rightarrow> simd_regs \<Rightarrow> simd_instr \<Rightarrow> simd_outcome" where
  "exec_simd fl r m s Always_UD = UD_fault"
| "exec_simd fl r m s (Empty_case g) =
     (if \<not> g fl \<and> \<not> SIMD_NO_UD fl then UD_fault else Not_executed)"
| "exec_simd fl r m s (RM_MM g f) =
     (if \<not> g fl \<and> \<not> SIMD_NO_UD fl then UD_fault
      else if \<not> mmx_regs fl then UD_fault else binopRM_MM f r m s)"
| "exec_simd fl r m s (MR_MM g f) =
     (if \<not> g fl \<and> \<not> SIMD_NO_UD fl then UD_fault
      else if \<not> mmx_regs fl then UD_fault else binopMR_MM f r m s)"
| "exec_simd fl r m s (RM_XX g f) =
     (if \<not> g fl \<and> \<not> SIMD_NO_UD fl then UD_fault
      else if \<not> sse_regs fl then UD_fault else binopRM_XX f r m s)"
| "exec_simd fl r m s (MR_XX g f) =
     (if \<not> g fl \<and> \<not> SIMD_NO_UD fl then UD_fault
      else if \<not> sse_regs fl then UD_fault else binopMR_XX f r m s)"
| "exec_simd fl r m s (RM_MX g f) =
     (if \<not> g fl \<and> \<not> SIMD_NO_UD fl then UD_fault
      else if \<not> (mmx_regs fl \<and> sse_regs fl) then UD_fault else binopRM_MX f r m s)"

section \<open>The opcode tables\<close>

type_synonym simd_row = "opcode_prefix \<Rightarrow> simd_instr"

definition simd_case :: "simd_instr \<Rightarrow> simd_instr \<Rightarrow> simd_instr \<Rightarrow> simd_instr \<Rightarrow> simd_row" where
  "simd_case np p66 f3 f2 p =
     (case p of OpcodeNoPrefix \<Rightarrow> np | Opcode66Prefix \<Rightarrow> p66
              | OpcodeF3Prefix \<Rightarrow> f3 | OpcodeF2Prefix \<Rightarrow> f2)"

definition MMX_SSE :: "simd_flags \<Rightarrow> bool" where
  "MMX_SSE fl \<longleftrightarrow> CPUID_MMX fl \<and> CPUID_SSE fl"

definition MMX_SSE2 :: "simd_flags \<Rightarrow> bool" where
  "MMX_SSE2 fl \<longleftrightarrow> CPUID_MMX fl \<and> CPUID_SSE2 fl"

definition MMX_SSSE3 :: "simd_flags \<Rightarrow> bool" where
  "MMX_SSSE3 fl \<longleftrightarrow> CPUID_MMX fl \<and> CPUID_SSSE3 fl"

text \<open>A lambda on lanes of one width, run on register words.\<close>

definition on_lanes ::
  "('a::len word list \<Rightarrow> 'a word list \<Rightarrow> 'b::len word list) \<Rightarrow> 'r::len word \<Rightarrow> 'r word \<Rightarrow> 'r word" where
  "on_lanes f dst src = unlanes (f (reg_lanes dst) (reg_lanes src))"

definition on_src ::
  "('a::len word list \<Rightarrow> 'a word list) \<Rightarrow> 'r::len word \<Rightarrow> 'r word \<Rightarrow> 'r word" where
  "on_src f dst src = unlanes (f (reg_lanes src))"

type_synonym 'a op2 = "'a word list \<Rightarrow> 'a word list \<Rightarrow> 'a word list"

definition simd_pair ::
  "(simd_flags \<Rightarrow> bool) \<Rightarrow> (u64 \<Rightarrow> u64 \<Rightarrow> u64) \<Rightarrow> (simd_flags \<Rightarrow> bool) \<Rightarrow> (u128 \<Rightarrow> u128 \<Rightarrow> u128) \<Rightarrow> simd_row" where
  "simd_pair g f h k = simd_case (RM_MM g f) (RM_XX h k) Always_UD Always_UD"

definition simd_66 :: "(simd_flags \<Rightarrow> bool) \<Rightarrow> (u128 \<Rightarrow> u128 \<Rightarrow> u128) \<Rightarrow> simd_row" where
  "simd_66 h k = simd_case Always_UD (RM_XX h k) Always_UD Always_UD"

definition simd_empty :: "(simd_flags \<Rightarrow> bool) \<Rightarrow> (simd_flags \<Rightarrow> bool) \<Rightarrow> simd_row" where
  "simd_empty g h = simd_case (Empty_case g) (Empty_case h) Always_UD Always_UD"

text \<open>
  The bodies reached by \<^verbatim>\<open>goto\<close> from several rows: the check of the feature is the
  row's, the body is shared.
\<close>

definition movups_rm :: "(simd_flags \<Rightarrow> bool) \<Rightarrow> simd_instr" where
  "movups_rm g = RM_XX g (\<lambda>dst src. src)"

definition movups_mr :: "(simd_flags \<Rightarrow> bool) \<Rightarrow> simd_instr" where
  "movups_mr g = MR_XX g (\<lambda>src. src)"

definition unpcklps :: "(simd_flags \<Rightarrow> bool) \<Rightarrow> simd_instr" where
  "unpcklps g = RM_XX g (on_lanes (PUNPCKL :: 32 op2))"

definition unpcklpd :: "(simd_flags \<Rightarrow> bool) \<Rightarrow> simd_instr" where
  "unpcklpd g = RM_XX g (on_lanes (PUNPCKL :: 64 op2))"

definition unpckhps :: "(simd_flags \<Rightarrow> bool) \<Rightarrow> simd_instr" where
  "unpckhps g = RM_XX g (on_lanes (PUNPCKH :: 32 op2))"

definition unpckhpd :: "(simd_flags \<Rightarrow> bool) \<Rightarrow> simd_instr" where
  "unpckhpd g = RM_XX g (on_lanes (PUNPCKH :: 64 op2))"

definition pand :: "(simd_flags \<Rightarrow> bool) \<Rightarrow> simd_instr" where
  "pand g = RM_XX g (on_lanes (PAND :: 32 op2))"

definition pandn :: "(simd_flags \<Rightarrow> bool) \<Rightarrow> simd_instr" where
  "pandn g = RM_XX g (on_lanes (PANDN :: 32 op2))"

definition por :: "(simd_flags \<Rightarrow> bool) \<Rightarrow> simd_instr" where
  "por g = RM_XX g (on_lanes (POR :: 32 op2))"

definition pxor :: "(simd_flags \<Rightarrow> bool) \<Rightarrow> simd_instr" where
  "pxor g = RM_XX g (on_lanes (PXOR :: 32 op2))"

definition movq_mmx :: "(simd_flags \<Rightarrow> bool) \<Rightarrow> simd_instr" where
  "movq_mmx g = MR_MM g (\<lambda>src. src)"

text \<open>Rows 10 to 17, taken only on cores with SSE or SSE2 (the V20 owns them otherwise).\<close>

definition simd_rows_10 :: "(nat \<times> simd_row) list" where
  "simd_rows_10 =
    [(0x110, simd_case (movups_rm CPUID_SSE) (movups_rm CPUID_SSE2)
               (Empty_case CPUID_SSE) (Empty_case CPUID_SSE2)),
     (0x111, simd_case (movups_mr CPUID_SSE) (movups_mr CPUID_SSE2)
               (Empty_case CPUID_SSE) (Empty_case CPUID_SSE2)),
     (0x112, simd_case (Empty_case CPUID_SSE) (Empty_case CPUID_SSE2)
               (RM_XX CPUID_SSE3 (on_src (MOVLDUP :: 32 word list \<Rightarrow> 32 word list)))
               (Empty_case CPUID_SSE3)),
     (0x113, simd_empty CPUID_SSE CPUID_SSE2),
     (0x114, simd_case (unpcklps CPUID_SSE) (unpcklpd CPUID_SSE2) Always_UD Always_UD),
     (0x115, simd_case (unpckhps CPUID_SSE) (unpckhpd CPUID_SSE2) Always_UD Always_UD),
     (0x116, simd_case (Empty_case CPUID_SSE) (Empty_case CPUID_SSE2)
               (RM_XX CPUID_SSE3 (on_src (MOVHDUP :: 32 word list \<Rightarrow> 32 word list)))
               Always_UD),
     (0x117, simd_empty CPUID_SSE CPUID_SSE2)]"

definition simd_rows_54 :: "(nat \<times> simd_row) list" where
  "simd_rows_54 =
    [(0x154, simd_case (pand CPUID_SSE) (pand CPUID_SSE2) Always_UD Always_UD),
     (0x155, simd_case (pandn CPUID_SSE) (pandn CPUID_SSE2) Always_UD Always_UD),
     (0x156, simd_case (por CPUID_SSE) (por CPUID_SSE2) Always_UD Always_UD),
     (0x157, simd_case (pxor CPUID_SSE) (pxor CPUID_SSE2) Always_UD Always_UD)]"

text \<open>The 8-byte forms of the low interleavings are commented out in the code.\<close>

definition simd_rows_60 :: "(nat \<times> simd_row) list" where
  "simd_rows_60 =
    [(0x160, simd_case (Empty_case CPUID_MMX)
               (RM_XX CPUID_SSE2 (on_lanes (PUNPCKL :: 8 op2))) Always_UD Always_UD),
     (0x161, simd_case (Empty_case CPUID_MMX)
               (RM_XX CPUID_SSE2 (on_lanes (PUNPCKL :: 16 op2))) Always_UD Always_UD),
     (0x162, simd_case (Empty_case CPUID_MMX) (unpcklps CPUID_SSE2) Always_UD Always_UD),
     (0x163, simd_pair
        CPUID_MMX (on_lanes (PACKSS :: 16 word list \<Rightarrow> 16 word list \<Rightarrow> 8 word list))
        CPUID_SSE2 (on_lanes (PACKSS :: 16 word list \<Rightarrow> 16 word list \<Rightarrow> 8 word list))),
     (0x164, simd_pair CPUID_MMX (on_lanes (PCMPGT :: 8 op2))
               CPUID_SSE2 (on_lanes (PCMPGT :: 8 op2))),
     (0x165, simd_pair CPUID_MMX (on_lanes (PCMPGT :: 16 op2))
               CPUID_SSE2 (on_lanes (PCMPGT :: 16 op2))),
     (0x166, simd_pair CPUID_MMX (on_lanes (PCMPGT :: 32 op2))
               CPUID_SSE2 (on_lanes (PCMPGT :: 32 op2))),
     (0x167, simd_pair
        CPUID_MMX (on_lanes (PACKUS :: 16 word list \<Rightarrow> 16 word list \<Rightarrow> 8 word list))
        CPUID_SSE2 (on_lanes (PACKUS :: 16 word list \<Rightarrow> 16 word list \<Rightarrow> 8 word list)))]"

definition simd_rows_68 :: "(nat \<times> simd_row) list" where
  "simd_rows_68 =
    [(0x168, simd_pair CPUID_MMX (on_lanes (PUNPCKH :: 8 op2))
               CPUID_SSE2 (on_lanes (PUNPCKH :: 8 op2))),
     (0x169, simd_pair CPUID_MMX (on_lanes (PUNPCKH :: 16 op2))
               CPUID_SSE2 (on_lanes (PUNPCKH :: 16 op2))),
     (0x16A, simd_case (RM_MM CPUID_MMX (on_lanes (PUNPCKH :: 32 op2)))
               (unpckhps CPUID_SSE2) Always_UD Always_UD),
     (0x16B, simd_pair
        CPUID_MMX (on_lanes (PACKSS :: 32 word list \<Rightarrow> 32 word list \<Rightarrow> 16 word list))
        CPUID_SSE2 (on_lanes (PACKSS :: 32 word list \<Rightarrow> 32 word list \<Rightarrow> 16 word list))),
     (0x16C, simd_case Always_UD (unpcklpd CPUID_SSE2) Always_UD Always_UD),
     (0x16D, simd_case Always_UD (unpckhpd CPUID_SSE2) Always_UD Always_UD),
     (0x16E, simd_empty CPUID_MMX CPUID_SSE2),
     (0x16F, simd_case (RM_MM CPUID_MMX (\<lambda>dst src. src)) (movups_rm CPUID_SSE2)
               (movups_rm CPUID_SSE2) Always_UD)]"

definition simd_rows_70 :: "(nat \<times> simd_row) list" where
  "simd_rows_70 =
    [(0x170, simd_case (Empty_case MMX_SSE) (Empty_case CPUID_SSE2)
               (Empty_case CPUID_SSE2) (Empty_case CPUID_SSE2)),
     (0x171, simd_empty CPUID_MMX CPUID_SSE2),
     (0x172, simd_empty CPUID_MMX CPUID_SSE2),
     (0x173, simd_empty CPUID_MMX CPUID_SSE2),
     (0x174, simd_pair CPUID_MMX (on_lanes (PCMPEQ :: 8 op2))
               CPUID_SSE2 (on_lanes (PCMPEQ :: 8 op2))),
     (0x175, simd_pair CPUID_MMX (on_lanes (PCMPEQ :: 16 op2))
               CPUID_SSE2 (on_lanes (PCMPEQ :: 16 op2))),
     (0x176, simd_pair CPUID_MMX (on_lanes (PCMPEQ :: 32 op2))
               CPUID_SSE2 (on_lanes (PCMPEQ :: 32 op2)))]"

definition simd_rows_7F :: "(nat \<times> simd_row) list" where
  "simd_rows_7F =
    [(0x17F, simd_case (movq_mmx CPUID_MMX) (movups_mr CPUID_SSE2)
               (movups_mr CPUID_SSE2) Always_UD)]"

definition simd_rows_28 :: "(nat \<times> simd_row) list" where
  "simd_rows_28 =
    [(0x128, simd_case (movups_rm CPUID_SSE) (movups_rm CPUID_SSE2) Always_UD Always_UD),
     (0x129, simd_case (movups_mr CPUID_SSE) (movups_mr CPUID_SSE2) Always_UD Always_UD)]"

definition simd_rows_D4 :: "(nat \<times> simd_row) list" where
  "simd_rows_D4 =
    [(0x1D4, simd_pair MMX_SSE2 (on_lanes (PADD :: 64 op2))
               CPUID_SSE2 (on_lanes (PADD :: 64 op2))),
     (0x1D5, simd_pair CPUID_MMX (on_lanes (PMULL :: 16 op2))
               CPUID_SSE2 (on_lanes (PMULL :: 16 op2))),
     (0x1D6, simd_case Always_UD (Empty_case CPUID_SSE2) (Empty_case MMX_SSE2)
               (RM_MX MMX_SSE2 (\<lambda>dst src. unlanes [(reg_lanes src :: 64 word list) ! 0]))),
     (0x1D7, simd_empty MMX_SSE CPUID_SSE2)]"

text \<open>
  The subtractions with saturation PSUBUSB (16-byte form) and PSUBUSW call PADDS.
\<close>

definition simd_rows_D8 :: "(nat \<times> simd_row) list" where
  "simd_rows_D8 =
    [(0x1D8, simd_pair CPUID_MMX (on_lanes (PSUBS_u :: 8 op2))
               CPUID_SSE2 (on_lanes (PADDS_u :: 8 op2))),
     (0x1D9, simd_pair CPUID_MMX (on_lanes (PADDS_u :: 16 op2))
               CPUID_SSE2 (on_lanes (PADDS_u :: 16 op2))),
     (0x1DA, simd_pair MMX_SSE (on_lanes (PMIN_u :: 8 op2))
               CPUID_SSE2 (on_lanes (PMIN_u :: 8 op2))),
     (0x1DB, simd_case (RM_MM CPUID_MMX (on_lanes (PAND :: 32 op2)))
               (pand CPUID_SSE2) Always_UD Always_UD),
     (0x1DC, simd_pair CPUID_MMX (on_lanes (PADDS_u :: 8 op2))
               CPUID_SSE2 (on_lanes (PADDS_u :: 8 op2))),
     (0x1DD, simd_pair CPUID_MMX (on_lanes (PADDS_u :: 16 op2))
               CPUID_SSE2 (on_lanes (PADDS_u :: 16 op2))),
     (0x1DE, simd_pair MMX_SSE (on_lanes (PMAX_u :: 8 op2))
               CPUID_SSE2 (on_lanes (PMAX_u :: 8 op2))),
     (0x1DF, simd_case (RM_MM CPUID_MMX (on_lanes (PANDN :: 32 op2)))
               (pandn CPUID_SSE2) Always_UD Always_UD)]"

definition simd_rows_E0 :: "(nat \<times> simd_row) list" where
  "simd_rows_E0 =
    [(0x1E0, simd_pair MMX_SSE (on_lanes (PAVG TYPE(16) :: 8 op2))
               CPUID_SSE2 (on_lanes (PAVG TYPE(16) :: 8 op2))),
     (0x1E3, simd_pair MMX_SSE (on_lanes (PAVG TYPE(32) :: 16 op2))
               CPUID_SSE2 (on_lanes (PAVG TYPE(32) :: 16 op2))),
     (0x1E4, simd_pair MMX_SSE (on_lanes (PMULH_u TYPE(32) :: 16 op2))
               CPUID_SSE2 (on_lanes (PMULH_u TYPE(32) :: 16 op2))),
     (0x1E5, simd_pair CPUID_MMX (on_lanes (PMULH_s TYPE(32) :: 16 op2))
               CPUID_SSE2 (on_lanes (PMULH_s TYPE(32) :: 16 op2))),
     (0x1E6, simd_case Always_UD (Empty_case CPUID_SSE2) (Empty_case CPUID_SSE2)
               (Empty_case CPUID_SSE2)),
     (0x1E7, simd_case (movq_mmx MMX_SSE) (movups_mr CPUID_SSE2) Always_UD Always_UD)]"

text \<open>
  PSUBSB (16-byte form) and PSUBSW call PADDS.
\<close>

definition simd_rows_E8 :: "(nat \<times> simd_row) list" where
  "simd_rows_E8 =
    [(0x1E8, simd_pair CPUID_MMX (on_lanes (PSUBS_s :: 8 op2))
               CPUID_SSE2 (on_lanes (PADDS_s :: 8 op2))),
     (0x1E9, simd_pair CPUID_MMX (on_lanes (PADDS_s :: 16 op2))
               CPUID_SSE2 (on_lanes (PADDS_s :: 16 op2))),
     (0x1EA, simd_pair MMX_SSE (on_lanes (PMIN_s :: 16 op2))
               CPUID_SSE2 (on_lanes (PMIN_s :: 16 op2))),
     (0x1EB, simd_case (RM_MM CPUID_MMX (on_lanes (POR :: 32 op2)))
               (por CPUID_SSE2) Always_UD Always_UD),
     (0x1EC, simd_pair CPUID_MMX (on_lanes (PADDS_s :: 8 op2))
               CPUID_SSE2 (on_lanes (PADDS_s :: 8 op2))),
     (0x1ED, simd_pair CPUID_MMX (on_lanes (PADDS_s :: 16 op2))
               CPUID_SSE2 (on_lanes (PADDS_s :: 16 op2))),
     (0x1EE, simd_pair MMX_SSE (on_lanes (PMAX_s :: 16 op2))
               CPUID_SSE2 (on_lanes (PMAX_s :: 16 op2))),
     (0x1EF, simd_case (RM_MM CPUID_MMX (on_lanes (PXOR :: 32 op2)))
               (pxor CPUID_SSE2) Always_UD Always_UD)]"

definition simd_rows_F0 :: "(nat \<times> simd_row) list" where
  "simd_rows_F0 =
    [(0x1F0, simd_case Always_UD Always_UD (movups_rm CPUID_SSE3) Always_UD),
     (0x1F4, simd_pair MMX_SSE2 (on_lanes (PMUL :: 32 word list \<Rightarrow> 32 word list \<Rightarrow> 64 word list))
               CPUID_SSE2 (on_lanes (PMUL :: 32 word list \<Rightarrow> 32 word list \<Rightarrow> 64 word list))),
     (0x1F5, simd_pair CPUID_MMX (on_lanes (PMADD :: 16 word list \<Rightarrow> 16 word list \<Rightarrow> 32 word list))
               CPUID_SSE2 (on_lanes (PMADD :: 16 word list \<Rightarrow> 16 word list \<Rightarrow> 32 word list))),
     (0x1F6, simd_pair MMX_SSE (on_lanes (PSAD :: 8 word list \<Rightarrow> 8 word list \<Rightarrow> 16 word list))
               CPUID_SSE2 (on_lanes (PSAD :: 8 word list \<Rightarrow> 8 word list \<Rightarrow> 16 word list)))]"

text \<open>
  All subtractions but the 8-byte PSUBB call PADD.
\<close>

definition simd_rows_F8 :: "(nat \<times> simd_row) list" where
  "simd_rows_F8 =
    [(0x1F8, simd_pair CPUID_MMX (on_lanes (PSUB :: 8 op2))
               CPUID_SSE2 (on_lanes (PADD :: 8 op2))),
     (0x1F9, simd_pair CPUID_MMX (on_lanes (PADD :: 16 op2))
               CPUID_SSE2 (on_lanes (PADD :: 16 op2))),
     (0x1FA, simd_pair CPUID_MMX (on_lanes (PADD :: 32 op2))
               CPUID_SSE2 (on_lanes (PADD :: 32 op2))),
     (0x1FB, simd_pair MMX_SSE2 (on_lanes (PADD :: 64 op2))
               CPUID_SSE2 (on_lanes (PADD :: 64 op2))),
     (0x1FC, simd_pair CPUID_MMX (on_lanes (PADD :: 8 op2))
               CPUID_SSE2 (on_lanes (PADD :: 8 op2))),
     (0x1FD, simd_pair CPUID_MMX (on_lanes (PADD :: 16 op2))
               CPUID_SSE2 (on_lanes (PADD :: 16 op2))),
     (0x1FE, simd_pair CPUID_MMX (on_lanes (PADD :: 32 op2))
               CPUID_SSE2 (on_lanes (PADD :: 32 op2)))]"

definition simd_rows_200 :: "(nat \<times> simd_row) list" where
  "simd_rows_200 =
    [(0x200, simd_empty MMX_SSSE3 CPUID_SSSE3),
     (0x201, simd_pair MMX_SSSE3 (on_lanes (PHADD :: 16 op2))
               CPUID_SSSE3 (on_lanes (PHADD :: 16 op2))),
     (0x202, simd_pair MMX_SSSE3 (on_lanes (PHADD :: 32 op2))
               CPUID_SSSE3 (on_lanes (PHADD :: 32 op2))),
     (0x203, simd_pair MMX_SSSE3 (on_lanes (PHADDS :: 16 op2))
               CPUID_SSSE3 (on_lanes (PHADDS :: 16 op2))),
     (0x204, simd_empty MMX_SSSE3 CPUID_SSSE3),
     (0x205, simd_pair MMX_SSSE3 (on_lanes (PHSUB :: 16 op2))
               CPUID_SSSE3 (on_lanes (PHSUB :: 16 op2))),
     (0x206, simd_pair MMX_SSSE3 (on_lanes (PHSUB :: 32 op2))
               CPUID_SSSE3 (on_lanes (PHSUB :: 32 op2))),
     (0x207, simd_pair MMX_SSSE3 (on_lanes (PHSUBS :: 16 op2))
               CPUID_SSSE3 (on_lanes (PHSUBS :: 16 op2)))]"

definition simd_rows_208 :: "(nat \<times> simd_row) list" where
  "simd_rows_208 =
    [(0x208, simd_pair MMX_SSSE3 (on_lanes (PSIGN :: 8 op2))
               CPUID_SSSE3 (on_lanes (PSIGN :: 8 op2))),
     (0x209, simd_pair MMX_SSSE3 (on_lanes (PSIGN :: 16 op2))
               CPUID_SSSE3 (on_lanes (PSIGN :: 16 op2))),
     (0x20A, simd_pair MMX_SSSE3 (on_lanes (PSIGN :: 32 op2))
               CPUID_SSSE3 (on_lanes (PSIGN :: 32 op2))),
     (0x20B, simd_empty MMX_SSSE3 CPUID_SSSE3)]"

definition simd_rows_21C :: "(nat \<times> simd_row) list" where
  "simd_rows_21C =
    [(0x21C, simd_pair MMX_SSSE3 (on_src (PABS :: 8 word list \<Rightarrow> 8 word list))
               CPUID_SSSE3 (on_src (PABS :: 8 word list \<Rightarrow> 8 word list))),
     (0x21D, simd_pair MMX_SSSE3 (on_src (PABS :: 16 word list \<Rightarrow> 16 word list))
               CPUID_SSSE3 (on_src (PABS :: 16 word list \<Rightarrow> 16 word list))),
     (0x21E, simd_pair MMX_SSSE3 (on_src (PABS :: 32 word list \<Rightarrow> 32 word list))
               CPUID_SSSE3 (on_src (PABS :: 32 word list \<Rightarrow> 32 word list)))]"

text \<open>
  The row of PMULDQ calls PABS.
\<close>

definition simd_rows_228 :: "(nat \<times> simd_row) list" where
  "simd_rows_228 =
    [(0x228, simd_66 CPUID_SSE41 (on_src (PABS :: 32 word list \<Rightarrow> 32 word list))),
     (0x229, simd_66 CPUID_SSE41 (on_lanes (PCMPEQ :: 64 op2))),
     (0x22A, simd_case Always_UD (movups_rm CPUID_SSE41) Always_UD Always_UD),
     (0x22B, simd_66 CPUID_SSE41 (on_lanes (PACKUS :: 32 word list \<Rightarrow> 32 word list \<Rightarrow> 16 word list)))]"

definition simd_rows_237 :: "(nat \<times> simd_row) list" where
  "simd_rows_237 =
    [(0x237, simd_66 CPUID_SSE41 (on_lanes (PCMPGT :: 64 op2))),
     (0x238, simd_66 CPUID_SSE41 (on_lanes (PMIN_s :: 8 op2))),
     (0x239, simd_66 CPUID_SSE41 (on_lanes (PMIN_s :: 32 op2))),
     (0x23A, simd_66 CPUID_SSE41 (on_lanes (PMIN_u :: 16 op2))),
     (0x23B, simd_66 CPUID_SSE41 (on_lanes (PMIN_u :: 32 op2))),
     (0x23C, simd_66 CPUID_SSE41 (on_lanes (PMAX_s :: 8 op2))),
     (0x23D, simd_66 CPUID_SSE41 (on_lanes (PMAX_s :: 32 op2))),
     (0x23E, simd_66 CPUID_SSE41 (on_lanes (PMAX_u :: 16 op2))),
     (0x23F, simd_66 CPUID_SSE41 (on_lanes (PMAX_u :: 32 op2))),
     (0x240, simd_66 CPUID_SSE41 (on_lanes (PMULL :: 32 op2)))]"

definition simd_table :: "(nat \<times> simd_row) list" where
  "simd_table =
     simd_rows_10 @ simd_rows_28 @ simd_rows_54 @ simd_rows_60 @ simd_rows_68 @
     simd_rows_70 @ simd_rows_7F @ simd_rows_D4 @ simd_rows_D8 @ simd_rows_E0 @
     simd_rows_E8 @ simd_rows_F0 @ simd_rows_F8 @ simd_rows_200 @ simd_rows_208 @
     simd_rows_21C @ simd_rows_228 @ simd_rows_237"

text \<open>
  The rows the V20 shares are the vector instructions only on cores with SSE
  (\<^verbatim>\<open>if constexpr (!ctx.CPUID_SSE && ...)\<close>).
\<close>

definition v20_owns :: "simd_flags \<Rightarrow> nat \<Rightarrow> bool" where
  "v20_owns fl op \<longleftrightarrow>
     op \<in> {0x110, 0x111, 0x113, 0x114, 0x115, 0x117, 0x128} \<and> \<not> CPUID_SSE fl \<and> \<not> CPUID_SSE2 fl \<or>
     op \<in> {0x112, 0x116} \<and> \<not> CPUID_SSE fl \<and> \<not> CPUID_SSE2 fl \<and> \<not> CPUID_SSE3 fl"

definition simd_decode :: "simd_flags \<Rightarrow> nat \<Rightarrow> opcode_prefix \<Rightarrow> simd_instr option" where
  "simd_decode fl op p =
     (if v20_owns fl op then None else map_option (\<lambda>row. row p) (map_of simd_table op))"

definition simd_step ::
  "simd_flags \<Rightarrow> nat \<Rightarrow> opcode_prefix \<Rightarrow> nat \<Rightarrow> simd_operand \<Rightarrow> simd_regs \<Rightarrow> simd_outcome option" where
  "simd_step fl op p r m s = map_option (exec_simd fl r m s) (simd_decode fl op p)"


section \<open>The two halves of a wide register\<close>

definition pair128 :: "u64 \<Rightarrow> u64 \<Rightarrow> u128" where
  "pair128 hi lo = unlanes [lo, hi]"

lemma bit_pair128:
  "bit (pair128 hi lo) n \<longleftrightarrow> n < 128 \<and> (if n < 64 then bit lo n else bit hi (n - 64))"
  by (auto simp: pair128_def bit_simps bit_ucast_word dest: bit_imp_le_length)

lemma lanes_pair128:
  assumes "LENGTH('a) dvd 64"
  shows "(reg_lanes (pair128 hi lo) :: 'a::len word list) = reg_lanes lo @ reg_lanes hi"
proof -
  obtain k where k: "k * LENGTH('a) = 64" using assms by (metis dvd_def mult.commute)
  have "64 div LENGTH('a) = k" "128 div LENGTH('a) = k + k"
    using nonzero_mult_div_cancel_right [of "LENGTH('a)" k]
      nonzero_mult_div_cancel_right [of "LENGTH('a)" "k + k"] k by (simp_all add: distrib_right)
  note n = this
  have b: "m * LENGTH('a) + j < 64" if "j < LENGTH('a)" "m < k" for m j
  proof -
    have "Suc m * LENGTH('a) \<le> k * LENGTH('a)" using that by (intro mult_le_mono1) simp
    then show ?thesis using that k by simp
  qed
  show ?thesis
  proof (rule nth_equalityI)
    show "length (reg_lanes (pair128 hi lo) :: 'a word list) = length (reg_lanes lo @ reg_lanes hi :: 'a word list)"
      by (simp add: n)
    fix i assume "i < length (reg_lanes (pair128 hi lo) :: 'a word list)"
    then have "i < k + k" by (simp add: n)
    then consider "i < k" | m where "i = k + m" "m < k"
      by (metis add_less_cancel_left le_Suc_ex not_le)
    then show "(reg_lanes (pair128 hi lo) :: 'a word list) ! i = (reg_lanes lo @ reg_lanes hi) ! i"
      by cases (rule bit_word_eqI;
        use b k in \<open>fastforce simp: bit_nth_lanes n nth_append bit_pair128 distrib_right\<close>)+
  qed
qed

lemma unlanes_append:
  assumes "LENGTH('a) * length xs = 64" "LENGTH('a) * length ys = 64"
  shows "unlanes (xs @ ys :: 'a::len word list) = pair128 (unlanes ys) (unlanes xs)"
proof -
  have d: "LENGTH('a) dvd 64" using assms(1) by (metis dvd_triv_left)
  then have "LENGTH('a) dvd 128" using dvd_add [OF d d] by simp
  moreover have "reg_lanes (pair128 (unlanes ys) (unlanes xs)) = xs @ ys"
    using assms by (simp add: lanes_pair128 [OF d] lanes_unlanes)
  ultimately show ?thesis
    using unlanes_lanes [where 'a = 'a and w = "pair128 (unlanes ys) (unlanes xs)"] by simp
qed

text \<open>An operation that works lane by lane works on the two halves separately.\<close>

lemma on_lanes_map2_pair128:
  assumes "LENGTH('a) dvd 64"
  shows "on_lanes (map2 (f :: 'a::len word \<Rightarrow> 'a word \<Rightarrow> 'a word)) (pair128 a b) (pair128 c d)
    = pair128 (on_lanes (map2 f) a c) (on_lanes (map2 f) b d)"
  using assms by (simp add: on_lanes_def lanes_pair128 unlanes_append)

lemma on_src_map_pair128:
  assumes "LENGTH('a) dvd 64"
  shows "on_src (map (f :: 'a::len word \<Rightarrow> 'a word)) (pair128 a b) (pair128 c d)
    = pair128 (on_src (map f) a c) (on_src (map f) b d)"
  using assms by (simp add: on_src_def lanes_pair128 unlanes_append)

end
