(* ===== verification/Z86_Simd_Props.thy ===== *)
theory Z86_Simd_Props
  imports Z86_Simd
begin

text \<open>
  What the packed integer instructions compute: exact products and sums, saturation, the
  inverse pair of unpacking and packing, the agreement of the 8-byte and 16-byte forms of
  an instruction, and what an instruction can change.
\<close>

section \<open>Decoding\<close>

lemmas simd_rows =
  simd_rows_10_def simd_rows_28_def simd_rows_54_def simd_rows_60_def simd_rows_68_def
  simd_rows_70_def simd_rows_7F_def simd_rows_D4_def simd_rows_D8_def simd_rows_E0_def
  simd_rows_E8_def simd_rows_F0_def simd_rows_F8_def simd_rows_200_def simd_rows_208_def
  simd_rows_21C_def simd_rows_228_def simd_rows_237_def

lemmas simd_bodies =
  movups_rm_def movups_mr_def unpcklps_def unpcklpd_def unpckhps_def unpckhpd_def
  pand_def pandn_def por_def pxor_def movq_mmx_def

lemmas decode_simps =
  simd_decode_def simd_table_def simd_rows v20_owns_def simd_case_def simd_pair_def simd_66_def
  simd_empty_def simd_bodies

section \<open>Sequences of instructions\<close>

text \<open>An instruction of a sequence: its opcode, prefixes, register and operand.  The prefixes are reset
  after each instruction.\<close>

type_synonym simd_code = "nat \<times> opcode_prefix \<times> u8 \<times> nat \<times> simd_operand"

fun simd_run :: "simd_flags \<Rightarrow> simd_code list \<Rightarrow> simd_regs \<Rightarrow> simd_regs option" where
  "simd_run fl [] s = Some s"
| "simd_run fl ((op, p, rex, r, m) # is) s =
     (case simd_step fl op p r m (s\<lparr>rex_bits := rex\<rparr>) of
        Some (Done s' _) \<Rightarrow> simd_run fl is s'
      | _ \<Rightarrow> None)"

text \<open>An instruction on the \<open>xmm\<close> registers a and b: the numbers from 8 on need a REX prefix, with its
  bit R for the first and B for the second.\<close>

definition xmm_instr :: "nat \<Rightarrow> opcode_prefix \<Rightarrow> nat \<Rightarrow> nat \<Rightarrow> simd_code" where
  "xmm_instr op p a b =
     (op, p, (if a < 8 then 0 else 0x44) OR (if b < 8 then 0 else 0x41), a mod 8, RegM (b mod 8))"

lemma xmm_instr_regs:
  assumes "a < 16" "b < 16"
  shows "a mod 8 OR unat (REX_R ((if a < 8 then 0 else 0x44) OR (if b < 8 then 0 else 0x41))) = a"
    and "b mod 8 OR unat (REX_B ((if a < 8 then 0 else 0x44) OR (if b < 8 then 0 else 0x41))) = b"
proof -
  have "\<forall>a\<in>set [0..<16]. \<forall>b\<in>set [0..<16].
      a mod 8 OR unat (REX_R ((if a < 8 then 0 else 0x44) OR (if b < 8 then 0 else 0x41))) = a
    \<and> b mod 8 OR unat (REX_B ((if a < 8 then 0 else 0x44) OR (if b < 8 then 0 else 0x41))) = b"
    by code_simp
  then show "a mod 8 OR unat (REX_R ((if a < 8 then 0 else 0x44) OR (if b < 8 then 0 else 0x41))) = a"
    and "b mod 8 OR unat (REX_B ((if a < 8 then 0 else 0x44) OR (if b < 8 then 0 else 0x41))) = b"
    using assms by simp_all
qed

lemma simd_run_xmm:
  assumes "simd_decode fl op p = Some (RM_XX g f)" "g fl" "sse_regs fl" "a < 16" "b < 16"
  shows "simd_run fl (xmm_instr op p a b # is) s =
    (let rex = (if a < 8 then 0 else 0x44) OR (if b < 8 then 0 else 0x41)
     in simd_run fl is (s\<lparr>rex_bits := rex, xmm := (xmm s)[a := f (xmm s ! a) (xmm s ! b)]\<rparr>))"
  using assms xmm_instr_regs [OF assms(4,5)]
  by (simp add: xmm_instr_def simd_step_def binopRM_XX_def read_xx_def xmm_regR_def xmm_regMB_def Let_def)

section \<open>Unpacking with zero and packing\<close>

lemma length_PUNPCKL [simp]: "length (PUNPCKL xs ys) = 2 * (length xs div 2)"
  by (simp add: PUNPCKL_def length_concat comp_def sum_list_triv)

lemma length_PUNPCKH [simp]: "length (PUNPCKH xs ys) = 2 * (length xs div 2)"
  by (simp add: PUNPCKH_def Let_def length_concat comp_def sum_list_triv)

lemma concat_pairs_nth:
  "n < 2 * k \<Longrightarrow> concat (map (\<lambda>i. [f i, g i]) [0..<k]) ! n = (if even n then f (n div 2) else g (n div 2))"
proof (induction k)
  case 0
  then show ?case by simp
next
  case (Suc k)
  have l: "length (concat (map (\<lambda>i. [f i, g i]) [0..<k])) = 2 * k"
    by (simp add: length_concat comp_def sum_list_triv)
  from Suc.prems consider "n < 2 * k" | "n = 2 * k" | "n = 2 * k + 1" by force
  then show ?case by cases (simp_all add: Suc.IH nth_append l)
qed

lemma nth_PUNPCKL:
  "n < 2 * (length xs div 2) \<Longrightarrow> PUNPCKL xs ys ! n = (if even n then xs ! (n div 2) else ys ! (n div 2))"
  by (simp add: PUNPCKL_def concat_pairs_nth)

lemma nth_PUNPCKH:
  "n < 2 * (length xs div 2) \<Longrightarrow>
    PUNPCKH xs ys ! n = (if even n then xs ! (length xs div 2 + n div 2) else ys ! (length xs div 2 + n div 2))"
  by (simp add: PUNPCKH_def Let_def concat_pairs_nth)

lemma lanes_zero [simp]:
  "reg_lanes (0 :: 'r::len word) = replicate (LENGTH('r) div LENGTH('a)) (0 :: 'a::len word)"
  by (rule nth_equalityI) (simp_all add: nth_lanes)

text \<open>A 16 bit lane is made of the two bytes at its place.\<close>

lemma bit_lanes16_of_bytes:
  assumes "8 * length ys = LENGTH('r)" "i < LENGTH('r) div 16" "n < 16"
  shows "bit ((reg_lanes (unlanes (ys :: 8 word list) :: 'r::len word) :: 16 word list) ! i) n
    = bit (ys ! (2 * i + n div 8)) (n mod 8)"
proof -
  have d: "(i * 16 + n) div 8 = 2 * i + n div 8" "(i * 16 + n) mod 8 = n mod 8"
    by presburger+
  have "i * 16 + n < LENGTH('r)" using assms(2,3) by linarith
  moreover have "2 * i + n div 8 < length ys" using assms by linarith
  ultimately show ?thesis
    using assms(2,3) by (simp add: bit_nth_lanes bit_unlanes d)
qed

lemma lanes16_widen:
  assumes "8 * length ys = LENGTH('r)"
    and "\<And>i. i < LENGTH('r) div 16 \<Longrightarrow> ys ! (2 * i) = xs ! i \<and> ys ! (2 * i + 1) = 0"
    and "length (xs :: 8 word list) = LENGTH('r) div 16"
  shows "(reg_lanes (unlanes (ys :: 8 word list) :: 'r::len word) :: 16 word list) = map ucast xs"
proof (rule nth_equalityI)
  fix i assume "i < length (reg_lanes (unlanes ys :: 'r word) :: 16 word list)"
  then have i: "i < LENGTH('r) div 16" by simp
  show "(reg_lanes (unlanes ys :: 'r word) :: 16 word list) ! i = map ucast xs ! i"
  proof (rule bit_word_eqI)
    fix n assume "n < LENGTH(16)"
    then have n: "n < 16" by simp
    then consider "n < 8" | m where "n = 8 + m" "m < 8"
      by (metis add_less_cancel_left le_Suc_ex not_le numeral_Bit0)
    then show "bit ((reg_lanes (unlanes ys :: 'r word) :: 16 word list) ! i) n
        = bit (map ucast xs ! i :: 16 word) n"
      using bit_lanes16_of_bytes [OF assms(1) i n] assms(2) [OF i] assms(3) i
      by cases (auto simp: bit_ucast_word div_add_self1 dest: bit_imp_le_length)
  qed
qed (simp add: assms(3))

lemma PUNPCKLBW_zero:
  assumes "16 dvd LENGTH('r)"
  shows "(reg_lanes (on_lanes (PUNPCKL :: 8 op2) (x :: 'r::len word) 0) :: 16 word list)
    = map ucast (take (LENGTH('r) div 16) (reg_lanes x :: 8 word list))"
  unfolding on_lanes_def
proof (rule lanes16_widen)
  obtain k where k: "LENGTH('r) = 16 * k" using assms by blast
  have e: "LENGTH('r) div 8 = 2 * k" "LENGTH('r) div 16 = k" by (simp_all add: k)
  show "8 * length (PUNPCKL (reg_lanes x :: 8 word list) (reg_lanes (0 :: 'r word))) = LENGTH('r)"
    by (simp add: e k)
  show "length (take (LENGTH('r) div 16) (reg_lanes x :: 8 word list)) = LENGTH('r) div 16"
    by (simp add: e)
  fix i assume "i < LENGTH('r) div 16"
  then show "PUNPCKL (reg_lanes x :: 8 word list) (reg_lanes (0 :: 'r word)) ! (2 * i)
        = take (LENGTH('r) div 16) (reg_lanes x) ! i
      \<and> PUNPCKL (reg_lanes x :: 8 word list) (reg_lanes (0 :: 'r word)) ! (2 * i + 1) = 0"
    by (simp add: nth_PUNPCKL e)
qed

lemma PUNPCKHBW_zero:
  assumes "16 dvd LENGTH('r)"
  shows "(reg_lanes (on_lanes (PUNPCKH :: 8 op2) (x :: 'r::len word) 0) :: 16 word list)
    = map ucast (drop (LENGTH('r) div 16) (reg_lanes x :: 8 word list))"
  unfolding on_lanes_def
proof (rule lanes16_widen)
  obtain k where k: "LENGTH('r) = 16 * k" using assms by blast
  have e: "LENGTH('r) div 8 = 2 * k" "LENGTH('r) div 16 = k" by (simp_all add: k)
  show "8 * length (PUNPCKH (reg_lanes x :: 8 word list) (reg_lanes (0 :: 'r word))) = LENGTH('r)"
    by (simp add: e k)
  show "length (drop (LENGTH('r) div 16) (reg_lanes x :: 8 word list)) = LENGTH('r) div 16"
    by (simp add: e)
  fix i assume "i < LENGTH('r) div 16"
  then show "PUNPCKH (reg_lanes x :: 8 word list) (reg_lanes (0 :: 'r word)) ! (2 * i)
        = drop (LENGTH('r) div 16) (reg_lanes x) ! i
      \<and> PUNPCKH (reg_lanes x :: 8 word list) (reg_lanes (0 :: 'r word)) ! (2 * i + 1) = 0"
    by (simp add: nth_PUNPCKH e)
qed

lemma PACKUS_ucast:
  "PACKUS (map ucast xs :: 16 word list) (map ucast ys) = (xs @ ys :: 8 word list)"
proof -
  have "word_of_int (clamp 0 (2 ^ 8 - 1) (sint (ucast b :: 16 word))) = b" for b :: "8 word"
  proof -
    have "0 \<le> uint b" "uint b < 256" using uint_lt_2p [of b] by simp_all
    then have "sint (ucast b :: 16 word) = uint b"
      unfolding ucast_eq by (intro sint_word_of_int_in; unfold smin_def smax_def; simp; linarith)
    then show ?thesis
      using uint_lt_2p [of b] by (simp add: clamp_def)
  qed
  then show ?thesis by (simp add: PACKUS_def map_idI)
qed

lemma unpack_pack:
  assumes "16 dvd LENGTH('r)"
  shows "on_lanes (PACKUS :: 16 word list \<Rightarrow> 16 word list \<Rightarrow> 8 word list)
      (on_lanes (PUNPCKL :: 8 op2) x 0) (on_lanes (PUNPCKH :: 8 op2) x 0) = (x :: 'r::len word)"
proof -
  have "8 dvd LENGTH('r)" using assms by presburger
  then show ?thesis
    unfolding on_lanes_def [of PACKUS] PUNPCKLBW_zero [OF assms] PUNPCKHBW_zero [OF assms] PACKUS_ucast
    by (simp add: unlanes_lanes)
qed


lemma decode_unpack_pack:
  "simd_decode fl 0x160 Opcode66Prefix = Some (RM_XX CPUID_SSE2 (on_lanes (PUNPCKL :: 8 op2)))"
  "simd_decode fl 0x168 Opcode66Prefix = Some (RM_XX CPUID_SSE2 (on_lanes (PUNPCKH :: 8 op2)))"
  "simd_decode fl 0x167 Opcode66Prefix =
     Some (RM_XX CPUID_SSE2 (on_lanes (PACKUS :: 16 word list \<Rightarrow> 16 word list \<Rightarrow> 8 word list)))"
  by (simp_all add: decode_simps)

text \<open>C23: Widening the bytes of a register and narrowing them again gives the register back: on every
  core with SSE2 and any registers a, b, z of its file (16 on the 64-bit core, where the numbers from 8
  on are encoded with a REX prefix; 8 where there is no long mode), when b holds the same value as a
  and z is zero, PUNPCKLBW of a and PUNPCKHBW of b with z and then PACKUSWB of a with b restore a, and
  no register but b is changed.\<close>

theorem unpack_pack_instructions:
  assumes "CPUID_SSE2 fl" "length (xmm s) = 16 \<or> length (xmm s) = 8"
    and "a < length (xmm s)" "b < length (xmm s)" "z < length (xmm s)" "a \<noteq> b" "a \<noteq> z" "b \<noteq> z"
    and "xmm s ! b = xmm s ! a" "xmm s ! z = 0"
  shows "\<exists>s'. simd_run fl
      [xmm_instr 0x160 Opcode66Prefix a z, xmm_instr 0x168 Opcode66Prefix b z,
       xmm_instr 0x167 Opcode66Prefix a b] s = Some s'
    \<and> xmm s' ! a = xmm s ! a \<and> (\<forall>j. xmm s' ! j = xmm s ! j \<or> j = b) \<and> mm s' = mm s"
proof -
  have "a < 16" "b < 16" "z < 16" "sse_regs fl" using assms(1-5) by (auto simp: sse_regs_def)
  then show ?thesis
    using assms unpack_pack [where 'r = 128, of "xmm s ! a"]
    by (simp add: simd_run_xmm [OF decode_unpack_pack(1)] simd_run_xmm [OF decode_unpack_pack(2)]
        simd_run_xmm [OF decode_unpack_pack(3)] nth_list_update)
qed

theorem unpack_pack_instructions_witness:
  "\<exists>s'. simd_run
      \<lparr>CPUID_X87 = True, CPUID_MMX = True, CPUID_3DNOW = False, CPUID_SSE = True, CPUID_SSE2 = True,
       CPUID_SSE3 = False, CPUID_SSSE3 = False, CPUID_SSE41 = False, SIMD_NO_UD = False\<rparr>
      [xmm_instr 0x160 Opcode66Prefix 9 2, xmm_instr 0x168 Opcode66Prefix 1 2,
       xmm_instr 0x167 Opcode66Prefix 9 1]
      \<lparr>mm = replicate 8 0, xmm = (replicate 16 0)[9 := 0x0102FEFF, 1 := 0x0102FEFF], rex_bits = 0\<rparr> = Some s'
    \<and> xmm s' ! 9 = 0x0102FEFF"
  using unpack_pack_instructions [of
      "\<lparr>CPUID_X87 = True, CPUID_MMX = True, CPUID_3DNOW = False, CPUID_SSE = True, CPUID_SSE2 = True,
       CPUID_SSE3 = False, CPUID_SSSE3 = False, CPUID_SSE41 = False, SIMD_NO_UD = False\<rparr>"
      "\<lparr>mm = replicate 8 0, xmm = (replicate 16 0)[9 := 0x0102FEFF, 1 := 0x0102FEFF], rex_bits = 0\<rparr>" 9 1 2]
  by simp metis

text \<open>The 8-byte form of the first unpacking does nothing, so MMX code has no such sequence.\<close>

lemma PUNPCKLBW_mmx_not_executed:
  "CPUID_MMX fl \<Longrightarrow> simd_step fl 0x160 OpcodeNoPrefix r m s = Some Not_executed"
  by (simp add: simd_step_def decode_simps)

section \<open>The two forms of an instruction\<close>

definition vertical_rows :: "nat list" where
  "vertical_rows =
     [0x164, 0x165, 0x166, 0x174, 0x175, 0x176, 0x1D4, 0x1D5, 0x1D9, 0x1DA, 0x1DB, 0x1DC, 0x1DD,
      0x1DE, 0x1DF, 0x1E0, 0x1E3, 0x1E4, 0x1E5, 0x1E9, 0x1EA, 0x1EB, 0x1EC, 0x1ED, 0x1EE, 0x1EF,
      0x1F9, 0x1FA, 0x1FB, 0x1FC, 0x1FD, 0x1FE, 0x208, 0x209, 0x20A, 0x21C, 0x21D, 0x21E]"

lemmas lane_op_defs =
  PCMPGT_def PCMPEQ_def PADD_def PMULL_def PADDS_u_def PADDS_s_def PMIN_u_def PMIN_s_def
  PMAX_u_def PMAX_s_def PAND_def PANDN_def POR_def PXOR_def PAVG_def PMULH_u_def PMULH_s_def
  PSIGN_def PABS_def

definition halves :: "(u64 \<Rightarrow> u64 \<Rightarrow> u64) \<Rightarrow> (u128 \<Rightarrow> u128 \<Rightarrow> u128) \<Rightarrow> bool" where
  "halves f k \<longleftrightarrow> (\<forall>a b c d. k (pair128 a b) (pair128 c d) = pair128 (f a c) (f b d))"

fun row_agrees :: "simd_instr \<Rightarrow> simd_instr \<Rightarrow> bool" where
  "row_agrees (RM_MM g f) (RM_XX h k) = halves f k"
| "row_agrees _ _ = True"

lemma halves_on_lanes [simp]:
  "LENGTH('a) dvd 64 \<Longrightarrow>
    halves (on_lanes (map2 (f :: 'a::len word \<Rightarrow> 'a word \<Rightarrow> 'a word))) (on_lanes (map2 f))"
  by (simp add: halves_def on_lanes_map2_pair128)

lemma halves_on_src [simp]:
  "LENGTH('a) dvd 64 \<Longrightarrow>
    halves (on_src (map (f :: 'a::len word \<Rightarrow> 'a word))) (on_src (map f))"
  by (simp add: halves_def on_src_map_pair128)

lemma vertical_rows_agree:
  "list_all (\<lambda>(op, row). op \<in> set vertical_rows \<longrightarrow> row_agrees (row OpcodeNoPrefix) (row Opcode66Prefix))
     simd_table"
  unfolding simd_table_def list_all_append simd_rows vertical_rows_def
  by (intro conjI)
    (simp_all add: simd_case_def simd_pair_def simd_66_def simd_empty_def simd_bodies lane_op_defs)

text \<open>C24: The two forms of an instruction agree: for every row that works lane by lane, the
  16-byte form decoded for it computes on each half of a register what the 8-byte form computes
  on that half.  The rows where one form adds and the other subtracts are not among them.\<close>

theorem forms_agree:
  assumes "op \<in> set vertical_rows"
    and "simd_decode fl op OpcodeNoPrefix = Some (RM_MM g f)"
    and "simd_decode fl op Opcode66Prefix = Some (RM_XX h k)"
  shows "k (pair128 a b) (pair128 c d) = pair128 (f a c) (f b d)"
proof -
  obtain row where row: "map_of simd_table op = Some row"
      "row OpcodeNoPrefix = RM_MM g f" "row Opcode66Prefix = RM_XX h k"
    using assms(2,3) by (auto simp: simd_decode_def split: if_splits)
  have "row_agrees (row OpcodeNoPrefix) (row Opcode66Prefix)"
    using vertical_rows_agree map_of_SomeD [OF row(1)] assms(1) by (fastforce simp: list_all_iff)
  then show ?thesis
    by (simp add: row halves_def)
qed

theorem forms_agree_witness:
  "\<exists>fl g f h k. simd_decode fl 0x1FC OpcodeNoPrefix = Some (RM_MM g f)
    \<and> simd_decode fl 0x1FC Opcode66Prefix = Some (RM_XX h k)
    \<and> k (pair128 1 2) (pair128 3 4) = pair128 (f 1 3) (f 2 4)"
proof -
  have d: "simd_decode fl 0x1FC OpcodeNoPrefix = Some (RM_MM CPUID_MMX (on_lanes (PADD :: 8 op2)))"
    "simd_decode fl 0x1FC Opcode66Prefix = Some (RM_XX CPUID_SSE2 (on_lanes (PADD :: 8 op2)))"
    for fl by (simp_all add: decode_simps)
  show ?thesis
    using forms_agree [OF _ d, of 1 2 3 4] d unfolding vertical_rows_def by fastforce
qed

section \<open>What an instruction can change\<close>

lemma exec_simd_changes:
  assumes "exec_simd fl r m s i = Done s' out"
  shows "(\<exists>j v. s' = s\<lparr>mm := (mm s)[j := v]\<rparr> \<and> (j = r \<or> m = RegM j) \<and> out = None)
    \<or> (\<exists>j v. s' = s\<lparr>xmm := (xmm s)[j := v]\<rparr> \<and> (j = xmm_regR s r \<or> (\<exists>i. m = RegM i \<and> j = xmm_regMB s i)) \<and> out = None)
    \<or> s' = s \<and> (\<exists>bs w. m = MemM bs \<and> out = Some w \<and> (length w = 8 \<or> length w = 16))"
  using assms
  by (cases i) (auto simp: binopRM_MM_def binopMR_MM_def binopRM_XX_def binopMR_XX_def binopRM_MX_def
      Let_def split: if_splits simd_operand.splits)

text \<open>C26: What an instruction that is executed can change: either it writes one register of one of
  the two files, one that the ModRM byte (for the wide registers with the bits of the REX prefix)
  names, and everything else, the other operand and the other file included, stays as it was; or it
  changes no register and stores 8 or 16 bytes to its memory operand.\<close>

theorem simd_step_type:
  assumes "simd_step fl op p r m s = Some (Done s' out)"
  shows "(\<exists>j v. s' = s\<lparr>mm := (mm s)[j := v]\<rparr> \<and> (j = r \<or> m = RegM j) \<and> out = None)
    \<or> (\<exists>j v. s' = s\<lparr>xmm := (xmm s)[j := v]\<rparr> \<and> (j = xmm_regR s r \<or> (\<exists>i. m = RegM i \<and> j = xmm_regMB s i)) \<and> out = None)
    \<or> s' = s \<and> (\<exists>bs w. m = MemM bs \<and> out = Some w \<and> (length w = 8 \<or> length w = 16))"
proof -
  obtain i where "exec_simd fl r m s i = Done s' out"
    using assms by (auto simp: simd_step_def)
  then show ?thesis by (rule exec_simd_changes)
qed

theorem simd_step_type_witness:
  "\<exists>s' j v. simd_step
      \<lparr>CPUID_X87 = True, CPUID_MMX = True, CPUID_3DNOW = False, CPUID_SSE = False,
       CPUID_SSE2 = False, CPUID_SSE3 = False, CPUID_SSSE3 = False, CPUID_SSE41 = False, SIMD_NO_UD = False\<rparr>
      0x1FC OpcodeNoPrefix 0 (RegM 1) \<lparr>mm = [0xFF01, 0x0102, 5, 6, 0, 0, 0, 0], xmm = [], rex_bits = 0\<rparr>
        = Some (Done s' None)
    \<and> xmm s' = [] \<and> mm s' = [0xFF01, 0x0102, 5, 6, 0, 0, 0, 0][j := v] \<and> j \<le> 1"
proof -
  let ?fl = "\<lparr>CPUID_X87 = True, CPUID_MMX = True, CPUID_3DNOW = False, CPUID_SSE = False,
       CPUID_SSE2 = False, CPUID_SSE3 = False, CPUID_SSSE3 = False, CPUID_SSE41 = False, SIMD_NO_UD = False\<rparr>"
  let ?s = "\<lparr>mm = [0xFF01, 0x0102, 5, 6, 0, 0, 0, 0], xmm = [], rex_bits = 0\<rparr>"
  have "\<exists>s'. simd_step ?fl 0x1FC OpcodeNoPrefix 0 (RegM 1) ?s = Some (Done s' None) \<and> mm s' \<noteq> mm ?s"
    by (simp add: simd_step_def decode_simps mmx_regs_def binopRM_MM_def read_mm_def) code_simp
  then obtain s' where s': "simd_step ?fl 0x1FC OpcodeNoPrefix 0 (RegM 1) ?s = Some (Done s' None)"
      "mm s' \<noteq> mm ?s" by blast
  from simd_step_type [OF s'(1)] s'(2) obtain j v where "s' = ?s\<lparr>mm := (mm ?s)[j := v]\<rparr>" "j = 0 \<or> j = 1"
    by auto
  then show ?thesis using s'(1) by (intro exI [of _ s'] exI [of _ j] exI [of _ v]) auto
qed

section \<open>Arithmetic\<close>

text \<open>C25: The high and the low halves of the packed products are exact: PMULHW and PMULLW
  together give the signed product of the lanes, PMULHUW and PMULLW the unsigned one, for all
  lanes.\<close>

theorem product_lanes:
  assumes "length ds = length ss" "i < length ds"
  shows "sint (PMULH_s TYPE(32) ds ss ! i) * 2 ^ 16 + uint (PMULL ds ss ! i)
           = sint (ds ! i :: 16 word) * sint (ss ! i)
    \<and> uint (PMULH_u TYPE(32) ds ss ! i) * 2 ^ 16 + uint (PMULL ds ss ! i)
           = uint (ds ! i :: 16 word) * uint (ss ! i)"
  using assms product_s [where 'a = 16 and 't = 32, of "ds ! i" "ss ! i"]
    product_u [where 'a = 16 and 't = 32, of "ds ! i" "ss ! i"]
  by (simp_all add: PMULH_s_def PMULH_u_def PMULL_def)

theorem product_lanes_witness:
  "sint (PMULH_s TYPE(32) [0x8001, 2] [3, 0xFFFF :: 16 word] ! 0) * 2 ^ 16
      + uint (PMULL [0x8001, 2] [3, 0xFFFF :: 16 word] ! 0) = sint (0x8001 :: 16 word) * sint (3 :: 16 word)"
  using product_lanes [of "[0x8001, 2]" "[3, 0xFFFF]" 0] by simp

text \<open>PMADDWD is exact but for the one quadruple of lanes whose sum does not fit, where it
  gives the smallest number; the average rounds up.\<close>

theorem PMADD_lanes:
  assumes "length ds = length ss" "i < length ds div 2"
  shows "sint (PMADD ds ss ! i :: 32 word) =
    (if {ds ! (2 * i), ss ! (2 * i), ds ! (2 * i + 1), ss ! (2 * i + 1)} = {0x8000 :: 16 word}
     then - (2 ^ 31)
     else sint (ds ! (2 * i)) * sint (ss ! (2 * i)) + sint (ds ! (2 * i + 1)) * sint (ss ! (2 * i + 1)))"
  using assms madd_16 [of "ds ! (2 * i)" "ss ! (2 * i)" "ds ! (2 * i + 1)" "ss ! (2 * i + 1)"]
  by (auto simp: PMADD_def Let_def)

theorem PMADD_lanes_witness:
  "sint (PMADD [0x8000, 0x8000, 2, 0xFFFF] [0x8000, 0x8000, 3, 5 :: 16 word] ! 0 :: 32 word) = - (2 ^ 31)
    \<and> sint (PMADD [0x8000, 0x8000, 2, 0xFFFF] [0x8000, 0x8000, 3, 5 :: 16 word] ! 1 :: 32 word) = 1"
  using PMADD_lanes [of "[0x8000, 0x8000, 2, 0xFFFF]" "[0x8000, 0x8000, 3, 5]" 0]
    PMADD_lanes [of "[0x8000, 0x8000, 2, 0xFFFF]" "[0x8000, 0x8000, 3, 5]" 1] by auto

theorem PAVG_lanes:
  assumes "length ds = length ss" "i < length ds"
  shows "uint (PAVG TYPE(16) ds ss ! i) = (uint (ds ! i :: 8 word) + uint (ss ! i) + 1) div 2"
  using assms uint_avg [where 'a = 8 and 't = 16, of "ds ! i" "ss ! i"]
  by (simp add: PAVG_def)

theorem PAVG_lanes_witness:
  "uint (PAVG TYPE(16) [255, 3] [255, 4 :: 8 word] ! 0) = 255
    \<and> uint (PAVG TYPE(16) [255, 3] [255, 4 :: 8 word] ! 1) = 4"
  using PAVG_lanes [of "[255, 3]" "[255, 4]" 0] PAVG_lanes [of "[255, 3]" "[255, 4]" 1] by simp

text \<open>The saturating lanes are the portable saturating arithmetic of
  \<^verbatim>\<open>custom_intrin.h\<close>, at every width and signedness.\<close>

theorem saturated_lanes:
  "PADDS_u = (map2 saturate_add_u :: 'a::len word list \<Rightarrow> _) \<and>
   PADDS_s = (map2 saturate_add_s :: 'a word list \<Rightarrow> _) \<and>
   PSUBS_u = (map2 saturate_sub_u :: 'a word list \<Rightarrow> _) \<and>
   PSUBS_s = (map2 saturate_sub_s :: 'a word list \<Rightarrow> _)"
  by (simp add: PADDS_u_def PADDS_s_def PSUBS_u_def PSUBS_s_def add_sat_u_saturate
      add_sat_s_saturate sub_sat_u_saturate sub_sat_s_saturate)

section \<open>Rows that run another operation than their name\<close>

lemma subtractions_that_add:
  "simd_step fl 0x1F8 Opcode66Prefix r m s = simd_step fl 0x1FC Opcode66Prefix r m s"
  "simd_step fl 0x1F9 p r m s = simd_step fl 0x1FD p r m s"
  "simd_step fl 0x1FA p r m s = simd_step fl 0x1FE p r m s"
  "simd_step fl 0x1FB p r m s = simd_step fl 0x1D4 p r m s"
  "simd_step fl 0x1D8 Opcode66Prefix r m s = simd_step fl 0x1DC Opcode66Prefix r m s"
  "simd_step fl 0x1D9 p r m s = simd_step fl 0x1DD p r m s"
  "simd_step fl 0x1E8 Opcode66Prefix r m s = simd_step fl 0x1EC Opcode66Prefix r m s"
  "simd_step fl 0x1E9 p r m s = simd_step fl 0x1ED p r m s"
  by (simp_all add: simd_step_def decode_simps)

lemma minimum_is_maximum:
  "PMIN_u = (PMAX_u :: 'a::len word list \<Rightarrow> _)" "PMIN_s = (PMAX_s :: 'a word list \<Rightarrow> _)"
  by (simp_all add: PMIN_u_def PMAX_u_def PMIN_s_def PMAX_s_def)

lemma PSAD_half_of_the_bytes:
  "on_lanes (PSAD :: 8 word list \<Rightarrow> 8 word list \<Rightarrow> 16 word list) (- 1) (0 :: u64) = 4"
  by code_simp

end
