(* ===== verification/Sha256.thy ===== *)
theory Sha256
  imports Z86_Memory
begin

text \<open>
  The hash of \<^verbatim>\<open>src/sha256_thcrap.cpp\<close> and the one of \<^verbatim>\<open>src/sha256_new.cpp\<close> that the latter file
  calls correct.  The first section is the standard, FIPS 180-4, written without regard to
  the code; the sections after it follow the code.  What the code leaves open is an argument:
  \<open>junk\<close> is the content of the context's buffer before anything is stored in it, \<open>sz\<close> the
  number of bits of \<^verbatim>\<open>size_t\<close> (the build makes 32 bit and 64 bit programs).
\<close>

section \<open>The standard\<close>

definition Ch :: "u32 \<Rightarrow> u32 \<Rightarrow> u32 \<Rightarrow> u32" where
  "Ch x y z = (x AND y) XOR (NOT x AND z)"

definition Maj :: "u32 \<Rightarrow> u32 \<Rightarrow> u32 \<Rightarrow> u32" where
  "Maj x y z = (x AND y) XOR (x AND z) XOR (y AND z)"

definition Sum0 :: "u32 \<Rightarrow> u32" where
  "Sum0 x = word_rotr 2 x XOR word_rotr 13 x XOR word_rotr 22 x"

definition Sum1 :: "u32 \<Rightarrow> u32" where
  "Sum1 x = word_rotr 6 x XOR word_rotr 11 x XOR word_rotr 25 x"

definition sigma0 :: "u32 \<Rightarrow> u32" where
  "sigma0 x = word_rotr 7 x XOR word_rotr 18 x XOR drop_bit 3 x"

definition sigma1 :: "u32 \<Rightarrow> u32" where
  "sigma1 x = word_rotr 17 x XOR word_rotr 19 x XOR drop_bit 10 x"

text \<open>Words and lengths are big-endian in the standard.\<close>

definition be_word :: "u8 list \<Rightarrow> u32" where
  "be_word bs = fold (\<lambda>b w. push_bit 8 w OR ucast b) bs 0"

definition be_bytes :: "nat \<Rightarrow> 'a::len word \<Rightarrow> u8 list" where
  "be_bytes n w = rev (word_to_le n w)"

text \<open>Section 5: the padding, a one bit, the fewest zeros, the length in bits.\<close>

definition zero_bytes :: "nat \<Rightarrow> nat" where
  "zero_bytes len = (119 - len mod 64) mod 64"

definition pad :: "u8 list \<Rightarrow> u8 list" where
  "pad m = m @ [0x80] @ replicate (zero_bytes (length m)) 0 @ be_bytes 8 (word_of_nat (8 * length m) :: u64)"

function blocks_of :: "u8 list \<Rightarrow> u8 list list" where
  "blocks_of bs = (if length bs < 64 then [] else take 64 bs # blocks_of (drop 64 bs))"
  by auto
termination by (relation "measure length") auto

declare blocks_of.simps [simp del]

definition block_words :: "u8 list \<Rightarrow> u32 list" where
  "block_words b = map (\<lambda>i. be_word (take 4 (drop (4 * i) b))) [0..<16]"

text \<open>Section 6: the message schedule, the 64 steps, the sum with the chaining value.\<close>

fun W :: "u32 list \<Rightarrow> nat \<Rightarrow> u32" where
  "W M t =
     (if t < 16 then M ! t
      else sigma1 (W M (t - 2)) + W M (t - 7) + sigma0 (W M (t - 15)) + W M (t - 16))"

declare W.simps [simp del]

datatype regs8 = Regs8 u32 u32 u32 u32 u32 u32 u32 u32

fun sha_step :: "u32 \<Rightarrow> u32 \<Rightarrow> regs8 \<Rightarrow> regs8" where
  "sha_step kt wt (Regs8 a b c d e f g h) =
     (let T1 = h + Sum1 e + Ch e f g + kt + wt; T2 = Sum0 a + Maj a b c
      in Regs8 (T1 + T2) a b c (d + T1) e f g)"

fun regs_of :: "u32 list \<Rightarrow> regs8" where
  "regs_of [a, b, c, d, e, f, g, h] = Regs8 a b c d e f g h"
| "regs_of _ = Regs8 0 0 0 0 0 0 0 0"

fun words_of :: "regs8 \<Rightarrow> u32 list" where
  "words_of (Regs8 a b c d e f g h) = [a, b, c, d, e, f, g, h]"

definition k_table :: "u32 list" where
  "k_table = concat [
    [0x428a2f98, 0x71374491, 0xb5c0fbcf, 0xe9b5dba5, 0x3956c25b, 0x59f111f1, 0x923f82a4, 0xab1c5ed5],
    [0xd807aa98, 0x12835b01, 0x243185be, 0x550c7dc3, 0x72be5d74, 0x80deb1fe, 0x9bdc06a7, 0xc19bf174],
    [0xe49b69c1, 0xefbe4786, 0x0fc19dc6, 0x240ca1cc, 0x2de92c6f, 0x4a7484aa, 0x5cb0a9dc, 0x76f988da],
    [0x983e5152, 0xa831c66d, 0xb00327c8, 0xbf597fc7, 0xc6e00bf3, 0xd5a79147, 0x06ca6351, 0x14292967],
    [0x27b70a85, 0x2e1b2138, 0x4d2c6dfc, 0x53380d13, 0x650a7354, 0x766a0abb, 0x81c2c92e, 0x92722c85],
    [0xa2bfe8a1, 0xa81a664b, 0xc24b8b70, 0xc76c51a3, 0xd192e819, 0xd6990624, 0xf40e3585, 0x106aa070],
    [0x19a4c116, 0x1e376c08, 0x2748774c, 0x34b0bcb5, 0x391c0cb3, 0x4ed8aa4a, 0x5b9cca4f, 0x682e6ff3],
    [0x748f82ee, 0x78a5636f, 0x84c87814, 0x8cc70208, 0x90befffa, 0xa4506ceb, 0xbef9a3f7, 0xc67178f2]]"

definition initial_state :: "u32 list" where
  "initial_state = [0x6A09E667, 0xBB67AE85, 0x3C6EF372, 0xA54FF53A,
                    0x510E527f, 0x9B05688C, 0x1F83D9AB, 0x5BE0CD19]"

definition steps64 :: "u32 list \<Rightarrow> regs8 \<Rightarrow> regs8" where
  "steps64 M = fold (\<lambda>t. sha_step (k_table ! t) (W M t)) [0..<64]"

definition compress :: "u32 list \<Rightarrow> u8 list \<Rightarrow> u32 list" where
  "compress H b = map2 (+) H (words_of (steps64 (block_words b) (regs_of H)))"

definition sha_words :: "u8 list \<Rightarrow> u32 list" where
  "sha_words m = fold (\<lambda>b H. compress H b) (blocks_of (pad m)) initial_state"

definition sha256 :: "u8 list \<Rightarrow> u8 list" where
  "sha256 m = concat (map (be_bytes 4) (sha_words m))"

section \<open>The constants\<close>

text \<open>
  The standard gives the constants as the first 32 bits of the fractional parts of the cube
  roots of the first 64 primes and of the square roots of the first eight.  An integer \<open>r\<close>
  with \<open>r ^ 3 \<le> p * 2 ^ 96 < (r + 1) ^ 3\<close> is the cube root of \<open>p\<close> with 32 binary places.
\<close>

definition small_primes :: "nat list" where
  "small_primes = filter (\<lambda>p. list_all (\<lambda>d. d = p \<or> p mod d \<noteq> 0) [2..<18]) [2..<312]"

definition root_places :: "nat \<Rightarrow> nat \<Rightarrow> u32 \<Rightarrow> bool" where
  "root_places e p c =
     list_ex (\<lambda>q. let r = q * 2 ^ 32 + unat c in r ^ e \<le> p * 2 ^ (32 * e) \<and> p * 2 ^ (32 * e) < (r + 1) ^ e) [1..<7]"

section \<open>The functions of the code\<close>

definition bswap_32 :: "u32 \<Rightarrow> u32" where
  "bswap_32 x =
     drop_bit 24 (x AND 0xff000000) OR drop_bit 8 (x AND 0x00ff0000) OR
     push_bit 8 (x AND 0x0000ff00) OR push_bit 24 (x AND 0x000000ff)"

definition ROTRIGHT :: "u32 \<Rightarrow> nat \<Rightarrow> u32" where
  "ROTRIGHT a b = drop_bit b a OR push_bit (32 - b) a"

definition CH :: "u32 \<Rightarrow> u32 \<Rightarrow> u32 \<Rightarrow> u32" where
  "CH x y z = (x AND y) XOR (NOT x AND z)"

definition MAJ :: "u32 \<Rightarrow> u32 \<Rightarrow> u32 \<Rightarrow> u32" where
  "MAJ x y z = (x AND y) XOR (x AND z) XOR (y AND z)"

definition EP0 :: "u32 \<Rightarrow> u32" where
  "EP0 x = ROTRIGHT x 2 XOR ROTRIGHT x 13 XOR ROTRIGHT x 22"

definition EP1 :: "u32 \<Rightarrow> u32" where
  "EP1 x = ROTRIGHT x 6 XOR ROTRIGHT x 11 XOR ROTRIGHT x 25"

definition SIG0 :: "u32 \<Rightarrow> u32" where
  "SIG0 x = ROTRIGHT x 7 XOR ROTRIGHT x 18 XOR drop_bit 3 x"

definition SIG1 :: "u32 \<Rightarrow> u32" where
  "SIG1 x = ROTRIGHT x 17 XOR ROTRIGHT x 19 XOR drop_bit 10 x"

record SHA256_CTX =
  data :: "u8 list"
  datalen :: u32
  bitlen :: u64
  state :: "u32 list"

definition data_uint :: "u8 list \<Rightarrow> nat \<Rightarrow> u32" where
  "data_uint d i = le_to_word (take 4 (drop (4 * i) d))"

definition set_data_uint :: "u8 list \<Rightarrow> nat \<Rightarrow> u32 \<Rightarrow> u8 list" where
  "set_data_uint d i v = take (4 * i) d @ word_to_le 4 v @ drop (4 * i + 4) d"

definition extend_schedule :: "u32 list \<Rightarrow> u32 list" where
  "extend_schedule =
     fold (\<lambda>i m. m @ [SIG1 (m ! (i - 2)) + m ! (i - 7) + SIG0 (m ! (i - 15)) + m ! (i - 16)]) [16..<64]"

definition schedule :: "u8 list \<Rightarrow> u32 list" where
  "schedule d = extend_schedule (map (\<lambda>i. bswap_32 (data_uint d i)) [0..<16])"

fun transform_round :: "u32 list \<Rightarrow> nat \<Rightarrow> regs8 \<Rightarrow> regs8" where
  "transform_round m i (Regs8 a b c d e f g h) =
     (let t1 = h + EP1 e + CH e f g + k_table ! i + m ! i;
          t2 = EP0 a + MAJ a b c;
          h = g; g = f; f = e; e = d + t1; d = c; c = b; b = a; a = t1 + t2
      in Regs8 a b c d e f g h)"

definition sha256_transform :: "SHA256_CTX \<Rightarrow> SHA256_CTX" where
  "sha256_transform ctx =
     (let m = schedule (data ctx);
          s = state ctx;
          r = fold (transform_round m) [0..<64] (Regs8 (s ! 0) (s ! 1) (s ! 2) (s ! 3) (s ! 4) (s ! 5) (s ! 6) (s ! 7))
      in case r of Regs8 a b c d e f g h \<Rightarrow>
        ctx\<lparr>state := [s ! 0 + a, s ! 1 + b, s ! 2 + c, s ! 3 + d, s ! 4 + e, s ! 5 + f, s ! 6 + g, s ! 7 + h]\<rparr>)"

definition sha256_init :: "SHA256_CTX \<Rightarrow> SHA256_CTX" where
  "sha256_init ctx = ctx\<lparr>datalen := 0, bitlen := 0, state := initial_state\<rparr>"

fun update_blocks :: "nat \<Rightarrow> u8 list \<Rightarrow> SHA256_CTX \<Rightarrow> u8 list \<times> SHA256_CTX" where
  "update_blocks 0 d ctx = (d, ctx)"
| "update_blocks (Suc n) d ctx = update_blocks n (drop 64 d) (sha256_transform (ctx\<lparr>data := take 64 d\<rparr>))"

definition absorb :: "nat \<Rightarrow> u8 list \<Rightarrow> nat \<Rightarrow> SHA256_CTX \<Rightarrow> SHA256_CTX" where
  "absorb sz d len ctx =
     (let blocks = len div 64;
          ctx = ctx\<lparr>datalen := word_of_nat (len mod 64), bitlen := word_of_nat (blocks * 512 mod 2 ^ sz)\<rparr>;
          (d, ctx) = update_blocks blocks d ctx
      in if datalen ctx \<noteq> 0
         then ctx\<lparr>data := take (unat (datalen ctx)) d @ drop (unat (datalen ctx)) (data ctx)\<rparr> else ctx)"

definition sha256_update :: "nat \<Rightarrow> u8 list \<Rightarrow> u32 \<Rightarrow> SHA256_CTX \<Rightarrow> SHA256_CTX" where
  "sha256_update sz d len ctx = absorb sz d (unat len) ctx"

definition sha256_final :: "SHA256_CTX \<Rightarrow> SHA256_CTX" where
  "sha256_final ctx =
     (let n = unat (datalen ctx);
          ctx = ctx\<lparr>data := fold (\<lambda>i d. d[i := 0]) [Suc n..<64] ((data ctx)[n := 0x80])\<rparr>;
          ctx = (if \<not> n < 56 then (sha256_transform ctx)\<lparr>data := replicate 64 0\<rparr> else ctx);
          ctx = ctx\<lparr>bitlen := bitlen ctx + ucast (datalen ctx * 8)\<rparr>;
          ctx = ctx\<lparr>data := set_data_uint (data ctx) 15 (bswap_32 (ucast (bitlen ctx)))\<rparr>;
          ctx = ctx\<lparr>data := set_data_uint (data ctx) 14 (bswap_32 (ucast (drop_bit 32 (bitlen ctx))))\<rparr>;
          ctx = sha256_transform ctx
      in ctx\<lparr>state := map bswap_32 (state ctx)\<rparr>)"

definition sha256_calc :: "nat \<Rightarrow> SHA256_CTX \<Rightarrow> u8 list \<Rightarrow> u32 list" where
  "sha256_calc sz junk d = state (sha256_final (absorb sz d (length d) (junk\<lparr>state := initial_state\<rparr>)))"

definition hash_bytes :: "u32 list \<Rightarrow> u8 list" where
  "hash_bytes ws = concat (map (word_to_le 4) ws)"

lemma small_primes_eq: "small_primes = [2, 3, 5, 7, 11, 13, 17, 19, 23, 29, 31, 37, 41, 43, 47, 53, 59, 61, 67, 71, 73, 79, 83, 89, 97, 101, 103, 107, 109, 113, 127, 131, 137, 139, 149, 151, 157, 163, 167, 173, 179, 181, 191, 193, 197, 199, 211, 223, 227, 229, 233, 239, 241, 251, 257, 263, 269, 271, 277, 281, 283, 293, 307, 311]"
  by (simp add: small_primes_def upt_rec)

text \<open>C33: The tables of the program are the standard's constants: the round constants are the
  first 32 bits of the fractional parts of the cube roots of the first 64 primes, the initial
  chaining value those of the square roots of the first eight.  None of the 72 numbers is
  mistyped.\<close>

theorem constants_are_roots:
  "list_all2 (root_places 3) small_primes k_table \<and> list_all2 (root_places 2) (take 8 small_primes) initial_state"
proof
  show "list_all2 (root_places 3) small_primes k_table"
    unfolding small_primes_eq k_table_def
    by (simp add: root_places_def Let_def upt_rec)
  show "list_all2 (root_places 2) (take 8 small_primes) initial_state"
    unfolding small_primes_eq initial_state_def
    by (simp add: root_places_def Let_def upt_rec)
qed

section \<open>The functions agree with the standard\<close>

lemma ROTRIGHT_rotr: "0 < n \<Longrightarrow> n < 32 \<Longrightarrow> ROTRIGHT x n = word_rotr n x"
proof (rule bit_word_eqI)
  fix i assume n: "0 < n" "n < 32" and "i < LENGTH(32)"
  then have i: "i < 32" by simp
  show "bit (ROTRIGHT x n) i = bit (word_rotr n x) i"
  proof (cases "i + n < 32")
    case True
    with n i show ?thesis
      by (auto simp: ROTRIGHT_def bit_or_iff bit_drop_bit_eq bit_push_bit_iff bit_word_rotr_iff add.commute)
  next
    case False
    with n i have "(i + n) mod 32 = i - (32 - n)" by (simp add: mod_if)
    with False n i show ?thesis
      by (auto simp: ROTRIGHT_def bit_or_iff bit_drop_bit_eq bit_push_bit_iff bit_word_rotr_iff add.commute
            dest: bit_imp_le_length)
  qed
qed

lemmas sha_functions = EP0_def EP1_def SIG0_def SIG1_def Sum0_def Sum1_def sigma0_def sigma1_def
  CH_def Ch_def MAJ_def Maj_def ROTRIGHT_rotr

lemma code_functions [simp]:
  "EP0 = Sum0" "EP1 = Sum1" "SIG0 = sigma0" "SIG1 = sigma1" "CH = Ch" "MAJ = Maj"
  by (simp_all add: fun_eq_iff sha_functions)

lemma bswap_masks:
  "(0xff000000 :: u32) = push_bit 24 (mask 8)" "(0x00ff0000 :: u32) = push_bit 16 (mask 8)"
  "(0x0000ff00 :: u32) = push_bit 8 (mask 8)" "(0x000000ff :: u32) = mask 8"
  by (simp_all add: mask_eq_exp_minus_1)

lemma bit_bswap_32:
  "bit (bswap_32 x) n \<longleftrightarrow>
     (if n < 8 then bit x (n + 24) else if n < 16 then bit x (n + 8)
      else if n < 24 then bit x (n - 8) else n < 32 \<and> bit x (n - 24))"
  unfolding bswap_32_def bswap_masks
  by (auto simp: bit_or_iff bit_and_iff bit_drop_bit_eq bit_push_bit_iff bit_mask_iff add.commute dest: bit_imp_le_length)

lemma byte_bswap_32:
  fixes x :: u32
  shows "(ucast (bswap_32 x) :: u8) = ucast (drop_bit 24 x)"
    "(ucast (drop_bit 8 (bswap_32 x)) :: u8) = ucast (drop_bit 16 x)"
    "(ucast (drop_bit 16 (bswap_32 x)) :: u8) = ucast (drop_bit 8 x)"
    "(ucast (drop_bit 24 (bswap_32 x)) :: u8) = ucast x"
  by (rule bit_word_eqI; simp add: bit_ucast_word bit_drop_bit_eq bit_bswap_32 add.commute)+

lemma word_to_le_bswap: "word_to_le 4 (bswap_32 w) = be_bytes 4 w"
  by (simp add: be_bytes_def word_to_le_def upt_rec byte_bswap_32)

lemma bit_be_word:
  "bit (be_word [a, b, c, d]) n \<longleftrightarrow>
     (if n < 8 then bit d n else if n < 16 then bit c (n - 8)
      else if n < 24 then bit b (n - 16) else n < 32 \<and> bit a (n - 24))"
  by (auto simp: be_word_def bit_or_iff bit_push_bit_iff bit_ucast_word dest: bit_imp_le_length)

lemma bswap_32_le: "bswap_32 (le_to_word [a, b, c, d]) = be_word [a, b, c, d]"
  by (rule bit_word_eqI)
    (auto simp: bit_bswap_32 bit_be_word bit_or_iff bit_push_bit_iff bit_ucast_word  dest: bit_imp_le_length)

lemma list_4: "length xs = 4 \<Longrightarrow> xs = [xs ! 0, xs ! 1, xs ! 2, xs ! 3]"
  by (rule nth_equalityI) (auto simp: less_Suc_eq numeral_eq_Suc)

lemma list_8: "length xs = 8 \<Longrightarrow> xs = [xs ! 0, xs ! 1, xs ! 2, xs ! 3, xs ! 4, xs ! 5, xs ! 6, xs ! 7]"
  by (rule nth_equalityI) (auto simp: less_Suc_eq numeral_eq_Suc)

lemma block_words_code:
  "length d = 64 \<Longrightarrow> map (\<lambda>i. bswap_32 (data_uint d i)) [0..<16] = block_words d"
proof (unfold block_words_def, rule map_cong [OF refl])
  fix i assume "length d = 64" "i \<in> set [0..<16]"
  then have "4 * i + 4 \<le> length d" by simp
  then have "length (take 4 (drop (4 * i) d)) = 4" by simp
  then obtain a b c e where "take 4 (drop (4 * i) d) = [a, b, c, e]" by (blast dest: list_4)
  then show "bswap_32 (data_uint d i) = be_word (take 4 (drop (4 * i) d))"
    by (simp only: data_uint_def bswap_32_le)
qed

lemma schedule_prefix:
  assumes "length M = 16" "16 \<le> n"
  shows "fold (\<lambda>i m. m @ [SIG1 (m ! (i - 2)) + m ! (i - 7) + SIG0 (m ! (i - 15)) + m ! (i - 16)]) [16..<n] M
    = map (W M) [0..<n]"
  using assms(2)
proof (induction n rule: dec_induct)
  case base
  show ?case
    by (rule nth_equalityI) (simp_all add: assms(1) W.simps)
next
  case (step n)
  have "W M n = sigma1 (W M (n - 2)) + W M (n - 7) + sigma0 (W M (n - 15)) + W M (n - 16)"
    using step.hyps by (subst W.simps) simp
  with step show ?case by (simp add: nth_append)
qed

lemma extend_schedule_W: "length M = 16 \<Longrightarrow> extend_schedule M = map (W M) [0..<64]"
  unfolding extend_schedule_def by (rule schedule_prefix) simp_all

lemma schedule_W: "length d = 64 \<Longrightarrow> schedule d = map (W (block_words d)) [0..<64]"
  unfolding schedule_def
  by (subst block_words_code, assumption, rule extend_schedule_W) (simp add: block_words_def)

lemma transform_round_step: "transform_round m i r = sha_step (k_table ! i) (m ! i) r"
  by (cases r) (simp add: Let_def)

lemma transform_compress:
  assumes "length (data ctx) = 64" "length (state ctx) = 8"
  shows "sha256_transform ctx = ctx\<lparr>state := compress (state ctx) (data ctx)\<rparr>"
proof -
  obtain a b c d e f g h where s: "state ctx = [a, b, c, d, e, f, g, h]"
    using list_8 [OF assms(2)] by blast
  have "fold (transform_round (schedule (data ctx))) [0..<64] r = steps64 (block_words (data ctx)) r" for r
    unfolding steps64_def by (rule fold_cong) (auto simp: transform_round_step fun_eq_iff schedule_W [OF assms(1)])
  then show ?thesis
    by (simp add: sha256_transform_def Let_def compress_def s split: regs8.split)
qed

section \<open>The calculation is the standard's\<close>

lemma length_compress [simp]: "length H = 8 \<Longrightarrow> length (compress H b) = 8"
  by (cases "steps64 (block_words b) (regs_of H)") (simp add: compress_def)

lemma length_initial_state [simp]: "length initial_state = 8"
  by (simp add: initial_state_def)

lemma length_fold_compress [simp]:
  "length H = 8 \<Longrightarrow> length (fold (\<lambda>b H. compress H b) bs H) = 8"
  by (induction bs arbitrary: H) simp_all

text \<open>The block loop: it leaves the rest of the input, and the hash of the full blocks.\<close>

lemma blocks_of_Suc:
  "64 \<le> length d \<Longrightarrow> blocks_of d = take 64 d # blocks_of (drop 64 d)"
  "length d < 64 \<Longrightarrow> blocks_of d = []"
  by (subst blocks_of.simps, simp)+

lemma blocks_of_append:
  "length a mod 64 = 0 \<Longrightarrow> blocks_of (a @ b) = blocks_of a @ blocks_of b"
proof (induction a rule: blocks_of.induct)
  case (1 a)
  show ?case
  proof (cases "length a < 64")
    case True
    with 1 have "a = []" by simp
    then show ?thesis by (simp add: blocks_of_Suc)
  next
    case False
    with 1 show ?thesis
      by (simp add: blocks_of_Suc mod_if [of "length a" 64])
  qed
qed

lemma update_blocks_result:
  assumes "64 * n \<le> length d" "length (state ctx) = 8"
  shows "update_blocks n d ctx =
    (drop (64 * n) d,
     ctx\<lparr>data := (if n = 0 then data ctx else take 64 (drop (64 * (n - 1)) d)),
       state := fold (\<lambda>b H. compress H b) (blocks_of (take (64 * n) d)) (state ctx)\<rparr>)"
  using assms
proof (induction n arbitrary: d ctx)
  case 0
  then show ?case by (simp add: blocks_of_Suc)
next
  case (Suc n)
  let ?c = "sha256_transform (ctx\<lparr>data := take 64 d\<rparr>)"
  have c: "?c = ctx\<lparr>data := take 64 d, state := compress (state ctx) (take 64 d)\<rparr>"
    using Suc.prems by (subst transform_compress) simp_all
  have blocks: "blocks_of (take (64 * Suc n) d) = take 64 d # blocks_of (take (64 * n) (drop 64 d))"
    using Suc.prems by (subst blocks_of_Suc(1)) (simp_all add: min_def take_drop add.commute)
  have "64 * n \<le> length (drop 64 d)" "length (state ?c) = 8"
    using Suc.prems by (simp_all add: c)
  note IH = Suc.IH [OF this]
  show ?case
    unfolding blocks by (simp only: update_blocks.simps IH, cases n)
      (simp_all add: c blocks_of_Suc add.commute)
qed


text \<open>The padding the code writes.\<close>

lemma fold_zero_fill:
  assumes "a \<le> b" "b \<le> length xs"
  shows "fold (\<lambda>i d. d[i := z]) [a..<b] xs = take a xs @ replicate (b - a) z @ drop b xs"
  using assms
proof (induction b rule: dec_induct)
  case base
  show ?case by simp
next
  case (step b)
  then have "drop b xs = xs ! b # drop (Suc b) xs" by (simp add: Cons_nth_drop_Suc)
  with step show ?case
    by (simp add: list_update_append Suc_diff_le replicate_append_same flip: replicate_Suc)
qed

lemma zero_fill_final:
  assumes "length d = 64" "n < 64"
  shows "fold (\<lambda>i d. d[i := 0]) [Suc n..<64] (d[n := 0x80]) = take n d @ (0x80 :: u8) # replicate (63 - n) 0"
proof -
  have "take (Suc n) (d[n := 0x80]) = take n d @ [0x80 :: u8]"
    using assms by (simp add: take_Suc_conv_app_nth)
  with assms show ?thesis by (subst fold_zero_fill) simp_all
qed

lemma length_be_bytes [simp]: "length (be_bytes n w) = n"
  by (simp add: be_bytes_def)

lemma be_bytes_8:
  "be_bytes 8 (l :: u64) = be_bytes 4 (ucast (drop_bit 32 l) :: u32) @ be_bytes 4 (ucast l :: u32)"
proof -
  have "(ucast (drop_bit (32 + i) l) :: u8) = ucast (drop_bit i (ucast (drop_bit 32 l) :: u32))"
    "(ucast (drop_bit i l) :: u8) = ucast (drop_bit i (ucast l :: u32))" if "i \<le> 24" for i
    using that by (auto intro!: bit_word_eqI simp: bit_ucast_word bit_drop_bit_eq add.assoc)
  from this [of 0] this [of 8] this [of 16] this [of 24] show ?thesis
    by (simp add: be_bytes_def word_to_le_def upt_rec)
qed

lemma set_length_words:
  assumes "length d = 64"
  shows "set_data_uint (set_data_uint d 15 (bswap_32 (ucast l))) 14 (bswap_32 (ucast (drop_bit 32 l)))
    = take 56 d @ be_bytes 8 (l :: u64)"
  using assms by (simp add: set_data_uint_def word_to_le_bswap be_bytes_8)

definition padding :: "nat \<Rightarrow> u64 \<Rightarrow> u8 list" where
  "padding n l = 0x80 # replicate (zero_bytes n) 0 @ be_bytes 8 l"

lemma blocks_of_one: "length b = 64 \<Longrightarrow> blocks_of b = [b]"
  by (simp add: blocks_of_Suc)

lemma padded_blocks:
  assumes "length r = n" "n < 64"
  shows "blocks_of (r @ padding n l) =
    (if n < 56 then [take 56 (r @ 0x80 # replicate (63 - n) 0) @ be_bytes 8 l]
     else [r @ 0x80 # replicate (63 - n) 0, replicate 56 0 @ be_bytes 8 l])"
proof (cases "n < 56")
  case True
  then have "zero_bytes n = 55 - n" by (simp add: zero_bytes_def mod_if)
  then have "r @ padding n l = take 56 (r @ 0x80 # replicate (63 - n) 0) @ be_bytes 8 l"
    using assms True by (simp add: padding_def take_Cons')
  moreover have "length (take 56 (r @ 0x80 # replicate (63 - n) 0) @ be_bytes 8 l) = 64"
    using assms by simp
  ultimately show ?thesis using True by (simp only: blocks_of_one if_True)
next
  case False
  let ?b = "r @ 0x80 # replicate (63 - n) 0"
  from False assms have z: "zero_bytes n = (63 - n) + 56" by (simp add: zero_bytes_def mod_if)
  have "r @ padding n l = ?b @ replicate 56 0 @ be_bytes 8 l"
    unfolding padding_def z replicate_add by simp
  moreover have b: "length ?b = 64" using assms by simp
  moreover have "blocks_of (?b @ c) = blocks_of ?b @ blocks_of c" for c
    by (rule blocks_of_append) (simp only: b, simp)
  ultimately show ?thesis using False
    by (simp only: blocks_of_one) (simp add: blocks_of_one)
qed

lemma final_blocks:
  assumes "length (data ctx) = 64" "n = unat (datalen ctx)" "n < 64" "length (state ctx) = 8"
  shows "state (sha256_final ctx) = map bswap_32 (fold (\<lambda>b H. compress H b)
    (blocks_of (take n (data ctx) @ padding n (bitlen ctx + ucast (datalen ctx * 8)))) (state ctx))"
  using assms
  by (subst padded_blocks) (simp_all add: sha256_final_def Let_def zero_fill_final set_length_words transform_compress)

lemma mod_64_below: "(x :: nat) < 128 \<Longrightarrow> x mod 64 = (if x < 64 then x else x - 64)"
  by (simp add: le_mod_geq)

lemma zero_bytes_least:
  "(len + 1 + zero_bytes len) mod 64 = 56" "z < zero_bytes len \<Longrightarrow> (len + 1 + z) mod 64 \<noteq> 56"
proof -
  obtain m where m: "m = len mod 64" "m < 64" by simp
  have zero: "zero_bytes len = (if m < 56 then 55 - m else 119 - m)"
    unfolding zero_bytes_def m(1) [symmetric] by (subst mod_64_below) auto
  have step: "(len + 1 + z) mod 64 = (m + 1 + z) mod 64" for z
    unfolding m(1) by (simp only: add.assoc mod_add_left_eq)
  show "(len + 1 + zero_bytes len) mod 64 = 56"
    unfolding step zero using m(2) by (subst mod_64_below) auto
  assume "z < zero_bytes len"
  then show "(len + 1 + z) mod 64 \<noteq> 56"
    unfolding step zero using m(2) by (subst mod_64_below) (auto split: if_splits)
qed

lemma pad_split:
  "pad d = take (64 * (length d div 64)) d
    @ (drop (64 * (length d div 64)) d @ padding (length d mod 64) (word_of_nat (8 * length d)))"
  by (simp add: pad_def padding_def zero_bytes_def)

lemma unat_of_nat_32: "m < 2 ^ 32 \<Longrightarrow> unat (word_of_nat m :: u32) = m"
  by (simp add: unat_of_nat)

lemma absorb_unfold:
  assumes "update_blocks (len div 64) d (ctx\<lparr>datalen := word_of_nat (len mod 64),
      bitlen := word_of_nat (len div 64 * 512 mod 2 ^ sz)\<rparr>) = (rest, c)"
  shows "absorb sz d len ctx =
    (if datalen c \<noteq> 0 then c\<lparr>data := take (unat (datalen c)) rest @ drop (unat (datalen c)) (data c)\<rparr> else c)"
  by (simp only: absorb_def Let_def assms prod.case)

lemma absorb_fields:
  assumes "length (state ctx) = 8" "64 * (len div 64) \<le> length d"
  shows "bitlen (absorb sz d len ctx) = word_of_nat (len div 64 * 512 mod 2 ^ sz)"
    and "datalen (absorb sz d len ctx) = word_of_nat (len mod 64)"
    and "state (absorb sz d len ctx)
      = fold (\<lambda>b H. compress H b) (blocks_of (take (64 * (len div 64)) d)) (state ctx)"
    and "data (absorb sz d len ctx) =
      (let kept = (if len div 64 = 0 then data ctx else take 64 (drop (64 * (len div 64 - 1)) d))
       in take (len mod 64) (drop (64 * (len div 64)) d) @ drop (len mod 64) kept)"
proof -
  define q where "q = len div 64"
  define n where "n = len mod 64"
  let ?kept = "if q = 0 then data ctx else take 64 (drop (64 * (q - 1)) d)"
  have "n < 64" by (simp add: n_def)
  then have "unat (word_of_nat n :: u32) = n" by (intro unat_of_nat_32) simp
  then obtain w :: u32 where w: "word_of_nat n = w" "unat w = n" by simp
  have z: "w = 0 \<longleftrightarrow> n = 0" using w(2) by (simp flip: unat_eq_zero)
  have "length (state (ctx\<lparr>datalen := word_of_nat (len mod 64), bitlen := word_of_nat (len div 64 * 512 mod 2 ^ sz)\<rparr>)) = 8"
    using assms(1) by simp
  note eq = absorb_unfold [OF update_blocks_result [OF assms(2) this], folded q_def n_def]
  show "bitlen (absorb sz d len ctx) = word_of_nat (len div 64 * 512 mod 2 ^ sz)"
    "datalen (absorb sz d len ctx) = word_of_nat (len mod 64)"
    "state (absorb sz d len ctx)
      = fold (\<lambda>b H. compress H b) (blocks_of (take (64 * (len div 64)) d)) (state ctx)"
    unfolding eq q_def [symmetric] n_def [symmetric] w(1) by simp_all
  have "data (absorb sz d len ctx) = take n (drop (64 * q) d) @ drop n ?kept"
    unfolding eq w(1) by (cases "n = 0") (simp_all add: w(2) z)
  then show "data (absorb sz d len ctx) =
      (let kept = (if len div 64 = 0 then data ctx else take 64 (drop (64 * (len div 64 - 1)) d))
       in take (len mod 64) (drop (64 * (len div 64)) d) @ drop (len mod 64) kept)"
    unfolding Let_def q_def n_def .
qed

lemma absorb_result:
  fixes d :: "u8 list"
  assumes "length (data ctx) = 64" "length (state ctx) = 8"
  shows "length (data (absorb sz d (length d) ctx)) = 64"
    and "take (length d mod 64) (data (absorb sz d (length d) ctx)) = drop (64 * (length d div 64)) d"
    and "unat (datalen (absorb sz d (length d) ctx)) = length d mod 64"
proof -
  define q where "q = length d div 64"
  define n where "n = length d mod 64"
  have len: "length d = 64 * q + n" and n: "n < 64" by (simp_all add: q_def n_def)
  have "64 * (length d div 64) \<le> length d" by simp
  note fields = absorb_fields [OF assms(2) this, where sz = sz, folded q_def n_def]
  have kept: "length (if q = 0 then data ctx else take 64 (drop (64 * (q - 1)) d)) = 64"
    using assms(1) len by (cases q) simp_all
  have rest: "length (drop (64 * q) d) = n" using len by simp
  show "length (data (absorb sz d (length d) ctx)) = 64"
    unfolding fields(4) Let_def using kept rest n by simp
  show "take (length d mod 64) (data (absorb sz d (length d) ctx)) = drop (64 * (length d div 64)) d"
    unfolding q_def [symmetric] n_def [symmetric] fields(4) Let_def using rest by simp
  show "unat (datalen (absorb sz d (length d) ctx)) = length d mod 64"
    unfolding fields(2) n_def [symmetric] using n by (intro unat_of_nat_32) simp
qed

lemma hash_bytes_bswap: "hash_bytes (map bswap_32 ws) = concat (map (be_bytes 4) ws)"
  by (simp add: hash_bytes_def word_to_le_bswap o_def)

lemma word_of_nat_mod_64: "(word_of_nat (n mod 2 ^ 64) :: u64) = word_of_nat n"
  by (simp add: word_of_nat_eq_iff take_bit_eq_mod)

lemma bit_length:
  assumes "sz = 64 \<or> 8 * len < 2 ^ sz"
  shows "(word_of_nat (len div 64 * 512 mod 2 ^ sz) + ucast (word_of_nat (len mod 64) * 8 :: u32) :: u64)
    = word_of_nat (8 * len)"
proof -
  have "(word_of_nat (len div 64 * 512 mod 2 ^ sz) :: u64) = word_of_nat (len div 64 * 512)"
  proof (cases "sz = 64")
    case True
    then show ?thesis by (simp only: word_of_nat_mod_64)
  next
    case False
    moreover have "len div 64 * 512 \<le> 8 * len" by (simp add: div_times_less_eq_dividend)
    ultimately show ?thesis using assms by simp
  qed
  moreover have "(ucast (word_of_nat (len mod 64) * 8 :: u32) :: u64) = word_of_nat (len mod 64 * 8)"
  proof -
    have "len mod 64 * 8 < 2 ^ 32" using mod_less_divisor [of 64 len] by simp
    then have "unat (word_of_nat (len mod 64 * 8) :: u32) = len mod 64 * 8"
      by (rule unat_of_nat_32)
    then show ?thesis
      by (metis (mono_tags) of_nat_mult of_nat_numeral of_nat_unat)
  qed
  moreover have "len div 64 * 512 + len mod 64 * 8 = 8 * len"
    using div_mult_mod_eq [of len 64] by linarith
  ultimately show ?thesis by (metis of_nat_add)
qed

lemma sha256_calc_words:
  assumes "length (data junk) = 64" "sz = 64 \<or> 8 * length d < 2 ^ sz"
  shows "sha256_calc sz junk d = map bswap_32 (sha_words d)"
proof -
  let ?c = "absorb sz d (length d) (junk\<lparr>state := initial_state\<rparr>)" and ?n = "length d mod 64"
  let ?F = "fold (\<lambda>b H. compress H b)" and ?full = "64 * (length d div 64)"
  have init: "length (state (junk\<lparr>state := initial_state\<rparr>)) = 8" "length (data (junk\<lparr>state := initial_state\<rparr>)) = 64"
    using assms(1) by simp_all
  have full: "64 * (length d div 64) \<le> length d" by simp
  note c = absorb_result [OF init(2,1), where d = d and sz = sz]
  note f = absorb_fields [OF init(1) full, where sz = sz]
  have bits: "bitlen ?c + ucast (datalen ?c * 8) = word_of_nat (8 * length d)"
    by (simp only: f(1,2) bit_length [OF assms(2)])
  have n: "unat (datalen ?c) < 64" unfolding c(3) by simp
  have eight: "length (state ?c) = 8" unfolding f(3) by simp
  have "sha256_calc sz junk d = map bswap_32 (?F (blocks_of (take ?n (data ?c) @ padding ?n (word_of_nat (8 * length d)))) (state ?c))"
    unfolding sha256_calc_def final_blocks [OF c(1) refl n eight] bits c(3) by (rule refl)
  also have "\<dots> = map bswap_32 (?F (blocks_of (drop ?full d @ padding ?n (word_of_nat (8 * length d))))
      (?F (blocks_of (take ?full d)) initial_state))"
    unfolding c(2) f(3) by simp
  finally have "sha256_calc sz junk d = map bswap_32 (?F (blocks_of (drop ?full d @ padding ?n (word_of_nat (8 * length d))))
      (?F (blocks_of (take ?full d)) initial_state))" .
  moreover have "blocks_of (pad d) = blocks_of (take ?full d) @ blocks_of (drop ?full d @ padding ?n (word_of_nat (8 * length d)))"
    unfolding pad_split
    by (rule blocks_of_append) (use times_div_less_eq_dividend [of 64 "length d"] in \<open>simp add: min_absorb2\<close>)
  ultimately show ?thesis by (simp add: sha_words_def)
qed

lemmas sha256_calc_bytes = arg_cong [OF sha256_calc_words, of _ _ _ hash_bytes, unfolded hash_bytes_bswap, folded sha256_def]

text \<open>C16: sha256_calc computes SHA-256 as FIPS 180-4 defines it, for every message whose
  length in bits fits the counter: the 32 bytes of the returned union are the standard's digest,
  whatever the context's buffer and counters held before.  With a size_t of 64 bits there is no
  bound (both sides count modulo 2 ^ 64); with one of 32 bits the message must be shorter than
  2 ^ 29 bytes, because blocks * 512 is computed in size_t.\<close>

theorem sha256_calc_standard:
  assumes "length (data junk) = 64" "sz = 64 \<or> 8 * length d < 2 ^ sz"
  shows "hash_bytes (sha256_calc sz junk d) = sha256 d"
  using assms by (rule sha256_calc_bytes)

theorem sha256_calc_standard_witness:
  "hash_bytes (sha256_calc 32 \<lparr>data = replicate 64 7, datalen = 9, bitlen = 9, state = []\<rparr> [0x61, 0x62, 0x63])
    = sha256 [0x61, 0x62, 0x63]"
  by (rule sha256_calc_standard) simp_all

text \<open>The incremental interface, called once: initialising a context, updating it with a whole
  message of less than 2 ^ 32 bytes and finalising it gives the same digest.\<close>


theorem sha256_update_final:
  assumes "length (data junk) = 64" "sz = 64 \<or> 8 * length d < 2 ^ sz" "length d < 2 ^ 32"
  shows "hash_bytes (state (sha256_final (sha256_update sz d (word_of_nat (length d)) (sha256_init junk)))) = sha256 d"
proof -
  have "sha256_update sz d (word_of_nat (length d)) (sha256_init junk)
      = absorb sz d (length d) (junk\<lparr>state := initial_state\<rparr>)"
    by (simp add: sha256_update_def unat_of_nat_32 [OF assms(3)] sha256_init_def absorb_def)
  then show ?thesis
    using sha256_calc_bytes [OF assms(1,2)] by (simp add: sha256_calc_def)
qed

text \<open>A second update forgets what the first one counted.\<close>

lemma sha256_update_forgets:
  assumes "length (state ctx) = 8" "unat la \<le> length a" "unat lb \<le> length b"
  shows "bitlen (sha256_update sz b lb (sha256_update sz a la ctx)) = word_of_nat (unat lb div 64 * 512 mod 2 ^ sz)"
proof -
  have full: "64 * (unat l div 64) \<le> length d" if "unat l \<le> length d" for l :: u32 and d :: "u8 list"
    using that times_div_less_eq_dividend [of 64 "unat l"] by linarith
  have "length (state (sha256_update sz a la ctx)) = 8"
    using assms(1) by (simp add: sha256_update_def absorb_fields(3) [OF assms(1) full [OF assms(2)]])
  from absorb_fields(1) [OF this full [OF assms(3)]] show ?thesis
    by (simp only: sha256_update_def)
qed

theorem sha256_update_final_witness:
  "hash_bytes (state (sha256_final (sha256_update 32 [0x61, 0x62, 0x63] 3 (sha256_init \<lparr>data = replicate 64 7, datalen = 9, bitlen = 9, state = []\<rparr>))))
    = sha256 [0x61, 0x62, 0x63]"
  using sha256_update_final [of "\<lparr>data = replicate 64 7, datalen = 9, bitlen = 9, state = []\<rparr>" 32 "[0x61, 0x62, 0x63]"]
  by simp

text \<open>With a \<^verbatim>\<open>size_t\<close> of 32 bits the counter of a message of \<open>2 ^ 29\<close> bytes is zero.\<close>

lemma bitlen_wraps_32:
  assumes "length (state ctx) = 8" "length d = 2 ^ 29"
  shows "bitlen (absorb 32 d (length d) ctx) = 0"
  using absorb_fields(1) [OF assms(1), of "length d" d 32] assms(2) by simp

end
