(* ===== verification/Sha256_New.thy ===== *)
theory Sha256_New
  imports Sha256
begin

text \<open>
  \<^verbatim>\<open>sha256_calc_correct\<close> of \<^verbatim>\<open>src/sha256_new.cpp\<close>: the same hash with rewritten bit
  functions, eight rounds per turn of the loop in which the eight variables exchange their roles
  instead of being moved, and the padding made in the caller's buffer.  The buffer is a function
  from offsets to bytes, since the code reads the whole last block, not only the message.  The
  last section proves that it computes what the standard of Sha256 defines.
\<close>

section \<open>The functions of the second program\<close>

definition ror_func :: "u32 \<Rightarrow> nat \<Rightarrow> u32" where
  "ror_func v n = drop_bit n v OR push_bit (32 - n) v"

definition EP0_new :: "u32 \<Rightarrow> u32" where
  "EP0_new v = ror_func (ror_func (ror_func v 9 XOR v) 11 XOR v) 2"

definition EP1_new :: "u32 \<Rightarrow> u32" where
  "EP1_new v = ror_func (ror_func (ror_func v 14 XOR v) 5 XOR v) 6"

definition CH_B :: "u32 \<Rightarrow> u32 \<Rightarrow> u32 \<Rightarrow> u32" where
  "CH_B a b c = ((b XOR c) AND a) XOR c"

definition MAJ_new :: "u32 \<Rightarrow> u32 \<Rightarrow> u32 \<Rightarrow> u32" where
  "MAJ_new a b c = ((a OR c) AND b) OR (a AND c)"

text \<open>
  Two statements of a round, \<^verbatim>\<open>d += h += EP1(e) + CH(e, f, g) + k + m\<close> and
  \<^verbatim>\<open>h += EP0(a) + MAJ(a, b, c)\<close>: only \<open>d\<close> and \<open>h\<close> are assigned.  The source writes
  the pair eight times, with the names rotated.
\<close>

definition two_statements :: "u32 \<Rightarrow> u32 \<Rightarrow> u32 \<Rightarrow> u32 \<Rightarrow> u32 \<Rightarrow> u32 \<Rightarrow> u32 \<Rightarrow> u32 \<Rightarrow> u32 \<Rightarrow> u32 \<Rightarrow> u32 \<times> u32" where
  "two_statements ki mi a b c d e f g h =
     (let h = h + (EP1_new e + CH e f g + ki + mi);
          d = d + h;
          h = h + (EP0_new a + MAJ_new a b c)
      in (d, h))"

fun eight_rounds :: "u32 list \<Rightarrow> nat \<Rightarrow> regs8 \<Rightarrow> regs8" where
  "eight_rounds m i (Regs8 a b c d e f g h) =
     (let (d, h) = two_statements (k_table ! i) (m ! i) a b c d e f g h;
          (c, g) = two_statements (k_table ! (i + 1)) (m ! (i + 1)) h a b c d e f g;
          (b, f) = two_statements (k_table ! (i + 2)) (m ! (i + 2)) g h a b c d e f;
          (a, e) = two_statements (k_table ! (i + 3)) (m ! (i + 3)) f g h a b c d e;
          (h, d) = two_statements (k_table ! (i + 4)) (m ! (i + 4)) e f g h a b c d;
          (g, c) = two_statements (k_table ! (i + 5)) (m ! (i + 5)) d e f g h a b c;
          (f, b) = two_statements (k_table ! (i + 6)) (m ! (i + 6)) c d e f g h a b;
          (e, a) = two_statements (k_table ! (i + 7)) (m ! (i + 7)) b c d e f g h a
      in Regs8 a b c d e f g h)"

section \<open>The calculation\<close>

definition load_m :: "(nat \<Rightarrow> u8) \<Rightarrow> nat \<Rightarrow> u32 list" where
  "load_m mem p = map (\<lambda>i. le_to_word (map (\<lambda>j. mem (p + 4 * i + j)) [0..<4])) [0..<16]"

definition length_words :: "nat \<Rightarrow> u32 list" where
  "length_words len =
     (let byte_length = word_of_nat len * 8 :: u64
      in [bswap_32 (ucast (drop_bit 32 byte_length)), bswap_32 (ucast byte_length)])"

definition last_blocks ::
    "nat \<Rightarrow> (nat \<Rightarrow> u8) \<Rightarrow> nat \<Rightarrow> int \<Rightarrow> int \<Rightarrow> (nat \<Rightarrow> u8) \<times> u32 list \<times> int \<times> int" where
  "last_blocks len mem p blocks remaining =
     (if remaining < 0 then (mem, replicate 14 0 @ length_words len, blocks - 1, remaining)
      else let mem = mem(p + nat remaining := 128);
               m = load_m mem p
           in if remaining \<ge> 56 then (mem, m, blocks, - remaining)
              else (mem, take 14 m @ length_words len, blocks - 1, remaining))"

function calc_loop ::
    "nat \<Rightarrow> (nat \<Rightarrow> u8) \<Rightarrow> nat \<Rightarrow> int \<Rightarrow> int \<Rightarrow> regs8 \<Rightarrow> u32 list \<Rightarrow> u32 list \<times> (nat \<Rightarrow> u8)" where
  "calc_loop len mem p blocks remaining vars out_state =
     (let out_state = map2 (+) out_state (words_of vars);
          vars = regs_of out_state
      in if blocks < 0 then (out_state, mem)
         else if blocks = 0 then
           (let (mem, m, blocks, remaining) = last_blocks len mem p blocks remaining
            in calc_loop len mem p blocks remaining
                 (fold (\<lambda>j. eight_rounds (extend_schedule (map bswap_32 m)) (8 * j)) [0..<8] vars) out_state)
         else
           calc_loop len mem (p + 64) (blocks - 1) remaining
             (fold (\<lambda>j. eight_rounds (extend_schedule (map bswap_32 (load_m mem p))) (8 * j)) [0..<8] vars) out_state)"
  by auto
termination
  by (relation "measure (\<lambda>(len, mem, p, blocks, remaining, vars, out). 2 * nat (blocks + 1) + (if remaining \<ge> 0 then 1 else 0))")
    (auto simp: last_blocks_def Let_def split: if_splits)

declare calc_loop.simps [simp del]

definition sha256_calc_correct :: "(nat \<Rightarrow> u8) \<Rightarrow> nat \<Rightarrow> u32 list \<times> (nat \<Rightarrow> u8)" where
  "sha256_calc_correct data_arr len =
     calc_loop len data_arr 0 (int (len div 64)) (int (len mod 64)) (regs_of initial_state) (replicate 8 0)"

section \<open>The rounds agree with the standard\<close>

lemma ror_func_rotr: "0 < n \<Longrightarrow> n < 32 \<Longrightarrow> ror_func v n = word_rotr n v"
  using ROTRIGHT_rotr by (simp add: ror_func_def ROTRIGHT_def)

lemma word_rotr_xor: "word_rotr n (x XOR y) = word_rotr n x XOR word_rotr n (y :: u32)"
  by (rule bit_word_eqI) (simp add: bit_word_rotr_iff bit_xor_iff)

lemma new_functions: "EP0_new = Sum0" "EP1_new = Sum1" "CH_B = Ch" "MAJ_new = Maj"
proof -
  show "EP0_new = Sum0" "EP1_new = Sum1"
    by (simp_all add: fun_eq_iff EP0_new_def EP1_new_def Sum0_def Sum1_def ror_func_rotr word_rotr_xor
        word_rotr_word_rotr_eq ac_simps)
  show "CH_B = Ch" "MAJ_new = Maj"
    by (auto simp: fun_eq_iff CH_B_def Ch_def MAJ_new_def Maj_def bit_simps intro!: bit_word_eqI)
qed

lemma two_statements_step:
  "sha_step ki mi (Regs8 a b c d e f g h)
    = (case two_statements ki mi a b c d e f g h of (d, h) \<Rightarrow> Regs8 h a b c d e f g)"
  by (simp add: two_statements_def Let_def new_functions ac_simps)

lemma eight_rounds_steps:
  "eight_rounds m i r = fold (\<lambda>t. sha_step (k_table ! t) (m ! t)) [i..<i + 8] r"
proof -
  have "[i..<i + 8] = [i, i + 1, i + 2, i + 3, i + 4, i + 5, i + 6, i + 7]"
    by (simp add: upt_rec)
  then show ?thesis
    by (cases r) (simp only: fold_simps eight_rounds.simps two_statements_step Let_def split: prod.split, simp)
qed

lemma fold_upt_chunks:
  "fold (\<lambda>j. fold f [8 * j..<8 * j + 8]) [0..<n] = fold f [0..<8 * n]"
proof (induction n)
  case (Suc n)
  have "[0..<8 * Suc n] = [0..<8 * n] @ [8 * n..<8 * n + 8]"
    using upt_add_eq_append [of 0 "8 * n" 8] by (simp add: add.commute)
  with Suc show ?case by (simp only: upt_Suc_append [OF le0] fold_append) simp
qed simp

lemma rounds_steps64:
  assumes "length M = 16"
  shows "fold (\<lambda>j. eight_rounds (extend_schedule M) (8 * j)) [0..<8] r = steps64 M r"
proof -
  have "fold (\<lambda>j. eight_rounds (extend_schedule M) (8 * j)) [0..<8]
      = fold (\<lambda>t. sha_step (k_table ! t) (extend_schedule M ! t)) [0..<8 * 8]"
    unfolding fold_upt_chunks [symmetric] by (simp only: eight_rounds_steps [abs_def])
  moreover have "fold (\<lambda>t. sha_step (k_table ! t) (extend_schedule M ! t)) [0..<8 * 8] r = steps64 M r"
    unfolding steps64_def by (rule fold_cong) (auto simp: extend_schedule_W [OF assms])
  ultimately show ?thesis by simp
qed

section \<open>The loop\<close>

lemma words_regs [simp]: "words_of (regs_of H) = H" if "length H = 8"
  using list_8 [OF that] by (metis regs_of.simps(1) words_of.simps)

lemma length_words_of [simp]: "length (words_of r) = 8"
  by (cases r) simp

lemma zero_sum [simp]: "length H = 8 \<Longrightarrow> map2 (+) (replicate 8 0) H = (H :: u32 list)"
  by (rule nth_equalityI) simp_all

text \<open>The loop depends on its variables only through the chaining value, their sum with the state.\<close>

lemma calc_loop_value:
  "map2 (+) out (words_of vars) = H \<Longrightarrow> length H = 8 \<Longrightarrow>
    calc_loop len mem p blocks r vars out = calc_loop len mem p blocks r (regs_of H) (replicate 8 0)"
  by (subst (1 2) calc_loop.simps) simp

definition compress_words :: "u32 list \<Rightarrow> u32 list \<Rightarrow> u32 list" where
  "compress_words H M = map2 (+) H (words_of (steps64 M (regs_of H)))"

lemma length_compress_words [simp]: "length H = 8 \<Longrightarrow> length (compress_words H M) = 8"
  by (simp add: compress_words_def)

definition loop_from where
  "loop_from len mem p blocks r H = calc_loop len mem p blocks r (regs_of H) (replicate 8 0)"

lemma length_load_m [simp]: "length (load_m mem p) = 16"
  by (simp add: load_m_def)

lemma length_last_words [simp]: "length (fst (snd (last_blocks len mem p blocks r))) = 16"
  by (simp add: last_blocks_def length_words_def Let_def)

lemma loop_from_cases:
  assumes "length H = 8"
  shows "blocks < 0 \<Longrightarrow> loop_from len mem p blocks r H = (H, mem)"
    and "blocks > 0 \<Longrightarrow> loop_from len mem p blocks r H
      = loop_from len mem (p + 64) (blocks - 1) r (compress_words H (map bswap_32 (load_m mem p)))"
    and "last_blocks len mem p 0 r = (mem', m, b', r') \<Longrightarrow> loop_from len mem p 0 r H
      = loop_from len mem' p b' r' (compress_words H (map bswap_32 m))"
proof -
  show "loop_from len mem p blocks r H = (H, mem)" if "blocks < 0"
    using assms that by (simp add: loop_from_def calc_loop.simps)
  have sum: "calc_loop len mem p b r (fold (\<lambda>j. eight_rounds (extend_schedule (map bswap_32 m)) (8 * j)) [0..<8] (regs_of H)) H
      = loop_from len mem p b r (compress_words H (map bswap_32 m))"
    if "length m = 16" for mem p b r m
    using assms that unfolding loop_from_def
    by (intro calc_loop_value) (simp_all add: rounds_steps64 compress_words_def)
  show "loop_from len mem p blocks r H
      = loop_from len mem (p + 64) (blocks - 1) r (compress_words H (map bswap_32 (load_m mem p)))" if "blocks > 0"
    using assms that sum [of "load_m mem p"]
    by (subst loop_from_def, subst calc_loop.simps) (simp add: Let_def)
  show "loop_from len mem p 0 r H = loop_from len mem' p b' r' (compress_words H (map bswap_32 m))"
    if "last_blocks len mem p 0 r = (mem', m, b', r')"
    using assms that sum [of m] length_last_words [of len mem p 0 r]
    by (subst loop_from_def, subst calc_loop.simps) (simp add: Let_def)
qed

text \<open>The words a block is loaded as.\<close>

definition mem_bytes :: "(nat \<Rightarrow> u8) \<Rightarrow> nat \<Rightarrow> nat \<Rightarrow> u8 list" where
  "mem_bytes mem p n = map (\<lambda>i. mem (p + i)) [0..<n]"

lemma load_m_block: "map bswap_32 (load_m mem p) = block_words (mem_bytes mem p 64)"
proof -
  have four: "[0..<4] = [0, 1, 2, 3 :: nat]" by (simp add: upt_rec)
  have "take 4 (drop (4 * i) (mem_bytes mem p 64)) = map (\<lambda>j. mem (p + 4 * i + j)) [0..<4]" if "i < 16" for i
    using that by (intro nth_equalityI) (simp_all add: mem_bytes_def add.assoc)
  then show ?thesis
    by (auto simp: load_m_def block_words_def four bswap_32_le simp del: le_to_word.simps)
qed

lemma bswap_bswap [simp]: "bswap_32 (bswap_32 x) = x"
proof (rule bit_word_eqI)
  fix n assume "n < LENGTH(32)"
  then have "n < 32" by simp
  then consider "n < 8" | "8 \<le> n" "n < 16" | "16 \<le> n" "n < 24" | "24 \<le> n" "n < 32" by linarith
  then show "bit (bswap_32 (bswap_32 x)) n = bit x n"
    by cases (auto simp: bit_bswap_32 le_iff_add)
qed

lemma be_word_be_bytes [simp]: "be_word (be_bytes 4 w) = w"
proof -
  have "be_bytes 4 w = word_to_le 4 (bswap_32 w)" by (simp add: word_to_le_bswap)
  moreover obtain a b c d where e: "word_to_le 4 (bswap_32 w) = [a, b, c, d]"
    using list_4 [OF length_word_to_le] by blast
  moreover have "le_to_word [a, b, c, d] = bswap_32 w"
    unfolding e [symmetric] by (rule le_to_word_to_le) simp
  ultimately show ?thesis by (metis bswap_32_le bswap_bswap)
qed

lemma block_words_tail:
  fixes l :: u64
  assumes "length b = 64" "take 56 b = take 56 c" "drop 56 b = be_bytes 8 l"
  shows "block_words b = take 14 (block_words c) @ [ucast (drop_bit 32 l), ucast l]"
proof -
  have 16: "[0..<16] = [0..<14] @ [14, 15]" by (simp add: upt_rec)
  have "take 4 (drop (4 * i) b) = take 4 (drop (4 * i) c)" if "i < 14" for i
  proof -
    have "take 4 (drop (4 * i) x) = take 4 (drop (4 * i) (take 56 x))" for x :: "u8 list"
      using that by (simp add: drop_take min_def)
    then show ?thesis using assms(2) by metis
  qed
  moreover have "take 4 (drop 56 b) = be_bytes 4 (ucast (drop_bit 32 l) :: u32)"
    by (simp add: assms(3) be_bytes_8)
  moreover have "take 4 (drop 60 b) = be_bytes 4 (ucast l :: u32)"
  proof -
    have "drop 60 b = drop 4 (drop 56 b)" by simp
    then show ?thesis unfolding assms(3) be_bytes_8 by simp
  qed
  ultimately show ?thesis
    unfolding block_words_def 16 map_append by (simp add: take_map)
qed

section \<open>The second program computes the same words\<close>

lemma full_blocks:
  assumes "length H = 8"
  shows "loop_from len mem p (int n) r H
    = loop_from len mem (p + 64 * n) 0 r (fold (\<lambda>b H. compress H b) (blocks_of (mem_bytes mem p (64 * n))) H)"
  using assms
proof (induction n arbitrary: p H)
  case 0
  then show ?case by (simp add: mem_bytes_def blocks_of_Suc)
next
  case (Suc n)
  have "take 64 (mem_bytes mem p (64 * Suc n)) = mem_bytes mem p 64"
    "drop 64 (mem_bytes mem p (64 * Suc n)) = mem_bytes mem (p + 64) (64 * n)"
    by (rule nth_equalityI; simp add: mem_bytes_def add.assoc)+
  moreover have "64 \<le> length (mem_bytes mem p (64 * Suc n))" by (simp add: mem_bytes_def)
  ultimately have "blocks_of (mem_bytes mem p (64 * Suc n)) = mem_bytes mem p 64 # blocks_of (mem_bytes mem (p + 64) (64 * n))"
    by (simp only: blocks_of_Suc)
  moreover have "compress_words H (map bswap_32 (load_m mem p)) = compress H (mem_bytes mem p 64)"
    by (simp add: load_m_block compress_words_def compress_def)
  ultimately show ?case
    using Suc.IH [of "compress H (mem_bytes mem p 64)" "p + 64"] Suc.prems
      loop_from_cases(2) [OF Suc.prems, of "int (Suc n)" len mem p r]
    by (simp add: add.assoc)
qed

lemma final_compress:
  assumes "length b = 64" "take 56 b = take 56 c" "drop 56 b = be_bytes 8 (word_of_nat len * 8 :: u64)"
    and "map bswap_32 m = take 14 (block_words c)"
  shows "compress_words H (map bswap_32 (m @ length_words len)) = compress H b"
proof -
  have "map bswap_32 (m @ length_words len) = block_words b"
    by (simp add: block_words_tail [OF assms(1-3)] assms(4) length_words_def Let_def)
  then show ?thesis by (simp add: compress_words_def compress_def)
qed

lemma block_words_zero: "take 14 (block_words (replicate 64 0)) = replicate 14 0"
proof -
  have "be_word [0, 0, 0, 0] = 0" by (simp add: be_word_def)
  moreover have "take 4 (drop (4 * i) (replicate 64 0)) = [0, 0, 0, 0 :: u8]" if "i < 16" for i
  proof -
    have "take 4 (drop (4 * i) (replicate 64 0)) = replicate 4 (0 :: u8)"
      using that by (simp add: min_def)
    then show ?thesis by (simp add: numeral_eq_Suc)
  qed
  ultimately have "block_words (replicate 64 0) = replicate 16 0"
    by (auto simp: block_words_def map_replicate_const [symmetric] intro!: nth_equalityI)
  then show ?thesis by simp
qed

lemma last_loop:
  assumes "length H = 8" "n < 64" "mem_bytes mem p n = r" "\<And>i. n < i \<Longrightarrow> i < 64 \<Longrightarrow> mem (p + i) = 0"
  shows "loop_from len mem p 0 (int n) H =
    (fold (\<lambda>b H. compress H b) (blocks_of (r @ padding n (word_of_nat len * 8))) H, mem(p + n := 128))"
proof -
  let ?mem = "mem(p + n := 128)" and ?B = "r @ 0x80 # replicate (63 - n) 0"
  have r: "length r = n" using assms(3) by (auto simp: mem_bytes_def)
  have B: "mem_bytes ?mem p 64 = ?B"
    using assms(2,4) by (intro nth_equalityI)
      (auto simp: r mem_bytes_def nth_append nth_Cons' simp flip: assms(3))
  have lB: "length ?B = 64" using assms(2) by (simp add: r)
  show ?thesis
  proof (cases "n < 56")
    case True
    then have "last_blocks len mem p 0 (int n) = (?mem, take 14 (load_m ?mem p) @ length_words len, - 1, int n)"
      by (simp add: last_blocks_def Let_def)
    moreover have "compress_words H (map bswap_32 (take 14 (load_m ?mem p) @ length_words len))
        = compress H (take 56 ?B @ be_bytes 8 (word_of_nat len * 8 :: u64))"
      using lB True by (intro final_compress [where c = ?B])
        (simp_all add: take_map [symmetric] load_m_block B r)
    ultimately show ?thesis
      using True assms(1) by (simp add: loop_from_cases padded_blocks [OF r assms(2)])
  next
    case False
    then have first: "last_blocks len mem p 0 (int n) = (?mem, load_m ?mem p, 0, - int n)"
      and second: "last_blocks len ?mem p 0 (- int n) = (?mem, replicate 14 0 @ length_words len, - 1, - int n)"
      by (simp_all add: last_blocks_def Let_def)
    have "compress_words H (map bswap_32 (load_m ?mem p)) = compress H ?B"
      by (simp add: load_m_block B compress_words_def compress_def)
    moreover have "compress_words H' (map bswap_32 (replicate 14 0 @ length_words len))
        = compress H' (replicate 56 0 @ be_bytes 8 (word_of_nat len * 8 :: u64))" for H'
      by (intro final_compress [where c = "replicate 64 0"])
        (simp_all add: block_words_zero bswap_32_def)
    ultimately show ?thesis
      using False assms(1)
      by (simp add: loop_from_cases(3) [OF _ first] loop_from_cases(3) [OF _ second]
          loop_from_cases(1) padded_blocks [OF r assms(2)])
  qed
qed

text \<open>C31: The hand-unrolled calculation of sha256_new.cpp computes the chaining value the
  standard defines, for a message of any length, when the caller's buffer is zero behind the
  message up to the end of its last block.  It returns (the loop is a total function), gives the
  eight words without reversing their bytes, and leaves a byte 128 behind the message in the
  caller's buffer; no other byte of the buffer changes.\<close>

theorem sha256_calc_correct_standard:
  assumes "mem_bytes data_arr 0 len = d"
    and "\<And>i. len < i \<Longrightarrow> i < 64 * (len div 64 + 1) \<Longrightarrow> data_arr i = 0"
  shows "sha256_calc_correct data_arr len = (sha_words d, data_arr(len := 128))"
proof -
  let ?p = "64 * (len div 64)" and ?n = "len mod 64"
  have p: "?p + ?n = len" by simp
  have ld: "length d = len" using assms(1) by (auto simp: mem_bytes_def)
  have head: "mem_bytes data_arr 0 ?p = take ?p d"
    using assms(1) times_div_less_eq_dividend [of 64 len]
    by (auto simp: mem_bytes_def take_map min_def simp flip: assms(1))
  have below: "?p + i < len" if "i < ?n" for i using that p by linarith
  have tail: "mem_bytes data_arr ?p ?n = drop ?p d"
    unfolding assms(1) [symmetric] mem_bytes_def drop_map drop_upt
    by (intro nth_equalityI) (simp_all add: minus_mult_div_eq_mod below)
  have zero: "data_arr (?p + i) = 0" if "?n < i" "i < 64" for i
  proof (rule assms(2))
    show "len < ?p + i" using that p by linarith
    show "?p + i < 64 * (len div 64 + 1)" using that by simp
  qed
  have "sha256_calc_correct data_arr len = loop_from len data_arr 0 (int (len div 64)) (int ?n) initial_state"
    by (simp add: sha256_calc_correct_def loop_from_def)
  also have "\<dots> = (fold (\<lambda>b H. compress H b)
      (blocks_of (take ?p d) @ blocks_of (drop ?p d @ padding ?n (word_of_nat len * 8))) initial_state, data_arr(len := 128))"
    using last_loop [where len = len, OF length_fold_compress [OF length_initial_state] mod_less_divisor tail zero]
    by (subst full_blocks) (simp_all add: head p)
  also have "blocks_of (take ?p d) @ blocks_of (drop ?p d @ padding ?n (word_of_nat len * 8)) = blocks_of (pad d)"
    unfolding pad_split ld
    by (subst blocks_of_append) (use times_div_less_eq_dividend [of 64 len] ld in \<open>simp_all add: min_absorb2 mult.commute\<close>)
  finally show ?thesis by (simp add: sha_words_def fun_upd_def)
qed

theorem sha256_calc_correct_standard_witness:
  "sha256_calc_correct (\<lambda>i. if i < 3 then 0x61 else 0) 3 = (sha_words [0x61, 0x61, 0x61], (\<lambda>i. if i < 3 then 0x61 else 0)(3 := 128))"
  by (rule sha256_calc_correct_standard) (simp_all add: mem_bytes_def upt_rec)

end
