(* ===== verification/Utf8.thy ===== *)
theory Utf8
  imports Z86_Prelude
begin

text \<open>
  The UTF-8 decoders of \<^verbatim>\<open>src/unicode_test.cpp\<close>.  A C string is the list of its bytes with the
  terminating zero; a decoder answers the UTF-16 units it has written, with \<open>Inr\<close> when it
  returns the buffer and with \<open>Inl\<close> when it frees the buffer and returns \<^verbatim>\<open>NULL\<close>.  A list that
  ends before a decoder stops is a string without a terminator, which C does not define:
  there the answer is \<open>Inl\<close> as well.  The buffer is allocated with room for \<^verbatim>\<open>strlen + 1\<close> units.
\<close>

section \<open>The common state and the end of a sequence\<close>

record decoder =
  codepoint :: u32
  multibyte_index :: int
  is_four_bytes :: bool
  utf16_str :: "u16 list"

definition start :: decoder where
  "start = \<lparr>codepoint = 0, multibyte_index = - 1, is_four_bytes = False, utf16_str = []\<rparr>"

definition emit :: "u16 \<Rightarrow> decoder \<Rightarrow> decoder" where
  "emit u s = s\<lparr>utf16_str := utf16_str s @ [u]\<rparr>"

definition surrogates :: "u32 \<Rightarrow> u32" where
  "surrogates c = 0xDC00D800 OR drop_bit 10 (c AND NOT 0x103FF) OR push_bit 16 (c AND 0x3FF)"

definition accumulate :: "u32 \<Rightarrow> decoder \<Rightarrow> decoder" where
  "accumulate cur_byte s =
     (let s = s\<lparr>codepoint := codepoint s OR push_bit (6 * nat (multibyte_index s)) cur_byte,
                multibyte_index := multibyte_index s - 1\<rparr>
      in if multibyte_index s < 0 then
           if \<not> is_four_bytes s then (emit (ucast (codepoint s)) s)\<lparr>codepoint := 0\<rparr>
           else let w = surrogates (codepoint s)
                in (emit (ucast (drop_bit 16 w)) (emit (ucast w) (s\<lparr>is_four_bytes := False\<rparr>)))\<lparr>codepoint := 0\<rparr>
         else s)"

section \<open>Testing and resetting bits\<close>

definition bittestandreset :: "u32 \<Rightarrow> nat \<Rightarrow> bool \<times> u32" where
  "bittestandreset x n = (bit x n, unset_bit n x)"

definition leading_bit_test :: "u32 \<Rightarrow> decoder \<Rightarrow> (u32 \<times> decoder) option" where
  "leading_bit_test cur_byte s =
     (case bittestandreset cur_byte 6 of (leading, cur_byte) \<Rightarrow>
        if leading then
          if multibyte_index s \<ge> 0 then None
          else (case bittestandreset cur_byte 5 of (three, cur_byte) \<Rightarrow>
            if three then
              (case bittestandreset cur_byte 4 of (four, cur_byte) \<Rightarrow>
                if four \<and> bit cur_byte 3 then None
                else Some (cur_byte, s\<lparr>is_four_bytes := four, multibyte_index := 2 + of_bool four\<rparr>))
            else Some (cur_byte, s\<lparr>multibyte_index := 1\<rparr>))
        else Some (cur_byte, s))"

fun bit_test_loop :: "decoder \<Rightarrow> u8 list \<Rightarrow> u16 list + u16 list" where
  "bit_test_loop s [] = Inl (utf16_str s)"
| "bit_test_loop s (b # bs) =
     (case bittestandreset (ucast b) 7 of (multi, cur_byte) \<Rightarrow>
        if \<not> multi then
          let s = emit (ucast cur_byte) s
          in if cur_byte \<noteq> 0 then bit_test_loop s bs
             else if multibyte_index s \<ge> 0 then Inl (utf16_str s) else Inr (utf16_str s)
        else (case leading_bit_test cur_byte s of
            None \<Rightarrow> Inl (utf16_str s)
          | Some (cur_byte, s) \<Rightarrow>
              if multibyte_index s < 0 then Inl (utf16_str s)
              else bit_test_loop (accumulate cur_byte s) bs))"

definition utf8_to_utf16_bit_test_reset :: "u8 list \<Rightarrow> u16 list + u16 list" where
  "utf8_to_utf16_bit_test_reset utf8_str = bit_test_loop start utf8_str"

section \<open>Masking\<close>

definition BitMaskAndReset :: "u32 \<Rightarrow> u32 \<Rightarrow> bool \<times> u32" where
  "BitMaskAndReset value m = (value \<noteq> value AND NOT m, value AND NOT m)"

definition BitMask :: "u32 \<Rightarrow> u32 \<Rightarrow> bool" where
  "BitMask value m \<longleftrightarrow> value AND m \<noteq> 0"

definition leading_masking :: "u32 \<Rightarrow> decoder \<Rightarrow> (u32 \<times> decoder) option" where
  "leading_masking cur_byte s =
     (case BitMaskAndReset cur_byte 0x40 of (leading, cur_byte) \<Rightarrow>
        if leading then
          if multibyte_index s \<ge> 0 then None
          else (case BitMaskAndReset cur_byte 0x20 of (three, cur_byte) \<Rightarrow>
            if three then
              (case BitMaskAndReset cur_byte 0x10 of (four, cur_byte) \<Rightarrow>
                if four \<and> BitMask cur_byte 0x08 then None
                else Some (cur_byte, s\<lparr>is_four_bytes := four, multibyte_index := 2 + of_bool four\<rparr>))
            else Some (cur_byte, s\<lparr>multibyte_index := 1\<rparr>))
        else Some (cur_byte, s))"

fun masking_loop :: "decoder \<Rightarrow> u8 list \<Rightarrow> u16 list + u16 list" where
  "masking_loop s [] = Inl (utf16_str s)"
| "masking_loop s (b # bs) =
     (let cur_byte = scast b :: u32
      in if sint cur_byte \<ge> 0 then
           let s = emit (ucast cur_byte) s
           in if cur_byte \<noteq> 0 then masking_loop s bs
              else if multibyte_index s \<ge> 0 then Inl (utf16_str s) else Inr (utf16_str s)
         else (case leading_masking (cur_byte AND 0x7F) s of
            None \<Rightarrow> Inl (utf16_str s)
          | Some (cur_byte, s) \<Rightarrow>
              if multibyte_index s < 0 then Inl (utf16_str s)
              else masking_loop (accumulate cur_byte s) bs))"

definition utf8_to_utf16_masking :: "u8 list \<Rightarrow> u16 list + u16 list" where
  "utf8_to_utf16_masking utf8_str = masking_loop start utf8_str"

section \<open>Scanning for the highest bit\<close>

text \<open>
  The index of the highest set bit.  For the byte \<open>0xFF\<close> the instruction is given zero and its
  result is what \<open>undef\<close> says: the intrinsic leaves it open, the processors leave the operand
  as it was, which is zero here.
\<close>

definition BitScanReverse :: "u32 \<Rightarrow> u32 \<Rightarrow> u32" where
  "BitScanReverse undef x = (case filter (bit x) (rev [0..<32]) of [] \<Rightarrow> undef | i # _ \<Rightarrow> word_of_nat i)"

definition leading_bit_scan :: "u32 \<Rightarrow> u8 \<Rightarrow> decoder \<Rightarrow> (u32 \<times> decoder) option" where
  "leading_bit_scan undef cur_byte s =
     (let BitScan = BitScanReverse undef (ucast (NOT cur_byte));
          BitIndex = ucast (6 - BitScan) :: u8;
          pad_cur_byte = ucast cur_byte AND drop_bit (unat BitIndex) 0x7F
      in if BitIndex \<noteq> 0 then
           if multibyte_index s \<ge> 0 then None
           else if BitIndex > 3 then None
           else Some (pad_cur_byte, s\<lparr>is_four_bytes := (BitIndex = 3), multibyte_index := uint BitIndex\<rparr>)
         else Some (pad_cur_byte, s))"

fun bit_scan_loop :: "u32 \<Rightarrow> decoder \<Rightarrow> u8 list \<Rightarrow> u16 list + u16 list" where
  "bit_scan_loop undef s [] = Inl (utf16_str s)"
| "bit_scan_loop undef s (b # bs) =
     (if sint b \<ge> 0 then
        let s = emit (ucast b) s
        in if b \<noteq> 0 then bit_scan_loop undef s bs
           else if multibyte_index s \<ge> 0 then Inl (utf16_str s) else Inr (utf16_str s)
      else (case leading_bit_scan undef b s of
          None \<Rightarrow> Inl (utf16_str s)
        | Some (cur_byte, s) \<Rightarrow>
            if multibyte_index s < 0 then Inl (utf16_str s)
            else bit_scan_loop undef (accumulate cur_byte s) bs))"

definition utf8_to_utf16_bit_scan :: "u32 \<Rightarrow> u8 list \<Rightarrow> u16 list + u16 list" where
  "utf8_to_utf16_bit_scan undef utf8_str = bit_scan_loop undef start utf8_str"

section \<open>Counting leading ones\<close>

definition countl_one :: "u32 \<Rightarrow> nat" where
  "countl_one x = length (takeWhile (bit x) (rev [0..<32]))"

fun continuation :: "nat \<Rightarrow> u32 \<Rightarrow> u8 list \<Rightarrow> (u32 \<times> u8 list) option" where
  "continuation i c [] = None"
| "continuation i c (next_byte # bs) =
     (if 0x80 \<le> next_byte \<and> next_byte \<le> 0xBF then
        let c = push_bit 6 c OR ucast (next_byte AND 0x3F)
        in (case i of 0 \<Rightarrow> Some (c, bs) | Suc i \<Rightarrow> continuation i c bs)
      else None)"

lemma continuation_shorter: "continuation i c bs = Some (c', bs') \<Longrightarrow> length bs' < length bs"
  by (induction i c bs rule: continuation.induct)
    (auto simp: Let_def less_Suc_eq split: if_splits nat.splits)

function new_test_loop :: "u16 list \<Rightarrow> u8 list \<Rightarrow> u16 list + u16 list" where
  "new_test_loop utf16 [] = Inl utf16"
| "new_test_loop utf16 (b # bs) =
     (let c = scast b :: u32;
          sequence =
            (if sint c < 0 then
               let leading_bits = countl_one c
               in if leading_bits < 26 \<or> leading_bits - 26 \<ge> 2 then None
                  else continuation (leading_bits - 26) (c AND drop_bit leading_bits 0xFFFFFFFF) bs
             else Some (c, bs))
      in case sequence of
           None \<Rightarrow> Inl utf16
         | Some (c, bs) \<Rightarrow>
             if c = 0 then Inr (utf16 @ [ucast c]) else new_test_loop (utf16 @ [ucast c]) bs)"
  by pat_completeness auto
termination
  by (relation "measure (length \<circ> snd)")
    (auto simp: Let_def less_Suc_eq dest: continuation_shorter [OF sym] split: if_splits)

definition utf8_to_utf16_new_test :: "u8 list \<Rightarrow> u16 list + u16 list" where
  "utf8_to_utf16_new_test utf8_str = new_test_loop [] utf8_str"

section \<open>UTF-8 and UTF-16 as the standard has them\<close>

definition utf8_encode :: "u32 \<Rightarrow> u8 list" where
  "utf8_encode c =
     (if c < 0x80 then [ucast c]
      else if c < 0x800 then [0xC0 OR ucast (drop_bit 6 c), 0x80 OR ucast (c AND 0x3F)]
      else if c < 0x10000 then
        [0xE0 OR ucast (drop_bit 12 c), 0x80 OR ucast (drop_bit 6 c AND 0x3F), 0x80 OR ucast (c AND 0x3F)]
      else
        [0xF0 OR ucast (drop_bit 18 c), 0x80 OR ucast (drop_bit 12 c AND 0x3F),
         0x80 OR ucast (drop_bit 6 c AND 0x3F), 0x80 OR ucast (c AND 0x3F)])"

definition utf16_encode :: "u32 \<Rightarrow> u16 list" where
  "utf16_encode c =
     (if c < 0x10000 then [ucast c]
      else [0xD800 + ucast (drop_bit 10 (c - 0x10000)), 0xDC00 + ucast ((c - 0x10000) AND 0x3FF)])"

definition text_of :: "(u32 \<Rightarrow> 'a::len word list) \<Rightarrow> u32 list \<Rightarrow> 'a word list" where
  "text_of encode cs = concat (map encode cs) @ [0]"

section \<open>The three decoders are one\<close>

lemma BitMask_bit: "n < 32 \<Longrightarrow> BitMask v (2 ^ n) = bit v n"
  by (auto simp: BitMask_def bit_eq_iff [where 'a = "32 word"] bit_and_iff bit_exp_iff)

lemma bittestandreset_mask: "n < 32 \<Longrightarrow> BitMaskAndReset v (2 ^ n) = bittestandreset v n"
  by (auto simp: BitMaskAndReset_def bittestandreset_def unset_bit_eq_and_not push_bit_eq_mult
      bit_eq_iff [where 'a = "32 word"] bit_and_iff bit_not_iff bit_exp_iff)

lemma leading_masking_bits: "leading_masking = leading_bit_test"
proof -
  have m: "BitMaskAndReset v 0x40 = bittestandreset v 6" "BitMaskAndReset v 0x20 = bittestandreset v 5"
    "BitMaskAndReset v 0x10 = bittestandreset v 4" "BitMask v 0x08 = bit v 3" for v
    using bittestandreset_mask [of 6 v] bittestandreset_mask [of 5 v] bittestandreset_mask [of 4 v] BitMask_bit [of 3 v]
    by simp_all
  show ?thesis
    unfolding leading_masking_def [abs_def] leading_bit_test_def [abs_def] m by (rule refl)
qed

lemma bit_scast_byte: "bit (scast (b :: u8) :: u32) n \<longleftrightarrow> n < 32 \<and> (if n < 8 then bit b n else bit b 7)"
  by (cases "n < 7"; cases "n = 7") (auto simp: bit_signed_iff min_def)

lemma bit_ucast_byte: "bit (ucast (b :: u8) :: u32) n \<longleftrightarrow> n < 8 \<and> bit b n"
  by (auto simp: bit_ucast_word dest: bit_imp_le_length)

lemma ucast_byte: "(ucast (ucast (b :: u8) :: u32) :: u16) = ucast b" "(ucast b :: u32) = 0 \<longleftrightarrow> b = 0"
proof -
  show "(ucast (ucast b :: u32) :: u16) = ucast b"
    by (rule bit_word_eqI) (simp add: bit_ucast_word)
  show "(ucast b :: u32) = 0 \<longleftrightarrow> b = 0"
    by (auto simp: bit_eq_iff [where 'a = "32 word"] bit_eq_iff [where 'a = "8 word"] bit_ucast_byte
        dest: bit_imp_le_length)
qed

lemma sign_bit:
  "0 \<le> sint (b :: u8) \<longleftrightarrow> \<not> bit b 7" "sint b < 0 \<longleftrightarrow> bit b 7"
  "0 \<le> sint (scast b :: u32) \<longleftrightarrow> \<not> bit b 7" "sint (scast b :: u32) < 0 \<longleftrightarrow> bit b 7"
  "0 \<le> sint (ucast b :: u32)"
  using bit_last_iff [of "ucast b :: u32"] bit_last_iff [of b] bit_last_iff [of "scast b :: u32"] by (auto simp: bit_scast_byte bit_ucast_byte)

text \<open>The byte a sequence begins or goes on with, below bit 7.\<close>

lemma low_byte:
  "bit (b :: u8) 7 \<Longrightarrow> scast b AND 0x7F = unset_bit 7 (ucast b :: u32)"
  "\<not> bit (b :: u8) 7 \<Longrightarrow> (scast b :: u32) = ucast b \<and> unset_bit 7 (ucast b) = (ucast b :: u32)"
proof -
  have m: "(0x7F :: u32) = mask 7" by (simp add: mask_eq_exp_minus_1)
  show "scast b AND 0x7F = unset_bit 7 (ucast b :: u32)" if "bit b 7"
    unfolding m using that
    by (intro bit_word_eqI) (auto simp: bit_and_iff bit_mask_iff bit_scast_byte bit_ucast_byte bit_unset_bit_iff)
  show "(scast b :: u32) = ucast b \<and> unset_bit 7 (ucast b) = (ucast b :: u32)" if "\<not> bit b 7"
    using that
    by (auto intro!: bit_word_eqI simp: bit_scast_byte bit_ucast_byte bit_unset_bit_iff split: if_splits)
qed

lemma masking_loop_bits: "masking_loop s bs = bit_test_loop s bs"
proof (induction s bs rule: bit_test_loop.induct)
  case (2 s b bs)
  show ?case
  proof (cases "bit b 7")
    case True
    then show ?thesis
      using 2 by (simp add: bittestandreset_def sign_bit low_byte leading_masking_bits bit_ucast_word Let_def
          split: option.split prod.split)
  next
    case False
    then show ?thesis
      using 2 by (simp add: bittestandreset_def sign_bit low_byte bit_ucast_word Let_def)
  qed
qed simp

lemma BitScanReverse_not:
  assumes "bit (b :: u8) 7"
  shows "BitScanReverse undef (ucast (NOT b)) =
    (if \<not> bit b 6 then 6 else if \<not> bit b 5 then 5 else if \<not> bit b 4 then 4 else if \<not> bit b 3 then 3
     else if \<not> bit b 2 then 2 else if \<not> bit b 1 then 1 else if \<not> bit b 0 then 0 else undef)"
proof -
  have "rev [0..<32] = rev [8..<32] @ [7, 6, 5, 4, 3, 2, 1, 0 :: nat]"
    by (simp add: upt_rec)
  moreover have "filter (bit (ucast (NOT b) :: u32)) (rev [8..<32]) = []"
    by (auto simp: filter_empty_conv bit_ucast_word dest: bit_imp_le_length)
  ultimately show ?thesis
    using assms by (simp add: BitScanReverse_def bit_ucast_word bit_not_iff)
qed

text \<open>A leading byte is only accepted outside a sequence, where no fourth byte is awaited.\<close>

definition idle_clear :: "decoder \<Rightarrow> bool" where
  "idle_clear s \<longleftrightarrow> (multibyte_index s < 0 \<longrightarrow> \<not> is_four_bytes s)"

lemma idle_clear_kept:
  "idle_clear start" "idle_clear (emit u s) = idle_clear s"
  "leading_bit_test c s = Some (c', s') \<Longrightarrow> idle_clear s \<Longrightarrow> idle_clear s'"
  "idle_clear (accumulate c s)"
  by (auto simp: idle_clear_def start_def emit_def leading_bit_test_def accumulate_def Let_def
      split: prod.splits if_splits)

lemma payload_bits:
  "\<not> bit (b :: u8) 6 \<Longrightarrow> ucast b AND 0x7F = (unset_bit 6 (unset_bit 7 (ucast b)) :: u32)"
  "\<not> bit b 5 \<Longrightarrow> ucast b AND 0x3F = (unset_bit 5 (unset_bit 6 (unset_bit 7 (ucast b))) :: u32)"
  "\<not> bit b 4 \<Longrightarrow> ucast b AND 0x1F = (unset_bit 4 (unset_bit 5 (unset_bit 6 (unset_bit 7 (ucast b)))) :: u32)"
  "ucast b AND 0x0F = (unset_bit 4 (unset_bit 5 (unset_bit 6 (unset_bit 7 (ucast b)))) :: u32)"
proof -
  have m: "(0x7F :: u32) = mask 7" "(0x3F :: u32) = mask 6" "(0x1F :: u32) = mask 5" "(0x0F :: u32) = mask 4"
    by (simp_all add: mask_eq_exp_minus_1)
  note bits = bit_and_iff bit_drop_bit_eq bit_mask_iff bit_unset_bit_iff bit_ucast_byte
  have small: "n < 8 \<Longrightarrow> n = 0 \<or> n = 1 \<or> n = 2 \<or> n = 3 \<or> n = 4 \<or> n = 5 \<or> n = 6 \<or> n = (7 :: nat)" for n by linarith
  show "ucast b AND 0x7F = (unset_bit 6 (unset_bit 7 (ucast b)) :: u32)" if "\<not> bit b 6"
    unfolding m using that by (intro bit_word_eqI) (auto simp: bits dest: small)
  show "ucast b AND 0x0F = (unset_bit 4 (unset_bit 5 (unset_bit 6 (unset_bit 7 (ucast b)))) :: u32)"
    unfolding m by (rule bit_word_eqI; auto simp: bits dest: small)+
  show "ucast b AND 0x3F = (unset_bit 5 (unset_bit 6 (unset_bit 7 (ucast b))) :: u32)" if "\<not> bit b 5"
    unfolding m using that by (intro bit_word_eqI) (auto simp: bits dest: small)
  show "ucast b AND 0x1F = (unset_bit 4 (unset_bit 5 (unset_bit 6 (unset_bit 7 (ucast b)))) :: u32)" if "\<not> bit b 4"
    unfolding m using that by (intro bit_word_eqI) (auto simp: bits dest: small)
qed

lemma leading_bit_scan_bits:
  assumes "bit b 7" "idle_clear s" "b \<noteq> 0xFF \<or> undef \<le> 2"
  shows "leading_bit_scan undef b s = leading_bit_test (unset_bit 7 (ucast b)) s"
proof -
  have all: "b = 0xFF" if "bit b 0" "bit b 1" "bit b 2" "bit b 3" "bit b 4" "bit b 5" "bit b 6"
  proof (rule bit_word_eqI)
    have m: "(0xFF :: u8) = mask 8" by (simp add: mask_eq_exp_minus_1)
    fix n assume "n < LENGTH(8)"
    then have "n = 0 \<or> n = 1 \<or> n = 2 \<or> n = 3 \<or> n = 4 \<or> n = 5 \<or> n = 6 \<or> n = 7" by simp linarith
    then show "bit b n = bit (0xFF :: u8) n"
      using that assms(1) unfolding m by (auto simp: bit_mask_iff)
  qed
  have undef: "ucast (6 - undef) > (3 :: u8)" if "undef \<le> 2"
  proof -
    from that have "unat undef \<le> 2" by (simp add: word_le_nat_alt)
    then consider "unat undef = 0" | "unat undef = 1" | "unat undef = 2" by linarith
    moreover have "undef = word_of_nat (unat undef)" by simp
    ultimately show ?thesis by cases (simp_all only:, simp_all)
  qed
  note defs = leading_bit_scan_def leading_bit_test_def bittestandreset_def Let_def
    BitScanReverse_not [OF assms(1)] bit_unset_bit_iff bit_ucast_byte
  consider "\<not> bit b 6" | "bit b 6" "\<not> bit b 5" | "bit b 6" "bit b 5" "\<not> bit b 4"
    | "bit b 6" "bit b 5" "bit b 4" "\<not> bit b 3" | "bit b 6" "bit b 5" "bit b 4" "bit b 3" by blast
  then show ?thesis
  proof cases
    case 1 then show ?thesis by (simp add: defs payload_bits)
  next
    case 2 then show ?thesis using assms(2) by (simp add: defs payload_bits idle_clear_def)
  next
    case 3 then show ?thesis by (simp add: defs payload_bits)
  next
    case 4 then show ?thesis by (simp add: defs payload_bits)
  next
    case 5
    have "ucast (6 - BitScanReverse undef (ucast (NOT b))) > (3 :: u8)"
      using 5 all undef assms(3) by (simp add: BitScanReverse_not [OF assms(1)])
    moreover from this have "ucast (6 - BitScanReverse undef (ucast (NOT b))) \<noteq> (0 :: u8)" by auto
    moreover have "leading_bit_test (unset_bit 7 (ucast b)) s = None"
      using 5 by (simp add: leading_bit_test_def bittestandreset_def bit_unset_bit_iff bit_ucast_byte)
    ultimately show ?thesis by (simp add: leading_bit_scan_def Let_def)
  qed
qed

lemma bit_scan_loop_bits:
  assumes "idle_clear s" "0xFF \<notin> set bs \<or> undef \<le> 2"
  shows "bit_scan_loop undef s bs = bit_test_loop s bs"
  using assms
proof (induction s bs rule: bit_test_loop.induct)
  case (2 s b bs)
  have rest: "0xFF \<in> set bs \<longrightarrow> undef \<le> 2" using 2(4) by auto
  show ?case
  proof (cases "bit b 7")
    case True
    then have "leading_bit_scan undef b s = leading_bit_test (unset_bit 7 (ucast b)) s"
      using 2(3,4) by (intro leading_bit_scan_bits) auto
    with True 2 show ?thesis
      by (simp add: bittestandreset_def sign_bit bit_ucast_byte Let_def idle_clear_kept rest
          split: option.split prod.split)
  next
    case False
    with 2 show ?thesis
      by (simp add: bittestandreset_def sign_bit low_byte bit_ucast_byte Let_def idle_clear_kept rest ucast_byte)
  qed
qed simp

text \<open>C22: The three decoders written with bit tests, with masks and with bit scans are one function:
  they write the same units and fail at the same byte on every byte string, valid or not.  The
  only difference there can be is the byte 0xFF, for which the bit scan's result is open; with
  the processors' behaviour (the operand stays zero) there is none.\<close>

theorem decoders_agree:
  assumes "0xFF \<notin> set utf8_str \<or> undef \<le> 2"
  shows "utf8_to_utf16_masking utf8_str = utf8_to_utf16_bit_test_reset utf8_str
    \<and> utf8_to_utf16_bit_scan undef utf8_str = utf8_to_utf16_bit_test_reset utf8_str"
  unfolding utf8_to_utf16_masking_def utf8_to_utf16_bit_scan_def utf8_to_utf16_bit_test_reset_def
  using bit_scan_loop_bits [OF idle_clear_kept(1) assms] by (simp add: masking_loop_bits)


theorem decoders_agree_witness:
  "utf8_to_utf16_masking [0xC3, 0x29, 0] = utf8_to_utf16_bit_test_reset [0xC3, 0x29, 0]
    \<and> utf8_to_utf16_bit_scan 0 [0xC3, 0x29, 0] = utf8_to_utf16_bit_test_reset [0xC3, 0x29, 0]"
  by (rule decoders_agree) simp

section \<open>What the decoders make of encoded text\<close>

definition idle :: "u16 list \<Rightarrow> decoder" where
  "idle out = \<lparr>codepoint = 0, multibyte_index = - 1, is_four_bytes = False, utf16_str = out\<rparr>"

definition within :: "u32 \<Rightarrow> int \<Rightarrow> bool \<Rightarrow> u16 list \<Rightarrow> decoder" where
  "within c i four out = \<lparr>codepoint = c, multibyte_index = i, is_four_bytes = four, utf16_str = out\<rparr>"

lemma idle_within: "idle out = within 0 (- 1) False out"
  by (simp add: idle_def within_def)

text \<open>One byte of a sequence.\<close>

lemma byte_steps:
  "bit b 7 \<Longrightarrow> bit b 6 \<Longrightarrow> \<not> bit b 5 \<Longrightarrow>
    bit_test_loop (idle out) (b # bs) = bit_test_loop (within (push_bit 6 (ucast b AND 0x3F)) 0 False out) bs"
  "bit b 7 \<Longrightarrow> bit b 6 \<Longrightarrow> bit b 5 \<Longrightarrow> \<not> bit b 4 \<Longrightarrow>
    bit_test_loop (idle out) (b # bs) = bit_test_loop (within (push_bit 12 (ucast b AND 0x1F)) 1 False out) bs"
  "bit b 7 \<Longrightarrow> bit b 6 \<Longrightarrow> bit b 5 \<Longrightarrow> bit b 4 \<Longrightarrow> \<not> bit b 3 \<Longrightarrow>
    bit_test_loop (idle out) (b # bs) = bit_test_loop (within (push_bit 18 (ucast b AND 0x0F)) 2 True out) bs"
  "bit b 7 \<Longrightarrow> \<not> bit b 6 \<Longrightarrow> 0 < i \<Longrightarrow>
    bit_test_loop (within c i four out) (b # bs)
      = bit_test_loop (within (c OR push_bit (6 * nat i) (ucast b AND 0x7F)) (i - 1) four out) bs"
  by (simp_all add: bittestandreset_def leading_bit_test_def bit_unset_bit_iff bit_ucast_byte payload_bits
      accumulate_def Let_def idle_def within_def)

definition code_units :: "u32 \<Rightarrow> u16 list" where
  "code_units c =
     (if c < 0x10000 then [ucast c] else [ucast (surrogates c), ucast (drop_bit 16 (surrogates c))])"

lemma last_byte:
  assumes "bit b 7" "\<not> bit b 6"
  shows "bit_test_loop (within c 0 False out) (b # bs) = bit_test_loop (idle (out @ [ucast (c OR (ucast b AND 0x7F))])) bs"
    and "bit_test_loop (within c 0 True out) (b # bs)
      = (let w = surrogates (c OR (ucast b AND 0x7F)) in bit_test_loop (idle (out @ [ucast w, ucast (drop_bit 16 w)])) bs)"
  using assms
  by (simp_all add: bittestandreset_def leading_bit_test_def bit_unset_bit_iff bit_ucast_byte payload_bits
      accumulate_def Let_def idle_def within_def emit_def)

lemma single_byte:
  "\<not> bit b 7 \<Longrightarrow> b \<noteq> 0 \<Longrightarrow> bit_test_loop (idle out) (b # bs) = bit_test_loop (idle (out @ [ucast b])) bs"
  "bit_test_loop (idle out) (0 # bs) = Inr (out @ [0])"
  by (simp_all add: bittestandreset_def low_byte bit_ucast_byte ucast_byte idle_def emit_def)

text \<open>The bits a byte of an encoded code point has.\<close>

lemma below_bits:
  assumes "unat (c :: u32) < 2 ^ n" "n \<le> i"
  shows "\<not> bit c i"
proof -
  have "unat (take_bit n c) = unat c"
    using assms(1) by (simp add: unsigned_take_bit_eq take_bit_nat_eq_self)
  then have "take_bit n c = c" by (simp only: word_unat_eq_iff)
  then have "bit c i \<longleftrightarrow> bit (take_bit n c) i" by simp
  with assms(2) show ?thesis by (simp add: bit_take_bit_iff)
qed

lemma prefix_masks:
  "(0x80 :: u8) = push_bit 7 (mask 1)" "(0xC0 :: u8) = push_bit 6 (mask 2)"
  "(0xE0 :: u8) = push_bit 5 (mask 3)" "(0xF0 :: u8) = push_bit 4 (mask 4)"
  "(0x7F :: u32) = mask 7" "(0x3F :: u32) = mask 6" "(0x1F :: u32) = mask 5" "(0x0F :: u32) = mask 4"
  by (simp_all add: mask_eq_exp_minus_1)

lemma prefix_bit:
  "bit (0x80 :: int) n \<longleftrightarrow> n = 7" "bit (0xC0 :: int) n \<longleftrightarrow> n = 6 \<or> n = 7"
  "bit (0xE0 :: int) n \<longleftrightarrow> n = 5 \<or> n = 6 \<or> n = 7" "bit (0xF0 :: int) n \<longleftrightarrow> n = 4 \<or> n = 5 \<or> n = 6 \<or> n = 7"
  "bit (0x7F :: int) n \<longleftrightarrow> n < 7" "bit (0x3F :: int) n \<longleftrightarrow> n < 6" "bit (0x1F :: int) n \<longleftrightarrow> n < 5"
  "bit (0x0F :: int) n \<longleftrightarrow> n < 4"
proof -
  have "(0x80 :: int) = push_bit 7 (mask 1)" "(0xC0 :: int) = push_bit 6 (mask 2)"
    "(0xE0 :: int) = push_bit 5 (mask 3)" "(0xF0 :: int) = push_bit 4 (mask 4)"
    "(0x7F :: int) = mask 7" "(0x3F :: int) = mask 6" "(0x1F :: int) = mask 5" "(0x0F :: int) = mask 4"
    by (simp_all add: mask_eq_exp_minus_1)
  then show "bit (0x80 :: int) n \<longleftrightarrow> n = 7" "bit (0xC0 :: int) n \<longleftrightarrow> n = 6 \<or> n = 7"
    "bit (0xE0 :: int) n \<longleftrightarrow> n = 5 \<or> n = 6 \<or> n = 7" "bit (0xF0 :: int) n \<longleftrightarrow> n = 4 \<or> n = 5 \<or> n = 6 \<or> n = 7"
    "bit (0x7F :: int) n \<longleftrightarrow> n < 7" "bit (0x3F :: int) n \<longleftrightarrow> n < 6" "bit (0x1F :: int) n \<longleftrightarrow> n < 5"
    "bit (0x0F :: int) n \<longleftrightarrow> n < 4"
    by (simp_all only: bit_push_bit_iff bit_mask_iff) auto
qed

lemmas prefix_bits = prefix_bit bit_or_iff bit_and_iff bit_ucast_word

lemma tail_byte:
  fixes x :: u32
  shows "bit (0x80 OR ucast (x AND 0x3F) :: u8) 7" "\<not> bit (0x80 OR ucast (x AND 0x3F) :: u8) 6"
    "ucast (0x80 OR ucast (x AND 0x3F) :: u8) AND 0x7F = x AND 0x3F"
proof -
  show "bit (0x80 OR ucast (x AND 0x3F) :: u8) 7" "\<not> bit (0x80 OR ucast (x AND 0x3F) :: u8) 6"
    by (simp_all add: prefix_bits)
  show "ucast (0x80 OR ucast (x AND 0x3F) :: u8) AND 0x7F = x AND 0x3F"
    by (rule bit_word_eqI) (auto simp: prefix_bits)
qed

lemma lead_byte:
  fixes y :: u32
  shows "unat y < 2 ^ 5 \<Longrightarrow> bit (0xC0 OR ucast y :: u8) 7 \<and> bit (0xC0 OR ucast y :: u8) 6
      \<and> \<not> bit (0xC0 OR ucast y :: u8) 5 \<and> ucast (0xC0 OR ucast y :: u8) AND 0x3F = y"
    and "unat y < 2 ^ 4 \<Longrightarrow> bit (0xE0 OR ucast y :: u8) 7 \<and> bit (0xE0 OR ucast y :: u8) 6
      \<and> bit (0xE0 OR ucast y :: u8) 5 \<and> \<not> bit (0xE0 OR ucast y :: u8) 4 \<and> ucast (0xE0 OR ucast y :: u8) AND 0x1F = y"
    and "unat y < 2 ^ 3 \<Longrightarrow> bit (0xF0 OR ucast y :: u8) 7 \<and> bit (0xF0 OR ucast y :: u8) 6
      \<and> bit (0xF0 OR ucast y :: u8) 5 \<and> bit (0xF0 OR ucast y :: u8) 4 \<and> \<not> bit (0xF0 OR ucast y :: u8) 3
      \<and> ucast (0xF0 OR ucast y :: u8) AND 0x0F = y"
proof -
  have payload: "ucast (p OR ucast y :: u8) AND mask k = y"
    if "unat y < 2 ^ n" "n \<le> k" "n \<le> 8" "\<And>i. i < k \<Longrightarrow> \<not> bit p i" for n k and p :: u8
  proof (rule bit_word_eqI)
    fix i assume "i < LENGTH(32)"
    then have i: "i < 32" by simp
    with that below_bits [OF that(1), of i] show "bit (ucast (p OR ucast y :: u8) AND mask k :: u32) i = bit y i"
      by (cases "i < n") (auto simp: bit_mask_iff bit_or_iff bit_and_iff bit_ucast_word)
  qed
  show "bit (0xC0 OR ucast y :: u8) 7 \<and> bit (0xC0 OR ucast y :: u8) 6
      \<and> \<not> bit (0xC0 OR ucast y :: u8) 5 \<and> ucast (0xC0 OR ucast y :: u8) AND 0x3F = y" if y: "unat y < 2 ^ 5"
    using below_bits [OF y, of 5] payload [OF y, of 6 "0xC0", folded prefix_masks]
    by (simp add: prefix_bits)
  show "bit (0xE0 OR ucast y :: u8) 7 \<and> bit (0xE0 OR ucast y :: u8) 6
      \<and> bit (0xE0 OR ucast y :: u8) 5 \<and> \<not> bit (0xE0 OR ucast y :: u8) 4 \<and> ucast (0xE0 OR ucast y :: u8) AND 0x1F = y"
    if y: "unat y < 2 ^ 4"
    using below_bits [OF y, of 4] payload [OF y, of 5 "0xE0", folded prefix_masks]
    by (simp add: prefix_bits)
  show "bit (0xF0 OR ucast y :: u8) 7 \<and> bit (0xF0 OR ucast y :: u8) 6
      \<and> bit (0xF0 OR ucast y :: u8) 5 \<and> bit (0xF0 OR ucast y :: u8) 4 \<and> \<not> bit (0xF0 OR ucast y :: u8) 3
      \<and> ucast (0xF0 OR ucast y :: u8) AND 0x0F = y"
    if y: "unat y < 2 ^ 3"
    using below_bits [OF y, of 3] payload [OF y, of 4 "0xF0", folded prefix_masks]
    by (simp add: prefix_bits)
qed

lemma drop_bit_below: "unat (c :: u32) < 2 ^ (n + k) \<Longrightarrow> unat (drop_bit k c) < 2 ^ n"
  using unsigned_less [of c, where 'a = nat]
  by (subst unsigned_drop_bit_eq) (simp add: drop_bit_eq_div less_mult_imp_div_less power_add take_bit_nat_eq_self)

lemma rebuild:
  fixes c :: u32
  shows "push_bit 6 (drop_bit 6 c) OR (c AND 0x3F) = c"
    "push_bit 12 (drop_bit 12 c) OR push_bit 6 (drop_bit 6 c AND 0x3F) OR (c AND 0x3F) = c"
    "push_bit 18 (drop_bit 18 c) OR push_bit 12 (drop_bit 12 c AND 0x3F) OR push_bit 6 (drop_bit 6 c AND 0x3F)
      OR (c AND 0x3F) = c"
proof -
  have bit_shifted: "bit (push_bit k (drop_bit k c)) n \<longleftrightarrow> k \<le> n \<and> bit c n"
    "bit (push_bit k (take_bit j (drop_bit k c))) n \<longleftrightarrow> k \<le> n \<and> n < k + j \<and> bit c n" for k j n
    by (auto simp: bit_push_bit_iff bit_drop_bit_eq bit_take_bit_iff dest: bit_imp_le_length)
  have m: "x AND 0x3F = take_bit 6 x" for x :: u32 by (simp add: take_bit_eq_mask prefix_masks)
  show "push_bit 6 (drop_bit 6 c) OR (c AND 0x3F) = c"
    "push_bit 12 (drop_bit 12 c) OR push_bit 6 (drop_bit 6 c AND 0x3F) OR (c AND 0x3F) = c"
    "push_bit 18 (drop_bit 18 c) OR push_bit 12 (drop_bit 12 c AND 0x3F) OR push_bit 6 (drop_bit 6 c AND 0x3F)
      OR (c AND 0x3F) = c"
    unfolding m by (rule bit_word_eqI; auto simp: bit_or_iff bit_shifted bit_take_bit_iff)+
qed

declare bit_test_loop.simps(2) [simp del]

lemma utf8_encode_cases:
  assumes "c \<noteq> 0" "c < 0x110000"
  obtains (one) "c < 0x10000" "utf8_encode c = [ucast c]" "\<not> bit (ucast c :: u8) 7" "(ucast c :: u8) \<noteq> 0"
      "(ucast (ucast c :: u8) :: u16) = ucast c"
    | (two) "c < 0x10000" "utf8_encode c = [0xC0 OR ucast (drop_bit 6 c), 0x80 OR ucast (c AND 0x3F)]"
      "unat (drop_bit 6 c) < 2 ^ 5"
    | (three) "c < 0x10000" "utf8_encode c =
        [0xE0 OR ucast (drop_bit 12 c), 0x80 OR ucast (drop_bit 6 c AND 0x3F), 0x80 OR ucast (c AND 0x3F)]"
      "unat (drop_bit 12 c) < 2 ^ 4"
    | (four) "\<not> c < 0x10000" "utf8_encode c =
        [0xF0 OR ucast (drop_bit 18 c), 0x80 OR ucast (drop_bit 12 c AND 0x3F),
         0x80 OR ucast (drop_bit 6 c AND 0x3F), 0x80 OR ucast (c AND 0x3F)]"
      "unat (drop_bit 18 c) < 2 ^ 3"
proof -
  have c: "unat c < 0x110000" using assms(2) by (simp add: word_less_nat_alt)
  consider "unat c < 2 ^ 7" | "2 ^ 7 \<le> unat c" "unat c < 2 ^ 11" | "2 ^ 11 \<le> unat c" "unat c < 2 ^ 16"
    | "2 ^ 16 \<le> unat c" "unat c < 2 ^ 21" using c by fastforce
  then show thesis
  proof cases
    case 1
    have "(ucast (ucast c :: u8) :: u32) = c"
      using below_bits [OF 1] by (intro bit_word_eqI) (auto simp: bit_ucast_word not_le [symmetric])
    with assms(1) have "(ucast c :: u8) \<noteq> 0" "(ucast (ucast c :: u8) :: u16) = ucast c"
      by (auto simp: ucast_byte(1) dest: arg_cong [where f = "\<lambda>x :: u32. ucast x :: u16"])
    moreover have "\<not> bit (ucast c :: u8) 7" using below_bits [OF 1, of 7] by (simp add: bit_ucast_word)
    ultimately show thesis using 1 by (intro one) (simp_all add: utf8_encode_def word_less_nat_alt)
  next
    case 2
    then have "unat (drop_bit 6 c) < 2 ^ 5" by (intro drop_bit_below) simp
    with 2 show thesis by (intro two) (simp_all add: utf8_encode_def word_less_nat_alt)
  next
    case 3
    then have "unat (drop_bit 12 c) < 2 ^ 4" by (intro drop_bit_below) simp
    with 3 show thesis by (intro three) (simp_all add: utf8_encode_def word_less_nat_alt)
  next
    case 4
    then have "unat (drop_bit 18 c) < 2 ^ 3" by (intro drop_bit_below) simp
    with 4 show thesis by (intro four) (simp_all add: utf8_encode_def word_less_nat_alt)
  qed
qed

lemmas tail_simps = tail_byte or.assoc rebuild [simplified]

lemma decode_code_point:
  assumes "c \<noteq> 0" "c < 0x110000"
  shows "bit_test_loop (idle out) (utf8_encode c @ bs) = bit_test_loop (idle (out @ code_units c)) bs"
  using assms
proof (cases rule: utf8_encode_cases)
  case one
  then show ?thesis by (simp add: code_units_def single_byte)
next
  case two
  then show ?thesis using lead_byte(1) [OF two(3)]
    by (simp add: code_units_def byte_steps last_byte tail_simps)
next
  case three
  then show ?thesis using lead_byte(2) [OF three(3)]
    by (simp add: code_units_def byte_steps last_byte tail_simps)
next
  case four
  then show ?thesis using lead_byte(3) [OF four(3)]
    by (simp add: code_units_def byte_steps last_byte tail_simps Let_def)
qed

lemma decode_text:
  assumes "\<forall>c \<in> set cs. c \<noteq> 0 \<and> c < 0x110000"
  shows "utf8_to_utf16_bit_test_reset (text_of utf8_encode cs) = Inr (text_of code_units cs)"
proof -
  have "bit_test_loop (idle out) (concat (map utf8_encode cs) @ bs)
      = bit_test_loop (idle (out @ concat (map code_units cs))) bs" for out bs
    using assms by (induction cs arbitrary: out) (simp_all add: decode_code_point)
  from this [of "[]" "[0]"] show ?thesis
    by (simp add: utf8_to_utf16_bit_test_reset_def start_def idle_def [symmetric] text_of_def single_byte)
qed

text \<open>
  The surrogates are the standard's exactly in the odd planes: the code clears bit 16 where the
  standard subtracts \<open>0x10000\<close>.
\<close>

lemma small_16:
  "(n :: nat) < 16 \<Longrightarrow> n \<in> {0, 1, 2, 3, 4, 5, 6, 7, 8, 9, 10, 11, 12, 13, 14, 15}"
  by simp presburger

lemma or_is_add:
  assumes "unat (x :: u32) < 2 ^ k" "k \<le> 16"
  shows "push_bit k y OR (ucast x :: u16) = push_bit k y + ucast x"
  using below_bits [OF assms(1)]
  by (intro disjunctive_add [symmetric]) (auto simp: bit_push_bit_iff bit_ucast_word)

lemma bit_16_ge: "bit (c :: u32) 16 \<Longrightarrow> 2 ^ 16 \<le> unat c"
  using below_bits [of c 16 16] by linarith

lemma unat_minus_16: "2 ^ 16 \<le> unat c \<Longrightarrow> unat (c - 0x10000 :: u32) = unat c - 0x10000"
  by (simp add: unat_sub word_le_nat_alt)

lemma surrogate_units:
  assumes c: "unat c < 2 ^ 21"
  shows "(ucast (surrogates c) :: u16) = 0xD800 + ucast (drop_bit 10 (unset_bit 16 c))"
    and "(ucast (drop_bit 16 (surrogates c)) :: u16) = 0xDC00 + ucast (take_bit 10 c)"
proof -
  have k: "(0x3FF :: u32) = mask 10" "(0x103FF :: u32) = mask 10 OR push_bit 16 (mask 1)"
    by (simp_all add: mask_eq_exp_minus_1)
  have "(ucast (surrogates c) :: u16) = 0xD800 OR ucast (drop_bit 10 (unset_bit 16 c))"
    unfolding surrogates_def k
    by (rule bit_word_eqI)
      (auto simp: bit_ucast_word bit_or_iff bit_and_iff bit_not_iff bit_drop_bit_eq bit_unset_bit_iff
        bit_push_bit_iff bit_mask_iff dest!: small_16)
  also have "\<dots> = 0xD800 + ucast (drop_bit 10 (unset_bit 16 c))"
  proof -
    have "unat (drop_bit 10 (unset_bit 16 c)) < 2 ^ 11"
    proof (rule drop_bit_below)
      show "unat (unset_bit 16 c) < 2 ^ (11 + 10)"
        using c bit_16_ge [of c] by (auto simp: unset_bit_eq unat_minus_16)
    qed
    from or_is_add [OF this, of 27] show ?thesis by simp
  qed
  finally show "(ucast (surrogates c) :: u16) = 0xD800 + ucast (drop_bit 10 (unset_bit 16 c))" .
  have "(ucast (drop_bit 16 (surrogates c)) :: u16) = 0xDC00 OR ucast (take_bit 10 c)"
    unfolding surrogates_def k
    by (rule bit_word_eqI)
      (use below_bits [OF c] in \<open>auto simp: bit_ucast_word bit_or_iff bit_and_iff bit_not_iff bit_drop_bit_eq
        bit_take_bit_iff bit_push_bit_iff bit_mask_iff dest!: small_16\<close>)
  also have "\<dots> = 0xDC00 + ucast (take_bit 10 c)"
  proof -
    have "unat (take_bit 10 c) < 2 ^ 10"
      by (simp only: unsigned_take_bit_eq) (simp add: take_bit_eq_mod)
    from or_is_add [OF this, of 55] show ?thesis by simp
  qed
  finally show "(ucast (drop_bit 16 (surrogates c)) :: u16) = 0xDC00 + ucast (take_bit 10 c)" .
qed

lemma minus_16_low: "(c - 0x10000) AND 0x3FF = take_bit 10 (c :: u32)"
proof -
  have "take_bit 10 (k - 0x10000) = take_bit 10 k" for k :: int
  proof -
    have "take_bit 10 (take_bit 10 k - take_bit 10 0x10000) = take_bit 10 (k - 0x10000)" by (rule take_bit_diff)
    then show ?thesis by simp
  qed
  then have "take_bit 10 (c - 0x10000) = take_bit 10 c" by transfer (simp add: min_def)
  then show ?thesis by (simp add: take_bit_eq_mask mask_eq_exp_minus_1)
qed

lemma code_units_standard:
  assumes "c < 0x110000"
  shows "code_units c = utf16_encode c \<longleftrightarrow> c < 0x10000 \<or> bit c 16"
proof (cases "c < 0x10000")
  case True
  then show ?thesis by (simp add: code_units_def utf16_encode_def)
next
  case False
  then have n: "2 ^ 16 \<le> unat c" "unat c < 0x110000"
    using assms by (simp_all add: word_less_nat_alt)
  obtain k where "unat c = 2 ^ 16 + k" using n(1) by (rule le_Suc_ex [THEN exE])
  then have k: "unat c = 64 * 1024 + k" by simp
  have parts: "unat c - 0x10000 = k" "unat c div 1024 = 64 + k div 1024"
    unfolding k by (simp, rule div_mult_self3, simp)
  have high: "0xD800 + ucast (drop_bit 10 (unset_bit 16 c)) = (0xD800 + ucast (drop_bit 10 (c - 0x10000)) :: u16)
      \<longleftrightarrow> bit c 16"
  proof (cases "bit c 16")
    case True
    then show ?thesis by (simp add: unset_bit_eq)
  next
    case plane: False
    have h: "unat (drop_bit 10 x) = unat x div 1024" for x :: u32
      using unsigned_less [of x, where 'a = nat]
      by (subst unsigned_drop_bit_eq) (simp add: drop_bit_eq_div take_bit_nat_eq_self)
    have small: "unat (ucast x :: u16) = unat x" if "unat x < 2 ^ 16" for x :: u32
      using that by (simp add: unsigned_ucast_eq take_bit_nat_eq_self)
    have "unat c div 1024 < 2 ^ 16" using n(2) by (simp add: div_less_iff_less_mult)
    moreover from this have "k div 1024 < 2 ^ 16" by (simp add: parts(2))
    ultimately have "unat (ucast (drop_bit 10 c) :: u16) = unat c div 1024"
      "unat (ucast (drop_bit 10 (c - 0x10000)) :: u16) = k div 1024"
      by (simp_all only: h small unat_minus_16 [OF n(1)] parts(1))
    then have "unat (ucast (drop_bit 10 c) :: u16) \<noteq> unat (ucast (drop_bit 10 (c - 0x10000)) :: u16)"
      by (simp only: parts)
    then have "(ucast (drop_bit 10 c) :: u16) \<noteq> ucast (drop_bit 10 (c - 0x10000))" by metis
    with plane show ?thesis by (simp add: unset_bit_eq)
  qed
  have "unat c < 2 ^ 21" using n by simp
  note units = surrogate_units [OF this]
  show ?thesis
    using False high by (simp add: code_units_def utf16_encode_def units minus_16_low)
qed

lemma even_plane_units:
  assumes "0x10000 \<le> c" "c < 0x110000" "\<not> bit c 16"
  shows "code_units c = [utf16_encode c ! 0 + 0x40, utf16_encode c ! 1]"
proof -
  have n: "2 ^ 16 \<le> unat c" "unat c < 0x110000"
    using assms by (simp_all add: word_less_nat_alt word_le_nat_alt)
  obtain k where k: "unat c = 2 ^ 16 + k" using n(1) by (rule le_Suc_ex [THEN exE])
  have h: "unat (drop_bit 10 x) = unat x div 1024" for x :: u32
    using unsigned_less [of x, where 'a = nat]
    by (subst unsigned_drop_bit_eq) (simp add: drop_bit_eq_div take_bit_nat_eq_self)
  have "unat c div 1024 = 64 + k div 1024" unfolding k by simp
  then have d: "unat (drop_bit 10 c) = 64 + unat (drop_bit 10 (c - 0x10000))"
    using k by (simp only: h unat_minus_16 [OF n(1)])
  have u: "(ucast x :: u16) = word_of_nat (unat x)" for x :: u32 by simp
  have "(ucast (drop_bit 10 c) :: u16) = 0x40 + ucast (drop_bit 10 (c - 0x10000))"
    unfolding u d by simp
  moreover have "unset_bit 16 c = c" using assms(3) by (simp add: unset_bit_eq)
  ultimately show ?thesis
    using assms(1) minus_16_low [of c] surrogate_units [of c] n by (simp add: code_units_def utf16_encode_def)
qed

lemma length_units: "length (code_units c) = length (utf16_encode c)"
  by (simp add: code_units_def utf16_encode_def)

lemma concat_units_eq:
  "concat (map code_units cs) = concat (map utf16_encode cs) \<longleftrightarrow> (\<forall>c \<in> set cs. code_units c = utf16_encode c)"
  by (induction cs) (auto simp: append_eq_append_conv [OF disjI1 [OF length_units]])

text \<open>What the decoder writes for one code point, in terms of the standard's form: the first surrogate
  is too large by \<open>0x40\<close> in the even planes above plane 0.\<close>

definition decoded_units :: "u32 \<Rightarrow> u16 list" where
  "decoded_units c =
     (let units = utf16_encode c in
      if c < 0x10000 \<or> bit c 16 then units else [units ! 0 + 0x40, units ! 1])"

lemma code_units_decoded:
  assumes "c < 0x110000"
  shows "code_units c = decoded_units c"
proof (cases "c < 0x10000 \<or> bit c 16")
  case True
  then show ?thesis using code_units_standard [OF assms] by (simp add: decoded_units_def Let_def)
next
  case False
  then show ?thesis using even_plane_units [OF _ assms] by (auto simp: decoded_units_def Let_def not_less)
qed

text \<open>C18: Decoding encoded text: for every list of code points but zero, in every plane, the decoder
  returns (it does not give up on any of them), and what it returns is, code point by code point, the
  UTF-16 form with a terminator, except that for a code point of an even plane above plane 0 (the
  supplementary ideographs among them) the first surrogate is 0x40 too large, because the code clears
  bit 16 instead of subtracting 0x10000.  So the result is the UTF-16 form of the text if and only if
  every code point above 0xFFFF lies in an odd plane.\<close>

theorem utf8_round_trip:
  assumes "\<forall>c \<in> set cs. c \<noteq> 0 \<and> c < 0x110000"
  shows "utf8_to_utf16_bit_test_reset (text_of utf8_encode cs) = Inr (text_of decoded_units cs)
    \<and> (utf8_to_utf16_bit_test_reset (text_of utf8_encode cs) = Inr (text_of utf16_encode cs)
       \<longleftrightarrow> (\<forall>c \<in> set cs. c < 0x10000 \<or> bit c 16))"
proof -
  have "text_of code_units cs = text_of decoded_units cs"
    unfolding text_of_def using assms code_units_decoded by (metis map_cong)
  moreover have "text_of code_units cs = text_of utf16_encode cs \<longleftrightarrow> (\<forall>c \<in> set cs. c < 0x10000 \<or> bit c 16)"
    using assms code_units_standard by (simp add: text_of_def concat_units_eq)
  ultimately show ?thesis
    unfolding decode_text [OF assms] by simp
qed

theorem utf8_round_trip_witness:
  "utf8_to_utf16_bit_test_reset (text_of utf8_encode [0x24, 0x20AC, 0x1F600]) = Inr (text_of utf16_encode [0x24, 0x20AC, 0x1F600])
    \<and> utf8_to_utf16_bit_test_reset (text_of utf8_encode [0x20000]) = Inr (text_of decoded_units [0x20000])
    \<and> utf8_to_utf16_bit_test_reset (text_of utf8_encode [0x20000]) \<noteq> Inr (text_of utf16_encode [0x20000])"
proof (intro conjI)
  show "utf8_to_utf16_bit_test_reset (text_of utf8_encode [0x24, 0x20AC, 0x1F600])
      = Inr (text_of utf16_encode [0x24, 0x20AC, 0x1F600])"
    by (rule utf8_round_trip [THEN conjunct2, THEN iffD2]) simp_all
  show "utf8_to_utf16_bit_test_reset (text_of utf8_encode [0x20000]) = Inr (text_of decoded_units [0x20000])"
    by (rule utf8_round_trip [THEN conjunct1]) simp
  show "utf8_to_utf16_bit_test_reset (text_of utf8_encode [0x20000]) \<noteq> Inr (text_of utf16_encode [0x20000])"
    using utf8_round_trip [of "[0x20000]", THEN conjunct2] by simp
qed


section \<open>Memory\<close>

definition written :: "'a list + 'a list \<Rightarrow> 'a list" where
  "written r = (case r of Inl out \<Rightarrow> out | Inr out \<Rightarrow> out)"

lemma sequence_credit:
  assumes "leading_bit_test c s = Some (c', s')" "\<not> multibyte_index s' < 0"
  shows "length (utf16_str (accumulate c' s')) + of_bool (0 \<le> multibyte_index (accumulate c' s'))
    \<le> length (utf16_str s) + of_bool (0 \<le> multibyte_index s) + 1"
  using assms
  by (auto simp: leading_bit_test_def bittestandreset_def accumulate_def emit_def Let_def split: if_splits)

lemma leading_out: "leading_bit_test c s = Some (c', s') \<Longrightarrow> utf16_str s' = utf16_str s"
  by (auto simp: leading_bit_test_def bittestandreset_def split: if_splits)

lemma bit_test_loop_bound:
  "length (written (bit_test_loop s bs)) \<le> length (utf16_str s) + of_bool (0 \<le> multibyte_index s) + length bs"
proof (induction s bs rule: bit_test_loop.induct)
  case (2 s b bs)
  let ?c = "unset_bit 7 (ucast b) :: u32"
  show ?case
  proof (cases "bit b 7")
    case True
    show ?thesis
    proof (cases "leading_bit_test ?c s")
      case None
      with True show ?thesis
        by (simp add: bit_test_loop.simps(2) bittestandreset_def bit_ucast_byte written_def)
    next
      case (Some r)
      obtain c' s' where r: "r = (c', s')" by (cases r)
      have step: "bit_test_loop s (b # bs) =
          (if multibyte_index s' < 0 then Inl (utf16_str s') else bit_test_loop (accumulate c' s') bs)"
        using True Some r by (simp add: bit_test_loop.simps(2) bittestandreset_def bit_ucast_byte)
      show ?thesis
      proof (cases "multibyte_index s' < 0")
        case True
        then show ?thesis using leading_out [OF Some [unfolded r]] by (simp add: step written_def)
      next
        case False
        then have "length (written (bit_test_loop (accumulate c' s') bs))
            \<le> length (utf16_str (accumulate c' s')) + of_bool (0 \<le> multibyte_index (accumulate c' s')) + length bs"
          using 2(2) True Some r by (simp add: bittestandreset_def bit_ucast_byte)
        with sequence_credit [OF Some [unfolded r] False] False show ?thesis by (simp add: step)
      qed
    qed
  next
    case False
    with 2(1) [of _ _ "emit (ucast b) s"] show ?thesis
      by (auto simp: bit_test_loop.simps(2) bittestandreset_def bit_ucast_byte low_byte ucast_byte
          written_def emit_def Let_def)
  qed
qed (simp add: written_def)

lemma bit_test_loop_stops: "bit_test_loop s (bs @ 0 # t) = bit_test_loop s (bs @ [0])"
proof (induction bs arbitrary: s)
  case Nil
  show ?case by (simp add: bit_test_loop.simps(2) bittestandreset_def)
next
  case (Cons b bs)
  then show ?case by (simp add: bit_test_loop.simps(2) Let_def split: prod.split option.split)
qed

text \<open>C32: Memory safety of the decoder on arbitrary bytes: it reads nothing behind the terminating
  zero, and the units it has written, when it returns and when it gives up, never exceed the
  strlen + 1 units the buffer was allocated for.\<close>

theorem utf8_memory_safe:
  "utf8_to_utf16_bit_test_reset (s @ 0 # beyond) = utf8_to_utf16_bit_test_reset (s @ [0])
    \<and> length (written (utf8_to_utf16_bit_test_reset (s @ [0]))) \<le> length s + 1"
  using bit_test_loop_bound [of start "s @ [0]"] bit_test_loop_stops [of start s beyond]
  by (simp add: utf8_to_utf16_bit_test_reset_def start_def)

section \<open>The decoder that counts leading ones\<close>

lemma countl_one_byte:
  assumes "bit (b :: u8) 7"
  shows "countl_one (scast b) = 24 + length (takeWhile (bit b) [7, 6, 5, 4, 3, 2, 1, 0])"
proof -
  have "rev [0..<32] = rev [8..<32] @ [7, 6, 5, 4, 3, 2, 1, 0 :: nat]"
    by (simp add: upt_rec)
  moreover have "\<forall>i \<in> set (rev [8..<32]). bit (scast b :: u32) i"
    using assms by (auto simp: bit_scast_byte simp del: set_upt)
  moreover have "takeWhile (bit (scast b :: u32)) [7, 6, 5, 4, 3, 2, 1, 0] = takeWhile (bit b) [7, 6, 5, 4, 3, 2, 1, 0]"
    by (simp add: bit_scast_byte)
  ultimately show ?thesis
    unfolding countl_one_def by (simp only: takeWhile_append2 length_append) simp
qed

lemma tail_range:
  fixes x :: u32
  shows "0x80 \<le> (0x80 OR ucast (x AND 0x3F) :: u8)" "(0x80 OR ucast (x AND 0x3F) :: u8) \<le> 0xBF"
    "ucast ((0x80 OR ucast (x AND 0x3F) :: u8) AND 0x3F) = x AND 0x3F"
proof -
  let ?y = "ucast (x AND 0x3F) :: u8"
  have y: "unat ?y < 64"
  proof -
    have "?y = take_bit 6 (ucast x)"
      by (rule bit_word_eqI) (auto simp: prefix_bits bit_take_bit_iff)
    then show ?thesis by (simp only: unsigned_take_bit_eq) (simp add: take_bit_eq_mod)
  qed
  have "(0x80 OR ?y) = 0x80 + ?y"
    by (rule disjunctive_add [symmetric]) (auto simp: prefix_bits)
  then have "unat (0x80 OR ?y) = 128 + unat ?y"
    using y by (simp add: unat_word_ariths)
  with y show "0x80 \<le> (0x80 OR ?y)" "(0x80 OR ?y) \<le> 0xBF"
    by (simp_all add: word_le_nat_alt)
  show "ucast ((0x80 OR ?y) AND 0x3F) = x AND 0x3F"
    by (rule bit_word_eqI) (auto simp: prefix_bits)
qed

lemma scast_low:
  "scast (b :: u8) AND 0x3F = (ucast b AND 0x3F :: u32)" "scast b AND 0x1F = (ucast b AND 0x1F :: u32)"
  by (rule bit_word_eqI; auto simp: prefix_bits bit_scast_byte split: if_splits)+

lemma new_test_lead:
  "bit b 7 \<Longrightarrow> bit b 6 \<Longrightarrow> \<not> bit b 5 \<Longrightarrow> new_test_loop out (b # bs) =
    (case continuation 0 (ucast b AND 0x3F) bs of None \<Rightarrow> Inl out
     | Some (c, bs) \<Rightarrow> if c = 0 then Inr (out @ [ucast c]) else new_test_loop (out @ [ucast c]) bs)"
  "bit b 7 \<Longrightarrow> bit b 6 \<Longrightarrow> bit b 5 \<Longrightarrow> \<not> bit b 4 \<Longrightarrow> new_test_loop out (b # bs) =
    (case continuation 1 (ucast b AND 0x1F) bs of None \<Rightarrow> Inl out
     | Some (c, bs) \<Rightarrow> if c = 0 then Inr (out @ [ucast c]) else new_test_loop (out @ [ucast c]) bs)"
  "bit b 7 \<Longrightarrow> bit b 6 \<Longrightarrow> bit b 5 \<Longrightarrow> bit b 4 \<Longrightarrow> new_test_loop out (b # bs) = Inl out"
  "\<not> bit b 7 \<Longrightarrow> b \<noteq> 0 \<Longrightarrow> new_test_loop out (b # bs) = new_test_loop (out @ [ucast b]) bs"
  "new_test_loop out (0 # bs) = Inr (out @ [0])"
  by (simp_all add: sign_bit leD countl_one_byte scast_low low_byte ucast_byte Let_def)

declare new_test_loop.simps(2) [simp del] continuation.simps(2) [simp del]

lemma continuation_tail:
  "continuation 0 c ((0x80 OR ucast (x AND 0x3F)) # bs) = Some (push_bit 6 c OR (x AND 0x3F), bs)"
  "continuation (Suc i) c ((0x80 OR ucast (x AND 0x3F)) # bs) = continuation i (push_bit 6 c OR (x AND 0x3F)) bs"
  by (simp_all add: continuation.simps(2) tail_range Let_def)

lemma new_test_code_point:
  assumes "c \<noteq> 0" "c < 0x110000"
  shows "new_test_loop out (utf8_encode c @ bs) =
    (if c < 0x10000 then new_test_loop (out @ utf16_encode c) bs else Inl out)"
  using assms
proof (cases rule: utf8_encode_cases)
  case one
  then show ?thesis by (simp add: utf16_encode_def new_test_lead)
next
  case two
  then show ?thesis using lead_byte(1) [OF two(3)] assms(1)
    by (simp add: utf16_encode_def new_test_lead continuation_tail tail_simps)
next
  case three
  then show ?thesis using lead_byte(2) [OF three(3)] assms(1) 
    by (simp add: utf16_encode_def new_test_lead continuation_tail tail_simps)
next
  case four
  then show ?thesis using lead_byte(3) [OF four(3)]
    by (simp add: utf16_encode_def new_test_lead)
qed

text \<open>The decoder that counts leading ones, on encoded text: it returns the UTF-16 form when all
  code points are below 0x10000, and gives up at the first one above, having written what comes
  before it.  It always ends (the loop is total).\<close>

theorem new_test_bmp:
  assumes "\<forall>c \<in> set cs. c \<noteq> 0 \<and> c < 0x110000"
  shows "utf8_to_utf16_new_test (text_of utf8_encode cs) =
    (if \<forall>c \<in> set cs. c < 0x10000 then Inr (text_of utf16_encode cs)
     else Inl (concat (map utf16_encode (takeWhile (\<lambda>c. c < 0x10000) cs))))"
proof -
  have "new_test_loop out (concat (map utf8_encode cs) @ [0]) =
      (if \<forall>c \<in> set cs. c < 0x10000 then Inr (out @ text_of utf16_encode cs)
       else Inl (out @ concat (map utf16_encode (takeWhile (\<lambda>c. c < 0x10000) cs))))" for out
    using assms by (induction cs arbitrary: out) (simp_all add: new_test_code_point new_test_lead text_of_def)
  then show ?thesis by (simp add: utf8_to_utf16_new_test_def text_of_def)
qed


theorem new_test_bmp_witness:
  "utf8_to_utf16_new_test (text_of utf8_encode [0x24, 0x20AC]) = Inr (text_of utf16_encode [0x24, 0x20AC])
    \<and> utf8_to_utf16_new_test (text_of utf8_encode [0x24, 0x1F600, 0x24]) = Inl [0x24]"
  using new_test_bmp [of "[0x24, 0x20AC]"] new_test_bmp [of "[0x24, 0x1F600, 0x24]"]
  by (simp add: utf16_encode_def)

section \<open>The decoder to UTF-32\<close>

record decoder32 =
  multibyte_len :: u8
  utf32_temp :: u32
  utf32_str :: "u32 list"

definition utf32_step :: "u8 \<Rightarrow> decoder32 \<Rightarrow> decoder32" where
  "utf32_step b s =
     (let multi = bit b 7; b = unset_bit 7 b;
          two = multi \<and> bit b 6; b = (if multi then unset_bit 6 b else b);
          three = two \<and> bit b 5; b = (if two then unset_bit 5 b else b);
          four = three \<and> bit b 4; b = (if three then unset_bit 4 b else b);
          len = multibyte_len s + of_bool two + of_bool three + of_bool four;
          s = s\<lparr>multibyte_len := len, utf32_temp := push_bit 7 (utf32_temp s) OR ucast b\<rparr>
      in if len = 0 then s\<lparr>utf32_str := utf32_str s @ [utf32_temp s], utf32_temp := 0\<rparr> else s)"

definition utf8_to_utf32_new :: "u32 list \<Rightarrow> u8 list \<Rightarrow> u32 list" where
  "utf8_to_utf32_new junk utf8_str =
     (let out = utf32_str (fold utf32_step (utf8_str @ [0]) \<lparr>multibyte_len = 0, utf32_temp = 0, utf32_str = []\<rparr>)
      in out @ drop (length out) (take (length utf8_str) junk @ [0]))"

lemma utf32_ascii:
  assumes "\<forall>b \<in> set a. \<not> bit b 7"
  shows "fold utf32_step a \<lparr>multibyte_len = 0, utf32_temp = 0, utf32_str = out\<rparr>
    = \<lparr>multibyte_len = 0, utf32_temp = 0, utf32_str = out @ map ucast a\<rparr>"
proof -
  have "unset_bit 7 b = b" if "\<not> bit b 7" for b :: u8
    using that by (simp add: unset_bit_eq)
  with assms show ?thesis
    by (induction a arbitrary: out) (simp_all add: utf32_step_def Let_def)
qed

lemma utf32_stuck:
  assumes "0 < unat (multibyte_len s)" "unat (multibyte_len s) + 3 * length r < 256"
  shows "utf32_str (fold utf32_step r s) = utf32_str s"
  using assms
proof (induction r arbitrary: s)
  case (Cons b r)
  let ?s = "utf32_step b s"
  obtain k where k: "multibyte_len ?s = multibyte_len s + word_of_nat k" "k \<le> 3"
  proof -
    have "multibyte_len ?s = multibyte_len s \<or> multibyte_len ?s = multibyte_len s + 1
        \<or> multibyte_len ?s = multibyte_len s + 2 \<or> multibyte_len ?s = multibyte_len s + 3"
      by (auto simp: utf32_step_def Let_def of_bool_def add.commute)
    then show thesis using that [of 0] that [of 1] that [of 2] that [of 3] by auto
  qed
  then have "unat (multibyte_len ?s) = unat (multibyte_len s) + k"
    using Cons.prems by (simp add: unat_word_ariths unat_of_nat)
  moreover from this have "utf32_str ?s = utf32_str s"
    using Cons.prems by (auto simp: utf32_step_def Let_def)
  ultimately show ?case using Cons k by simp
qed simp

text \<open>After a leading byte nothing is written any more: the rest of the buffer is what the heap held.\<close>

lemma utf32_new_unwritten:
  assumes "\<forall>b \<in> set a. \<not> bit b 7" "bit b 7" "bit b 6" "length r < 84"
  shows "utf8_to_utf32_new junk (a @ b # r) =
    map ucast a @ drop (length a) (take (length (a @ b # r)) junk @ [0])"
proof -
  let ?s = "utf32_step b \<lparr>multibyte_len = 0, utf32_temp = 0, utf32_str = map ucast a\<rparr>"
  have "utf32_str (fold utf32_step (r @ [0]) ?s) = utf32_str ?s"
    using assms by (intro utf32_stuck) (auto simp: utf32_step_def Let_def bit_unset_bit_iff)
  moreover have "utf32_str ?s = map ucast a"
    using assms(2,3) by (auto simp: utf32_step_def Let_def bit_unset_bit_iff)
  ultimately show ?thesis
    by (simp add: utf8_to_utf32_new_def utf32_ascii [OF assms(1)] Let_def)
qed

end
