(* ===== verification/Cnc_Rng.thy ===== *)
theory Cnc_Rng
  imports Z86_Prelude
begin

text \<open>
  The random number generators of \<^verbatim>\<open>src/cnc_rng.h\<close> and \<^verbatim>\<open>src/RNG_helpers.h\<close>.  A generator is a
  function of its state, answering the number and the new state.  The rejection loop of
  \<^verbatim>\<open>CnCRng2::rand_int_range\<close> gets fuel, the number of turns; the section on the period proves that
  \<open>2 ^ 25\<close> turns are enough for every seed, because the low 25 bits of a linear congruential
  generator with these constants run through all their values.  \<^verbatim>\<open>CnCRng1\<close> is not modelled: its
  \<^verbatim>\<open>rand_int_range\<close> has unbalanced parentheses.  The functions that draw \<^verbatim>\<open>float\<close> are not either.
\<close>

section \<open>The generators\<close>

definition lcg_step :: "u32 \<Rightarrow> u32" where
  "lcg_step seed = seed * 0x41C64E6D + 0x3039"

definition rand_int :: "u32 \<Rightarrow> u32 \<times> u32" where
  "rand_int seed = (let new_seed = lcg_step seed in (drop_bit 17 (push_bit 7 new_seed), new_seed))"

definition countl_zero :: "u32 \<Rightarrow> nat" where
  "countl_zero x = length (takeWhile (\<lambda>i. \<not> bit x i) (rev [0..<32]))"

fun rand_loop :: "nat \<Rightarrow> u32 \<Rightarrow> u32 \<Rightarrow> u32 \<Rightarrow> (u32 \<times> u32) option" where
  "rand_loop 0 m span seed = None"
| "rand_loop (Suc fuel) m span seed =
     (let (r, seed) = rand_int seed; ret = r AND m
      in if ret > span then rand_loop fuel m span seed else Some (ret, seed))"

definition rand_int_range :: "nat \<Rightarrow> u32 \<Rightarrow> u32 \<Rightarrow> u32 \<Rightarrow> (u32 \<times> u32) option" where
  "rand_int_range fuel mn mx seed =
     (if mn = mx then Some (mn, seed)
      else let (mn, mx) = (if sint mn > sint mx then (mx, mn) else (mn, mx));
               span = mx - mn;
               m = drop_bit (countl_zero (span AND 0x7FFF)) (- 1)
           in case rand_loop fuel m span seed of
                None \<Rightarrow> None | Some (ret, seed) \<Rightarrow> Some (ret + mn, seed))"

record CnCRng4 =
  table :: "u32 list"
  seed4 :: u32

definition initialize :: "u32 \<Rightarrow> CnCRng4" where
  "initialize seed =
     \<lparr>table = [seed + 0x6FDF3B64, seed + 0x9E353F7D, seed + 0x0702C49C, seed + 0xC624DD2F, seed + 0x883126E9, seed + 0xF22D0E56],
      seed4 = seed\<rparr>"

definition addc :: "u32 \<Rightarrow> u32 \<Rightarrow> bool \<Rightarrow> u32 \<times> bool" where
  "addc a b carry = (a + b + of_bool carry, unat a + unat b + of_bool carry \<ge> 2 ^ 32)"

definition rand_uint4 :: "CnCRng4 \<Rightarrow> u32 \<times> CnCRng4" where
  "rand_uint4 s =
     (let t = table s;
          (value0, carry) = addc 1 (t ! 0) False;
          (value1, carry) = addc value0 (t ! 1) carry;
          (value2, carry) = addc value1 (t ! 2) carry;
          (value3, carry) = addc value2 (t ! 3) carry;
          (value4, carry) = addc value3 (t ! 4) carry;
          (value5, carry) = addc value4 (t ! 5) carry
      in (value5, s\<lparr>table := [value0, value1, value2, value3, value4, value5]\<rparr>))"

definition rand_int_range4 :: "u32 \<Rightarrow> u32 \<Rightarrow> CnCRng4 \<Rightarrow> u32 \<times> CnCRng4" where
  "rand_int_range4 mn mx s =
     (let span = mx - mn + 1
      in if span \<noteq> 0 then (let (r, s) = rand_uint4 s in (r mod span + mn, s)) else (mx, s))"

record Rng =
  rng_value :: u16
  rng_index :: u32

definition rand_ushort :: "Rng \<Rightarrow> u16 \<times> Rng" where
  "rand_ushort s =
     (let v = word_rotl 2 ((rng_value s XOR 0x9630) - 0x6553)
      in (v, s\<lparr>rng_index := rng_index s + 1, rng_value := v\<rparr>))"

definition rand_ushort_mod :: "u16 \<Rightarrow> Rng \<Rightarrow> u16 \<times> Rng" where
  "rand_ushort_mod bound s = (if bound \<noteq> 0 then (let (v, s) = rand_ushort s in (v mod bound, s)) else (0, s))"

section \<open>The period\<close>

definition power_sum :: "int \<Rightarrow> nat \<Rightarrow> int" where
  "power_sum a n = (\<Sum>i<n. a ^ i)"

lemma power_sum_simps [simp]:
  "power_sum a 0 = 0" "power_sum a (Suc n) = power_sum a n + a ^ n"
  by (simp_all add: power_sum_def)

lemma power_sum_geometric: "(a - 1) * power_sum a n = a ^ n - 1"
  by (induction n) (simp_all add: algebra_simps)

lemma power_sum_double: "power_sum a (2 * n) = power_sum a n * (1 + a ^ n)"
proof -
  have "power_sum a (m + n) = power_sum a m + a ^ m * power_sum a n" for m n
    by (induction n) (simp_all add: algebra_simps power_add)
  then show ?thesis unfolding mult_2 by (simp add: algebra_simps)
qed

lemma power_sum_odd: "odd a \<Longrightarrow> odd (power_sum a n) \<longleftrightarrow> odd n"
  by (induction n) simp_all

lemma two_power_dvd_power_sum:
  assumes "a mod 4 = 1" "2 ^ k dvd power_sum a n"
  shows "(2 :: nat) ^ k dvd n"
  using assms(2)
proof (induction k arbitrary: n)
  case (Suc k)
  have odd: "odd a" using assms(1) by presburger
  have "2 dvd (2 :: int) ^ Suc k" by simp
  then have "even (power_sum a n)" using Suc.prems by (rule dvd_trans)
  then have "even n" using power_sum_odd [OF odd] by blast
  then obtain m where n: "n = 2 * m" by (rule evenE)
  have "4 dvd a - 1" using assms(1) by presburger
  then have "4 dvd a ^ m - 1" by (metis dvd_mult2 power_sum_geometric)
  then obtain q where "a ^ m - 1 = 4 * q" by (rule dvdE)
  then have q: "1 + a ^ m = 2 * (2 * q + 1)" by simp
  have "2 * (power_sum a m * (2 * q + 1)) = power_sum a n"
    unfolding n power_sum_double q by (rule mult.left_commute)
  with Suc.prems have "2 * 2 ^ k dvd 2 * (power_sum a m * (2 * q + 1))" by (simp only: power_Suc)
  then have "2 ^ k dvd power_sum a m * (2 * q + 1)" by (simp only: dvd_mult_cancel_left, simp)
  moreover have "coprime (2 ^ k :: int) (2 * q + 1)" by simp
  ultimately have "2 ^ k dvd power_sum a m" by (simp only: coprime_dvd_mult_left_iff)
  then show ?case using Suc.IH n by simp
qed simp

text \<open>The orbit of the generator, over the integers.\<close>

definition orbit :: "int \<Rightarrow> int \<Rightarrow> nat \<Rightarrow> int \<Rightarrow> int" where
  "orbit a c n x = a ^ n * x + c * power_sum a n"

lemma power_sum_step: "power_sum a (Suc n) = a * power_sum a n + 1"
  using power_sum_geometric [of a n] by (simp add: algebra_simps)

lemma orbit_Suc: "orbit a c (Suc n) x = a * orbit a c n x + c"
  by (simp add: orbit_def power_sum_step algebra_simps del: power_sum_simps)

lemma orbit_diff: "orbit a c n y - y = power_sum a n * ((a - 1) * y + c)"
proof -
  have "orbit a c n y - y = (a ^ n - 1) * y + c * power_sum a n" by (simp add: orbit_def algebra_simps)
  also have "\<dots> = (a - 1) * power_sum a n * y + c * power_sum a n" by (simp only: power_sum_geometric)
  finally show ?thesis by (simp add: algebra_simps)
qed

lemma orbit_add: "orbit a c (m + n) x = orbit a c m (orbit a c n x)"
  by (induction m) (simp_all add: orbit_Suc, simp add: orbit_def)

lemma orbit_inj:
  assumes "a mod 4 = 1" "odd c" "orbit a c m x mod 2 ^ k = orbit a c n x mod 2 ^ k" "m < 2 ^ k" "n < 2 ^ k"
  shows "m = n"
  using assms(3-5)
proof (induction m n rule: linorder_wlog)
  case (le m n)
  then obtain d where d: "n = d + m" by (metis add.commute le_Suc_ex)
  let ?y = "orbit a c m x"
  note orbit_diff [of a c d ?y]
  moreover have "orbit a c d ?y mod 2 ^ k = ?y mod 2 ^ k"
    using le d by (simp add: orbit_add)
  ultimately have "2 ^ k dvd power_sum a d * ((a - 1) * ?y + c)"
    by (metis mod_eq_dvd_iff)
  moreover have "coprime (2 ^ k :: int) ((a - 1) * ?y + c)"
  proof -
    have "even (a - 1)" using assms(1) by presburger
    then have "odd ((a - 1) * ?y + c)" using assms(2) by simp
    then show ?thesis by simp
  qed
  ultimately have "2 ^ k dvd power_sum a d" by (simp only: coprime_dvd_mult_left_iff)
  then have "(2 :: nat) ^ k dvd d" by (rule two_power_dvd_power_sum [OF assms(1)])
  with le d show ?case by (metis add_0 add_lessD1 dvd_imp_le le_antisym neq0_conv not_less)
next
  case (sym m n)
  then show ?case by metis
qed

lemma orbit_onto:
  assumes "a mod 4 = 1" "odd c"
  obtains n where "n < 2 ^ k" "orbit a c n x mod 2 ^ k = y mod 2 ^ k"
proof -
  let ?f = "\<lambda>n. orbit a c n x mod 2 ^ k" and ?N = "{..<2 ^ k :: nat}" and ?R = "{0..<2 ^ k :: int}"
  have "inj_on ?f ?N"
    by (rule inj_onI) (use orbit_inj [OF assms] in \<open>auto\<close>)
  moreover have "?f ` ?N \<subseteq> ?R" by auto
  moreover have "card ?N = card ?R" by simp
  ultimately have "?f ` ?N = ?R" by (metis card_image card_subset_eq finite_atLeastLessThan_int)
  moreover have "y mod 2 ^ k \<in> ?R" by simp
  ultimately show thesis using that by (metis (no_types, lifting) imageE lessThan_iff)
qed

section \<open>The rejection loop ends\<close>

lemma lcg_orbit: "uint ((lcg_step ^^ n) s) = orbit 0x41C64E6D 0x3039 n (uint s) mod 2 ^ 32"
proof (induction n)
  case 0
  show ?case using uint_lt2p [of s] by (simp add: orbit_def uint_idem)
next
  case (Suc n)
  have "uint (lcg_step x) = (0x41C64E6D * uint x + 0x3039) mod 2 ^ 32" for x
    by (simp add: lcg_step_def uint_word_ariths mult.commute mod_simps)
  with Suc show ?case by (simp add: orbit_Suc) (metis mod_add_left_eq mod_mult_right_eq)
qed

lemma lcg_visits:
  obtains n where "n < 2 ^ 25" "uint ((lcg_step ^^ Suc n) s) mod 2 ^ 25 = 0"
proof -
  obtain n where n: "n < 2 ^ 25" "orbit 0x41C64E6D 0x3039 n (uint (lcg_step s)) mod 2 ^ 25 = 0 mod 2 ^ 25"
    by (rule orbit_onto [of "0x41C64E6D" "0x3039" 25 "uint (lcg_step s)" 0]) simp_all
  have "uint ((lcg_step ^^ Suc n) s) = orbit 0x41C64E6D 0x3039 n (uint (lcg_step s)) mod 2 ^ 32"
    using lcg_orbit [of n "lcg_step s"] by (simp add: funpow_swap1)
  then have "uint ((lcg_step ^^ Suc n) s) mod 2 ^ 25 = 0"
    using n(2) by (simp add: mod_mod_cancel)
  with n(1) show thesis by (rule that)
qed

lemma rand_int_zero: "uint s mod 2 ^ 25 = 0 \<Longrightarrow> drop_bit 17 (push_bit 7 s) = (0 :: u32)"
proof (rule bit_word_eqI)
  fix n assume z: "uint s mod 2 ^ 25 = 0" and "n < LENGTH(32)"
  then have "take_bit 25 (uint s) = 0" by (simp add: take_bit_eq_mod)
  then have "\<not> bit (uint s) i" if "i < 25" for i
    using that by (metis bit_0_eq bit_take_bit_iff bot_apply bot_bool_def)
  then have "\<not> bit s i" if "i < 25" for i using that by (simp add: bit_uint_iff)
  then show "bit (drop_bit 17 (push_bit 7 s)) n = bit (0 :: u32) n"
    by (auto simp: bit_drop_bit_eq bit_push_bit_iff)
qed

lemma rand_loop_ends:
  assumes "n < fuel" "fst (rand_int ((lcg_step ^^ n) s)) AND m \<le> span"
  obtains ret s' where "rand_loop fuel m span s = Some (ret, s')" "ret \<le> span"
  using assms
proof (induction fuel arbitrary: n s thesis)
  case (Suc fuel)
  show ?case
  proof (cases "fst (rand_int s) AND m \<le> span")
    case True
    then show ?thesis by (intro Suc.prems(1)) (auto simp: rand_int_def Let_def not_less)
  next
    case False
    with Suc.prems(3) have "n \<noteq> 0" by (cases n) simp_all
    then obtain k where k: "n = Suc k" by (cases n) simp_all
    have "fst (rand_int ((lcg_step ^^ k) (lcg_step s))) AND m \<le> span"
      using Suc.prems(3) by (simp add: k funpow_swap1)
    with Suc.prems(2) k obtain ret s' where "rand_loop fuel m span (lcg_step s) = Some (ret, s')" "ret \<le> span"
      using Suc.IH [where n = k and s = "lcg_step s"] by auto
    with False show ?thesis by (intro Suc.prems(1)) (auto simp: rand_int_def Let_def not_le)
  qed
qed simp

lemma sint_distance:
  assumes "sint lo \<le> sint hi"
  shows "uint (hi - lo :: u32) = sint hi - sint lo"
proof -
  have u: "uint x = sint x mod 2 ^ 32" for x :: u32
    by (simp add: uint_sint take_bit_eq_mod)
  have "uint (hi - lo) = (uint hi - uint lo) mod 2 ^ 32" by (simp add: uint_word_ariths)
  also have "\<dots> = (sint hi - sint lo) mod 2 ^ 32" unfolding u [of hi] u [of lo] by (rule mod_diff_eq)
  finally have "uint (hi - lo) = (sint hi - sint lo) mod 2 ^ 32" .
  moreover have "sint hi < 2 ^ 31" "- (2 ^ 31) \<le> sint lo"
    using sint_lt [of hi] sint_ge [of lo] by simp_all
  ultimately show ?thesis using assms by simp
qed

lemma sint_offset:
  assumes "sint lo + uint (v :: u32) \<le> sint (hi :: u32)"
  shows "sint (v + lo) = uint v + sint lo"
proof -
  have "v + lo = word_of_int (uint v + sint lo)" by simp
  then have "sint (v + lo) = signed_take_bit 31 (uint v + sint lo)"
    by (simp only: sint_sbintrunc') simp
  moreover have "signed_take_bit 31 (uint v + sint lo) = uint v + sint lo"
  proof (rule signed_take_bit_int_eq_self)
    have "- (2 ^ 31) \<le> sint lo" using sint_ge [of lo] by simp
    then show "- (2 ^ 31) \<le> uint v + sint lo" using uint_ge_0 [of v] by linarith
    have "sint hi < 2 ^ 31" using sint_lt [of hi] by simp
    with assms show "uint v + sint lo < 2 ^ 31" by linarith
  qed
  ultimately show ?thesis by simp
qed

text \<open>C17: Drawing from an interval returns: for every seed, and bounds in either order that lie less
  than 2 ^ 15 apart, the rejection loop ends within 2 ^ 25 turns and the number drawn lies
  between the bounds.\<close>

theorem rand_int_range_returns:
  assumes "\<bar>sint mx - sint mn\<bar> < 2 ^ 15" "2 ^ 25 \<le> fuel"
  shows "\<exists>r s'. rand_int_range fuel mn mx seed = Some (r, s')
    \<and> min (sint mn) (sint mx) \<le> sint r \<and> sint r \<le> max (sint mn) (sint mx)"
proof (cases "mn = mx")
  case True
  then show ?thesis by (simp add: rand_int_range_def)
next
  case False
  have main: "\<exists>ret s'. rand_loop fuel m (hi - lo) seed = Some (ret, s') \<and> sint lo \<le> sint (ret + lo) \<and> sint (ret + lo) \<le> sint hi"
    if "sint lo \<le> sint hi" for m lo hi
  proof -
    obtain n where n: "n < 2 ^ 25" "uint ((lcg_step ^^ Suc n) seed) mod 2 ^ 25 = 0" by (rule lcg_visits)
    have "fst (rand_int ((lcg_step ^^ n) seed)) AND m \<le> hi - lo"
      using rand_int_zero [OF n(2)] by (simp add: rand_int_def Let_def)
    moreover have "n < fuel" using n(1) assms(2) by simp
    ultimately obtain ret s' where r: "rand_loop fuel m (hi - lo) seed = Some (ret, s')" "ret \<le> hi - lo"
      using rand_loop_ends by blast
    from r(2) have "uint ret \<le> sint hi - sint lo"
      by (simp add: word_le_def flip: sint_distance [OF that])
    then show ?thesis using r(1) sint_offset [of lo ret hi] by simp
  qed
  from False show ?thesis
    using main [of mn mx] main [of mx mn]
    by (fastforce simp: rand_int_range_def Let_def split: option.splits)
qed

theorem rand_int_range_returns_witness:
  "\<exists>r s'. rand_int_range (2 ^ 25) 6 1 12345 = Some (r, s') \<and> 1 \<le> sint r \<and> sint r \<le> 6"
  using rand_int_range_returns [of 1 6 "2 ^ 25" 12345] by simp

text \<open>The generator that takes a remainder: for bounds in order, the whole range of the type
  included, the number lies between the bounds.\<close>

theorem rand_int_range4_within:
  assumes "sint mn \<le> sint mx"
  shows "sint mn \<le> sint (fst (rand_int_range4 mn mx s)) \<and> sint (fst (rand_int_range4 mn mx s)) \<le> sint mx"
proof (cases "mx - mn + 1 = 0")
  case True
  then show ?thesis using assms by (simp add: rand_int_range4_def)
next
  case False
  obtain r s' where r: "rand_uint4 s = (r, s')" by (cases "rand_uint4 s")
  let ?v = "r mod (mx - mn + 1)"
  have "uint ?v < uint (mx - mn + 1)"
    using False by (simp only: word_mod_less_divisor word_less_def [symmetric] word_neq_0_conv)
  also have "uint (mx - mn + 1) \<le> uint (mx - mn) + 1"
    by (metis uint_add_le uint_1)
  finally have "sint mn + uint ?v \<le> sint mx" using sint_distance [OF assms] by simp
  then show ?thesis
    using False sint_offset [of mn ?v mx] uint_ge_0 [of ?v]
    by (simp add: rand_int_range4_def Let_def r)
qed

theorem rand_int_range4_within_witness:
  "sint (- 3 :: u32) \<le> sint (fst (rand_int_range4 (- 3) 9 (initialize 1))) \<and> sint (fst (rand_int_range4 (- 3) 9 (initialize 1))) \<le> sint (9 :: u32)"
  by (rule rand_int_range4_within) simp

end
