(* ===== verification/Zun_List.thy ===== *)
theory Zun_List
  imports Z86_Prelude
begin

text \<open>
  The intrusive doubly linked list of \<^verbatim>\<open>src/FW/fw_test.cpp\<close> (\<^verbatim>\<open>ZUNList\<close>, \<^verbatim>\<open>ZUNListIterable\<close>,
  \<^verbatim>\<open>ZUNListIter\<close>): the functions as reconstructed from the game, and the replacements the file
  compiles under \<^verbatim>\<open>INCLUDE_REPLACEMENT_CODE\<close>.  The heap is a record with one function per member;
  a pointer is a natural number, \<^verbatim>\<open>NULL\<close> is 0.  A \<^verbatim>\<open>ZUNListIterable\<close> is a node (its base class) that
  has a \<^verbatim>\<open>tail\<close> besides, so a list and its base share an address; iterators have their own.  The
  two functions that read through a pointer they do not test answer \<^verbatim>\<open>None\<close> when it is \<^verbatim>\<open>NULL\<close>; of
  the others \<^verbatim>\<open>this\<close> and \<^verbatim>\<open>node\<close> are not \<^verbatim>\<open>NULL\<close>, a hypothesis of the lemmas.  An unregistered
  \<^verbatim>\<open>current_iter\<close> is 0.  \<^verbatim>\<open>append_fast_no_list\<close> and \<^verbatim>\<open>prepend_fast_no_list\<close> name a parameter they do
  not have, and do not compile.
\<close>

section \<open>The heap\<close>

type_synonym ptr = nat

record zheap =
  zdata :: "ptr \<Rightarrow> ptr"
  znext :: "ptr \<Rightarrow> ptr"
  zprev :: "ptr \<Rightarrow> ptr"
  zlist :: "ptr \<Rightarrow> ptr"
  ziter :: "ptr \<Rightarrow> ptr"
  ztail :: "ptr \<Rightarrow> ptr"
  icurrent :: "ptr \<Rightarrow> ptr"
  inext :: "ptr \<Rightarrow> ptr"

abbreviation (input) set_next :: "ptr \<Rightarrow> ptr \<Rightarrow> zheap \<Rightarrow> zheap" where
  "set_next a b h \<equiv> h\<lparr>znext := (znext h)(a := b)\<rparr>"

abbreviation (input) set_prev :: "ptr \<Rightarrow> ptr \<Rightarrow> zheap \<Rightarrow> zheap" where
  "set_prev a b h \<equiv> h\<lparr>zprev := (zprev h)(a := b)\<rparr>"

abbreviation (input) set_tail :: "ptr \<Rightarrow> ptr \<Rightarrow> zheap \<Rightarrow> zheap" where
  "set_tail a b h \<equiv> h\<lparr>ztail := (ztail h)(a := b)\<rparr>"

abbreviation (input) set_current :: "ptr \<Rightarrow> ptr \<Rightarrow> zheap \<Rightarrow> zheap" where
  "set_current a b h \<equiv> h\<lparr>icurrent := (icurrent h)(a := b)\<rparr>"

abbreviation (input) set_inext :: "ptr \<Rightarrow> ptr \<Rightarrow> zheap \<Rightarrow> zheap" where
  "set_inext a b h \<equiv> h\<lparr>inext := (inext h)(a := b)\<rparr>"

definition node_set_list :: "ptr \<Rightarrow> ptr \<Rightarrow> zheap \<Rightarrow> zheap" where
  "node_set_list this list h = h\<lparr>zlist := (zlist h)(this := list)\<rparr>"

definition set_current_iter :: "ptr \<Rightarrow> ptr \<Rightarrow> zheap \<Rightarrow> zheap" where
  "set_current_iter this iter h = h\<lparr>ziter := (ziter h)(this := iter)\<rparr>"

section \<open>Nodes\<close>

definition node_initialize :: "ptr \<Rightarrow> ptr \<Rightarrow> zheap \<Rightarrow> zheap" where
  "node_initialize this d h =
     set_current_iter this 0 (node_set_list this 0 (set_prev this 0 (set_next this 0
       (h\<lparr>zdata := (zdata h)(this := d)\<rparr>))))"

definition node_new :: "ptr \<Rightarrow> zheap \<Rightarrow> zheap" where
  "node_new this h =
     set_current_iter this 0 (node_set_list this 0 (set_prev this 0 (set_next this 0
       (h\<lparr>zdata := (zdata h)(this := 0)\<rparr>))))"

definition node_append :: "ptr \<Rightarrow> ptr \<Rightarrow> zheap \<Rightarrow> zheap" where
  "node_append this node h =
     (let h = (if znext h this \<noteq> 0
               then let h = set_next node (znext h this) h in set_prev (znext h this) node h
               else h);
          h = set_next this node h;
          h = node_set_list node (zlist h this) h
      in set_prev node this h)"

definition node_prepend :: "ptr \<Rightarrow> ptr \<Rightarrow> zheap \<Rightarrow> zheap" where
  "node_prepend this node h =
     (let h = (if zprev h this \<noteq> 0
               then let h = set_prev node (zprev h this) h in set_next (zprev h this) node h
               else h);
          h = node_set_list node (zlist h this) h;
          h = set_next node this h
      in set_prev this node h)"

definition node_append_fast :: "ptr \<Rightarrow> ptr \<Rightarrow> zheap \<Rightarrow> zheap" where
  "node_append_fast this node h =
     (let next_node = znext h this;
          h = set_next this node h;
          h = (if next_node \<noteq> 0 then set_next node next_node (set_prev next_node node h) else h);
          h = set_prev node this h
      in node_set_list node (zlist h this) h)"

definition node_append_next_only :: "ptr \<Rightarrow> ptr \<Rightarrow> zheap \<Rightarrow> zheap" where
  "node_append_next_only this node h = set_next this node h"

definition node_prepend_fast :: "ptr \<Rightarrow> ptr \<Rightarrow> zheap \<Rightarrow> zheap" where
  "node_prepend_fast this node h =
     (let prev_node = zprev h this;
          h = set_prev this node h;
          h = (if prev_node \<noteq> 0 then set_prev node prev_node (set_next prev_node node h) else h);
          h = set_next node this h
      in node_set_list node (zlist h this) h)"

fun find_node_with_data_impl :: "nat \<Rightarrow> ptr \<Rightarrow> ptr \<Rightarrow> zheap \<Rightarrow> ptr option" where
  "find_node_with_data_impl 0 node d h = None"
| "find_node_with_data_impl (Suc fuel) node d h =
     (if node \<noteq> 0
      then if zdata h node = d then Some node
           else find_node_with_data_impl fuel (znext h node) d h
      else Some 0)"

fun find_end_node :: "nat \<Rightarrow> ptr \<Rightarrow> zheap \<Rightarrow> ptr option" where
  "find_end_node 0 node h = None"
| "find_end_node (Suc fuel) node h =
     (if znext h node \<noteq> 0 then find_end_node fuel (znext h node) h else Some node)"

definition append_to_list_end :: "nat \<Rightarrow> ptr \<Rightarrow> ptr \<Rightarrow> zheap \<Rightarrow> zheap option" where
  "append_to_list_end fuel this node h =
     map_option (\<lambda>end_node. node_append end_node node h) (find_end_node fuel this h)"

definition unlink_impl :: "ptr \<Rightarrow> zheap \<Rightarrow> zheap" where
  "unlink_impl this h =
     (let h = (if ziter h this \<noteq> 0
               then let h = (if icurrent h (ziter h this) = this
                             then set_current (ziter h this) 0 h else h);
                        h = (if inext h (ziter h this) = this \<and> inext h (ziter h this) \<noteq> 0
                             then let h = set_inext (ziter h this) (znext h this) h
                                  in if inext h (ziter h this) \<noteq> 0
                                     then set_current_iter (znext h this) (ziter h this) h
                                     else h
                             else h)
                    in set_current_iter this 0 h
               else h);
          h = (if znext h this \<noteq> 0 then set_prev (znext h this) (zprev h this) h else h);
          h = (if zprev h this \<noteq> 0 then set_next (zprev h this) (znext h this) h else h);
          h = set_next this 0 h;
          h = set_prev this 0 h
      in node_set_list this 0 h)"

definition list_unlink_node :: "ptr \<Rightarrow> ptr \<Rightarrow> zheap \<Rightarrow> zheap" where
  "list_unlink_node this node h =
     unlink_impl node (if ztail h this = node then set_tail this (zprev h node) h else h)"

definition unlink :: "ptr \<Rightarrow> zheap \<Rightarrow> zheap" where
  "unlink this h =
     (if zlist h this \<noteq> 0 then list_unlink_node (zlist h this) this h else unlink_impl this h)"

section \<open>Lists\<close>

definition list_new :: "ptr \<Rightarrow> zheap \<Rightarrow> zheap" where
  "list_new this h = set_tail this this (set_tail this this (node_new this h))"

definition list_initialize :: "ptr \<Rightarrow> ptr \<Rightarrow> zheap \<Rightarrow> zheap" where
  "list_initialize this d h = set_tail this this (node_initialize this d h)"

definition list_append :: "ptr \<Rightarrow> ptr \<Rightarrow> zheap \<Rightarrow> zheap" where
  "list_append this node h =
     set_tail this node (node_set_list node this (node_append (ztail h this) node h))"

definition list_prepend :: "ptr \<Rightarrow> ptr \<Rightarrow> zheap \<Rightarrow> zheap" where
  "list_prepend this node h =
     (let h = node_prepend this node h;
          h = node_set_list node this h
      in if ztail h this = this then set_tail this node h else h)"

definition list_append_fast :: "ptr \<Rightarrow> ptr \<Rightarrow> zheap \<Rightarrow> zheap" where
  "list_append_fast this node h =
     (let tail_node = ztail h this;
          h = set_tail this node h;
          h = node_set_list node this h;
          next_node = znext h tail_node;
          h = set_next tail_node node h;
          h = (if next_node \<noteq> 0 then set_next node next_node (set_prev next_node node h) else h)
      in set_prev node tail_node h)"

definition list_prepend_fast :: "ptr \<Rightarrow> ptr \<Rightarrow> zheap \<Rightarrow> zheap" where
  "list_prepend_fast this node h =
     (let next_node = znext h this;
          h = set_next this node h;
          h = (if next_node \<noteq> 0 then set_next node next_node (set_prev next_node node h) else h);
          h = set_prev node this h;
          h = node_set_list node (zlist h this) h
      in if ztail h this = this then set_tail this node h else h)"

section \<open>The replacements of unlink\<close>

text \<open>
  \<^verbatim>\<open>zero_vec\<close> covers \<^verbatim>\<open>next\<close>, \<^verbatim>\<open>prev\<close>, \<^verbatim>\<open>list\<close> and \<^verbatim>\<open>current_iter\<close> in the union, \<^verbatim>\<open>zero_vec_uppper\<close> the
  first two of them.
\<close>

definition clear_upper :: "ptr \<Rightarrow> zheap \<Rightarrow> zheap" where
  "clear_upper this h = set_prev this 0 (set_next this 0 h)"

definition clear_vec :: "ptr \<Rightarrow> zheap \<Rightarrow> zheap" where
  "clear_vec this h = set_current_iter this 0 (node_set_list this 0 (clear_upper this h))"

definition unlink_fast :: "ptr \<Rightarrow> zheap \<Rightarrow> zheap" where
  "unlink_fast this h =
     (let prev_node = zprev h this;
          list = zlist h this;
          h = (if list \<noteq> 0 then if ztail h list = this then set_tail list prev_node h else h else h);
          next_node = znext h this;
          h = (if next_node \<noteq> 0 then set_prev next_node prev_node h else h);
          h = (if prev_node \<noteq> 0 then set_next prev_node next_node h else h)
      in clear_vec this h)"

definition unlink_fast_no_clear :: "ptr \<Rightarrow> zheap \<Rightarrow> ptr \<times> zheap" where
  "unlink_fast_no_clear this h =
     (let prev_node = zprev h this;
          list = zlist h this;
          h = (if list \<noteq> 0 then if ztail h list = this then set_tail list prev_node h else h else h);
          next_node = znext h this;
          h = (if next_node \<noteq> 0 then set_prev next_node prev_node h else h);
          h = (if prev_node \<noteq> 0 then set_next prev_node next_node h else h)
      in (next_node, h))"

definition unlink_fast_always_tail_no_clear :: "ptr \<Rightarrow> zheap \<Rightarrow> (ptr \<times> zheap) option" where
  "unlink_fast_always_tail_no_clear this h =
     (let prev_node = zprev h this;
          list = zlist h this
      in if list = 0 then None
         else let h = (if ztail h list = this then set_tail list prev_node h else h);
                  next_node = znext h this;
                  h = (if next_node \<noteq> 0 then set_prev next_node prev_node h else h);
                  h = (if prev_node \<noteq> 0 then set_next prev_node next_node h else h)
              in Some (next_node, h))"

definition unlink_fast_no_tail :: "ptr \<Rightarrow> zheap \<Rightarrow> ptr \<times> zheap" where
  "unlink_fast_no_tail this h =
     (let next_node = znext h this;
          prev_node = zprev h this;
          h = clear_upper this h;
          h = (if next_node \<noteq> 0 then set_prev next_node prev_node h else h);
          h = (if prev_node \<noteq> 0 then set_next prev_node next_node h else h)
      in (next_node, h))"

definition unlink_fast_no_clear_no_tail :: "ptr \<Rightarrow> zheap \<Rightarrow> ptr \<times> zheap" where
  "unlink_fast_no_clear_no_tail this h =
     (let next_node = znext h this;
          prev_node = zprev h this;
          h = (if next_node \<noteq> 0 then set_prev next_node prev_node h else h);
          h = (if prev_node \<noteq> 0 then set_next prev_node next_node h else h)
      in (next_node, h))"

definition unlinkR_fast_no_clear :: "ptr \<Rightarrow> zheap \<Rightarrow> ptr \<times> zheap" where
  "unlinkR_fast_no_clear this h =
     (let next_node = znext h this;
          prev_node = zprev h this;
          h = (if prev_node \<noteq> 0 then set_next prev_node next_node h else h);
          h = (if next_node \<noteq> 0 then set_prev next_node prev_node h else h)
      in (next_node, h))"

definition unlinkR_fast_no_tail :: "ptr \<Rightarrow> zheap \<Rightarrow> ptr \<times> zheap" where
  "unlinkR_fast_no_tail this h =
     (let next_node = znext h this;
          prev_node = zprev h this;
          h = clear_upper this h;
          h = (if prev_node \<noteq> 0 then set_next prev_node next_node h else h);
          h = (if next_node \<noteq> 0 then set_prev next_node prev_node h else h)
      in (next_node, h))"

definition unlinkR_fast_no_clear_no_tail :: "ptr \<Rightarrow> zheap \<Rightarrow> ptr \<times> zheap" where
  "unlinkR_fast_no_clear_no_tail this h =
     (let next_node = znext h this;
          prev_node = zprev h this;
          h = (if prev_node \<noteq> 0 then set_next prev_node next_node h else h);
          h = (if next_node \<noteq> 0 then set_prev next_node prev_node h else h)
      in (next_node, h))"

section \<open>Iterators\<close>

text \<open>
  An iterator function has the iterator's address as its first argument; the parameter \<^verbatim>\<open>next\<close> of
  the three setters is overwritten or ignored by each of them.  The constructor and the destructor
  are compiled only without the replacements.  An \<^verbatim>\<open>iter\<close> local is at an address
  too, which the caller of the model gives.
\<close>

definition iter_new :: "ptr \<Rightarrow> zheap \<Rightarrow> zheap" where
  "iter_new this h = set_inext this 0 (set_current this 0 h)"

definition iter_set :: "ptr \<Rightarrow> ptr \<Rightarrow> ptr \<Rightarrow> zheap \<Rightarrow> zheap" where
  "iter_set this node nxt h =
     (let h = set_inext this nxt (set_current this node h);
          h = (if icurrent h this \<noteq> 0 then set_current_iter (icurrent h this) 0 h else h);
          next_node = (if node \<noteq> 0 then znext h node else 0);
          h = set_inext this next_node h
      in if inext h this \<noteq> 0 then set_current_iter (inext h this) this h else h)"

definition iter_set_fast :: "ptr \<Rightarrow> ptr \<Rightarrow> ptr \<Rightarrow> zheap \<Rightarrow> zheap" where
  "iter_set_fast this node nxt h =
     (let h = set_current this node h;
          temp = (if node \<noteq> 0 then znext h node else 0)
      in set_inext this temp h)"

definition iter_set_faster :: "ptr \<Rightarrow> ptr \<Rightarrow> ptr \<Rightarrow> zheap \<Rightarrow> zheap" where
  "iter_set_faster this node nxt h = set_current this node h"

definition inc_slow :: "ptr \<Rightarrow> zheap \<Rightarrow> zheap" where
  "inc_slow this h =
     (let h = (if icurrent h this \<noteq> 0 then set_current_iter (icurrent h this) 0 h else h);
          h = set_current this (inext h this) h;
          h = set_inext this (icurrent h this) h
      in if inext h this \<noteq> 0
         then let h = set_inext this (znext h (icurrent h this)) h
              in if inext h this \<noteq> 0 then set_current_iter (inext h this) this h else h
         else h)"

definition inc_fast :: "ptr \<Rightarrow> zheap \<Rightarrow> zheap" where
  "inc_fast this h =
     (let node = inext h this;
          h = set_current this node h
      in set_inext this (if node \<noteq> 0 then znext h node else node) h)"

definition inc_faster :: "ptr \<Rightarrow> zheap \<Rightarrow> zheap option" where
  "inc_faster this h =
     (let node = icurrent h this
      in if node = 0 then None else Some (set_current this (znext h node) h))"

definition neq_slow :: "ptr \<Rightarrow> ptr \<Rightarrow> zheap \<Rightarrow> bool" where
  "neq_slow this node h = (if node \<noteq> 0 then icurrent h this \<noteq> zdata h node else icurrent h this \<noteq> 0)"

definition neq_fast :: "ptr \<Rightarrow> ptr \<Rightarrow> zheap \<Rightarrow> bool" where
  "neq_fast this node h = (icurrent h this \<noteq> 0)"

definition iter_destroy :: "ptr \<Rightarrow> zheap \<Rightarrow> zheap" where
  "iter_destroy this h =
     (let h = (if icurrent h this \<noteq> 0 then set_current_iter (icurrent h this) 0 h else h)
      in if inext h this \<noteq> 0 then set_current_iter (inext h this) 0 h else h)"

definition node_begin_impl :: "ptr \<Rightarrow> ptr \<Rightarrow> zheap \<Rightarrow> zheap" where
  "node_begin_impl this ret h =
     (if zdata h this = 0 then iter_set ret 0 0 h else iter_set ret this (znext h this) h)"

definition node_begin_fast :: "ptr \<Rightarrow> ptr \<Rightarrow> zheap \<Rightarrow> zheap" where
  "node_begin_fast this ret h = set_inext ret (znext h this) (set_current ret this h)"

definition list_begin_impl :: "ptr \<Rightarrow> ptr \<Rightarrow> zheap \<Rightarrow> zheap" where
  "list_begin_impl this iter h = iter_set iter (znext h this) 0 h"

definition begin_fast_old :: "ptr \<Rightarrow> ptr \<Rightarrow> zheap \<Rightarrow> zheap" where
  "begin_fast_old this iter h = iter_set_faster iter (znext h this) 0 h"

definition list_begin_fast :: "ptr \<Rightarrow> ptr \<Rightarrow> zheap \<Rightarrow> zheap" where
  "list_begin_fast this iter h = iter_set_fast iter (znext h this) 0 h"

text \<open>
  \<^verbatim>\<open>for (auto iter = list.begin(); iter != list.end(); ++iter)\<close>, with the fuel counting the turns; it
  answers the nodes the body was run on and the heap at the end.
\<close>

fun range_for :: "nat \<Rightarrow> ptr \<Rightarrow> (ptr \<Rightarrow> zheap \<Rightarrow> zheap) \<Rightarrow> (ptr \<Rightarrow> zheap \<Rightarrow> zheap) \<Rightarrow> zheap
    \<Rightarrow> (ptr list \<times> zheap) option" where
  "range_for 0 it inc body h = None"
| "range_for (Suc fuel) it inc body h =
     (if neq_slow it 0 h
      then map_option (\<lambda>(vs, h'). (icurrent h it # vs, h'))
             (range_for fuel it inc body (inc it (body (icurrent h it) h)))
      else Some ([], h))"

end
