(* ===== verification/Zun_List_Props.thy ===== *)
theory Zun_List_Props
  imports Zun_List
begin

text \<open>
  What the list of \<^verbatim>\<open>src/FW/fw_test.cpp\<close> promises: the operations refine those on the list of its
  nodes, the replacements do what the originals do where no iterator is registered, and a loop may
  unlink any nodes while it runs.  The loop is proved once, in the locale \<^verbatim>\<open>removing_loop\<close>, and
  interpreted for the registered and for the plain iterator.
\<close>

section \<open>Lists on the heap\<close>

primrec last_from :: "ptr \<Rightarrow> ptr list \<Rightarrow> ptr" where
  "last_from a [] = a"
| "last_from a (x # xs) = last_from x xs"

primrec segment :: "(ptr \<Rightarrow> ptr) \<Rightarrow> (ptr \<Rightarrow> ptr) \<Rightarrow> ptr \<Rightarrow> ptr list \<Rightarrow> bool" where
  "segment nx pv a [] = True"
| "segment nx pv a (x # xs) = (nx a = x \<and> pv x = a \<and> segment nx pv x xs)"

text \<open>
  The nodes of the list at \<^verbatim>\<open>l\<close> are \<^verbatim>\<open>xs\<close>, linked both ways from \<^verbatim>\<open>l\<close> to \<^verbatim>\<open>NULL\<close>; the \<^verbatim>\<open>tail\<close> is the
  last of them, and they are the nodes whose \<^verbatim>\<open>list\<close> is \<^verbatim>\<open>l\<close>.
\<close>

definition zun_list :: "zheap \<Rightarrow> ptr \<Rightarrow> ptr list \<Rightarrow> bool" where
  "zun_list h l xs \<longleftrightarrow>
     distinct (l # xs) \<and> 0 \<notin> set (l # xs) \<and> zprev h l = 0
     \<and> segment (znext h) (zprev h) l xs \<and> znext h (last_from l xs) = 0
     \<and> ztail h l = last_from l xs \<and> (\<forall>x. zlist h x = l \<longleftrightarrow> x \<in> set xs)"

lemma last_from_append [simp]: "last_from a (xs @ ys) = last_from (last_from a xs) ys"
  by (induction xs arbitrary: a) simp_all

lemma last_from_in: "last_from a xs \<in> set (a # xs)"
  by (induction xs arbitrary: a) auto

lemma last_from_in_tl: "xs \<noteq> [] \<Longrightarrow> last_from a xs \<in> set xs"
  by (cases xs) (use last_from_in in auto)

lemma segment_append [simp]:
  "segment nx pv a (xs @ ys) = (segment nx pv a xs \<and> segment nx pv (last_from a xs) ys)"
  by (induction xs arbitrary: a) auto

lemma segment_next: "b \<notin> set (a # xs) \<Longrightarrow> segment (nx(b := v)) pv a xs = segment nx pv a xs"
  by (induction xs arbitrary: a) auto

lemma segment_next_last:
  assumes "distinct (a # xs)"
  shows "segment (nx(last_from a xs := v)) pv a xs = segment nx pv a xs"
  using assms
proof (induction xs arbitrary: a)
  case (Cons x xs)
  have "last_from x xs \<noteq> a" using Cons.prems last_from_in [of x xs] by auto
  with Cons show ?case by simp
qed simp

lemma segment_prev: "b \<notin> set xs \<Longrightarrow> segment nx (pv(b := v)) a xs = segment nx pv a xs"
  by (induction xs arbitrary: a) auto

lemma segment_hd: "segment nx pv a xs \<Longrightarrow> xs \<noteq> [] \<Longrightarrow> nx a = hd xs \<and> pv (hd xs) = a"
  by (cases xs) auto

definition first :: "ptr list \<Rightarrow> ptr" where
  "first xs = (case xs of [] \<Rightarrow> 0 | x # _ \<Rightarrow> x)"

lemma first_simps [simp]: "first [] = 0" "first (x # xs) = x"
  by (simp_all add: first_def)

section \<open>Members after unlink\<close>

lemma unlink_impl_links:
  "znext (unlink_impl y h) =
     (if zprev h y = 0 then znext h else (znext h)(zprev h y := znext h y))(y := 0)"
  "zprev (unlink_impl y h) =
     (if znext h y = 0 then zprev h else (zprev h)(znext h y := zprev h y))(y := 0)"
  by (auto simp: unlink_impl_def Let_def set_current_iter_def node_set_list_def fun_eq_iff)

lemma unlink_impl_rest:
  "zlist (unlink_impl y h) = (zlist h)(y := 0)"
  "zdata (unlink_impl y h) = zdata h"
  "ztail (unlink_impl y h) = ztail h"
  by (auto simp: unlink_impl_def Let_def set_current_iter_def node_set_list_def)

lemma unlink_impl_iterators:
  "inext (unlink_impl y h) it =
     (if it = ziter h y \<and> it \<noteq> 0 \<and> inext h it = y \<and> y \<noteq> 0 then znext h y else inext h it)"
  "icurrent (unlink_impl y h) it =
     (if it = ziter h y \<and> it \<noteq> 0 \<and> icurrent h it = y then 0 else icurrent h it)"
  "ziter (unlink_impl y h) =
     (if ziter h y \<noteq> 0 \<and> inext h (ziter h y) = y \<and> y \<noteq> 0 \<and> znext h y \<noteq> 0
      then (ziter h)(znext h y := ziter h y) else ziter h)(y := 0)"
  by (auto simp: unlink_impl_def Let_def set_current_iter_def node_set_list_def fun_eq_iff)

lemma unlink_members:
  "znext (unlink y h) = znext (unlink_impl y h)"
  "zprev (unlink y h) = zprev (unlink_impl y h)"
  "zlist (unlink y h) = zlist (unlink_impl y h)"
  "ziter (unlink y h) = ziter (unlink_impl y h)"
  "inext (unlink y h) = inext (unlink_impl y h)"
  "icurrent (unlink y h) = icurrent (unlink_impl y h)"
  "ztail (unlink y h) =
     (if zlist h y \<noteq> 0 \<and> ztail h (zlist h y) = y then (ztail h)(zlist h y := zprev h y) else ztail h)"
  by (auto simp: unlink_def list_unlink_node_def unlink_impl_links unlink_impl_rest unlink_impl_iterators
      fun_eq_iff)

section \<open>The operations on lists\<close>

lemma zun_list_split:
  "zun_list h l (us @ y # vs) \<longleftrightarrow>
     distinct (l # us @ y # vs) \<and> 0 \<notin> set (l # us @ y # vs) \<and> zprev h l = 0
     \<and> segment (znext h) (zprev h) l us \<and> znext h (last_from l us) = y \<and> zprev h y = last_from l us
     \<and> segment (znext h) (zprev h) y vs \<and> znext h (last_from y vs) = 0
     \<and> ztail h l = last_from y vs \<and> (\<forall>x. zlist h x = l \<longleftrightarrow> x \<in> set (us @ y # vs))"
  by (auto simp: zun_list_def)

lemma segment_unlink:
  assumes "distinct (l # us @ y # vs)" "0 \<notin> set (l # us @ y # vs)"
    and "segment nx pv l us" "nx (last_from l us) = y" "pv y = last_from l us"
    and "segment nx pv y vs" "nx (last_from y vs) = 0"
  shows "segment (nx(last_from l us := nx y, y := 0))
           (if nx y = 0 then pv(y := 0) else pv(nx y := last_from l us, y := 0)) l (us @ vs)"
    and "(nx(last_from l us := nx y, y := 0)) (last_from l (us @ vs)) = 0"
proof -
  let ?e = "last_from l us"
  let ?n = "nx(?e := nx y, y := 0)"
  have e: "?e \<in> set (l # us)" by (rule last_from_in)
  have ey: "?e \<noteq> y" using assms(1) e by auto
  have e': "?e \<notin> set vs" using assms(1) e by auto
  show "segment ?n (if nx y = 0 then pv(y := 0) else pv(nx y := ?e, y := 0)) l (us @ vs)"
  proof (cases vs)
    case Nil
    with assms have "nx y = 0" by simp
    with Nil assms show ?thesis by (simp add: segment_next segment_next_last segment_prev)
  next
    case (Cons v ws)
    with assms have v: "nx y = v" "pv v = y" "segment nx pv v ws" "v \<noteq> 0" "v \<noteq> y" "v \<notin> set us" "v \<noteq> ?e"
      "v \<notin> set ws" "y \<notin> set ws" "y \<notin> set us" "y \<noteq> l"
      using e' by auto
    from Cons assms v e' ey show ?thesis
      by (simp add: segment_next segment_next_last segment_prev)
  qed
  show "?n (last_from l (us @ vs)) = 0"
  proof (cases vs)
    case (Cons v ws)
    then show ?thesis using assms e' last_from_in [of v ws] by auto
  qed (use assms ey in auto)
qed

lemma zun_list_unlink:
  assumes "zun_list h l xs" "y \<in> set xs"
  shows "zun_list (unlink y h) l (filter (\<lambda>z. z \<noteq> y) xs)"
proof -
  obtain us vs where xs: "xs = us @ y # vs" using assms(2) by (meson split_list)
  note Z = assms(1) [unfolded xs zun_list_split]
  have e: "last_from l us \<in> set (l # us)" by (rule last_from_in)
  have ne: "last_from l us \<noteq> 0" "last_from l us \<noteq> y" "y \<noteq> 0" "zlist h y = l" "l \<noteq> 0" "y \<noteq> l" using Z e by auto
  have f: "filter (\<lambda>z. z \<noteq> y) xs = us @ vs"
  proof -
    have "filter (\<lambda>z. z \<noteq> y) us = us" "filter (\<lambda>z. z \<noteq> y) vs = vs"
      using Z by (auto intro!: filter_True)
    then show ?thesis by (simp add: xs)
  qed
  note S = segment_unlink [of l us y vs "znext h" "zprev h"]
  have 1: "segment (znext (unlink y h)) (zprev (unlink y h)) l (us @ vs)"
    using S(1) Z ne by (auto simp: unlink_members unlink_impl_links split: if_splits)
  have 2: "znext (unlink y h) (last_from l (us @ vs)) = 0"
    using S(2) Z ne by (simp add: unlink_members unlink_impl_links)
  have 3: "ztail (unlink y h) l = last_from l (us @ vs)"
  proof (cases vs)
    case Nil
    then have "last_from l (us @ vs) = zprev h y" "ztail h l = y" using Z by simp_all
    then show ?thesis by (simp add: unlink_members ne)
  next
    case (Cons v ws)
    then have "last_from v ws \<noteq> y" "ztail h l = last_from v ws" using Z last_from_in [of v ws] by auto
    then show ?thesis using Cons by (simp add: unlink_members ne)
  qed
  have 4: "zprev (unlink y h) l = 0"
    using Z ne segment_hd [of "znext h" "zprev h" y vs]
    by (cases vs) (auto simp: unlink_members unlink_impl_links)
  have 5: "zlist (unlink y h) x = l \<longleftrightarrow> x \<in> set (us @ vs)" for x
    using Z ne by (auto simp: unlink_members unlink_impl_rest)
  show ?thesis unfolding f zun_list_def using 1 2 3 4 5 Z by auto
qed

lemma zun_list_Nil_new:
  assumes "l \<noteq> 0" "\<And>x. zlist h x \<noteq> l"
  shows "zun_list (list_new l h) l []"
  using assms by (simp add: zun_list_def list_new_def node_new_def set_current_iter_def node_set_list_def)

lemma list_append_members:
  assumes "znext h (ztail h l) = 0" "n \<noteq> 0"
  shows "znext (list_append l n h) = (znext h)(ztail h l := n)"
    "zprev (list_append l n h) = (zprev h)(n := ztail h l)"
    "zlist (list_append l n h) = (zlist h)(n := l)"
    "ztail (list_append l n h) = (ztail h)(l := n)"
    "ziter (list_append l n h) = ziter h"
  using assms by (auto simp: list_append_def node_append_def Let_def node_set_list_def)

lemma zun_list_append:
  assumes "zun_list h l xs" "n \<noteq> 0" "n \<notin> set (l # xs)" "znext h n = 0"
  shows "zun_list (list_append l n h) l (xs @ [n])"
proof -
  have Z: "distinct (l # xs)" "0 \<notin> set (l # xs)" "zprev h l = 0" "segment (znext h) (zprev h) l xs"
    "znext h (last_from l xs) = 0" "ztail h l = last_from l xs" "\<And>x. zlist h x = l \<longleftrightarrow> x \<in> set xs"
    using assms(1) by (simp_all add: zun_list_def)
  have t: "znext h (ztail h l) = 0" using Z by simp
  have ne: "last_from l xs \<noteq> n" using last_from_in [of l xs] assms(3) by auto
  note M = list_append_members [OF t assms(2)]
  have 1: "segment (znext (list_append l n h)) (zprev (list_append l n h)) l (xs @ [n])"
    using assms(3) Z(1,4) by (simp add: M Z(6) segment_next_last segment_prev)
  have 2: "znext (list_append l n h) n = 0" using assms(4) ne by (simp add: M Z(6))
  have 3: "zlist (list_append l n h) x = l \<longleftrightarrow> x \<in> set (xs @ [n])" for x
    by (simp add: M Z(7))
  show ?thesis unfolding zun_list_def
    using 1 2 3 Z(1-3) assms(2,3) by (simp add: M Z(6))
qed

text \<open>
  The base class's \<^verbatim>\<open>prepend\<close> puts the node in front of the list object itself, where no iterator
  passes; the replacement puts it behind the object, but copies the object's own \<^verbatim>\<open>list\<close> member.
\<close>

lemma list_prepend_not_in_list:
  assumes "zun_list h l xs" "n \<noteq> 0" "n \<notin> set (l # xs)"
  shows "znext (list_prepend l n h) l = znext h l" "znext (list_prepend l n h) n = l"
    "zprev (list_prepend l n h) l = n"
    "ztail (list_prepend l n h) l = (if xs = [] then n else ztail h l)"
proof -
  have Z: "ztail h l = last_from l xs" "zprev h l = 0" "n \<noteq> l" "l \<notin> set xs"
    using assms by (simp_all add: zun_list_def)
  have "ztail h l = l \<longleftrightarrow> xs = []"
    using Z(1,4) last_from_in_tl [of xs l] by (cases "xs = []") auto
  then show "znext (list_prepend l n h) l = znext h l" "znext (list_prepend l n h) n = l"
    "zprev (list_prepend l n h) l = n"
    "ztail (list_prepend l n h) l = (if xs = [] then n else ztail h l)"
    using Z(2,3) by (simp_all add: list_prepend_def node_prepend_def Let_def node_set_list_def)
qed

lemma list_prepend_fast_members:
  assumes "n \<noteq> l"
  shows "znext (list_prepend_fast l n h) =
      (if znext h l \<noteq> 0 then (znext h)(l := n, n := znext h l) else (znext h)(l := n))"
    "zprev (list_prepend_fast l n h) =
      (if znext h l \<noteq> 0 then (zprev h)(znext h l := n, n := l) else (zprev h)(n := l))"
    "zlist (list_prepend_fast l n h) = (zlist h)(n := zlist h l)"
    "ztail (list_prepend_fast l n h) = (if ztail h l = l then (ztail h)(l := n) else ztail h)"
  using assms by (simp_all add: list_prepend_fast_def Let_def node_set_list_def)

lemma list_prepend_fast_links:
  assumes "zun_list h l xs" "n \<noteq> 0" "n \<notin> set (l # xs)" "znext h n = 0"
  shows "zun_list (node_set_list n l (list_prepend_fast l n h)) l (n # xs)"
proof -
  have Z: "distinct (l # xs)" "0 \<notin> set (l # xs)" "zprev h l = 0" "segment (znext h) (zprev h) l xs"
    "znext h (last_from l xs) = 0" "ztail h l = last_from l xs" "\<And>x. zlist h x = l \<longleftrightarrow> x \<in> set xs"
    and n: "n \<noteq> l"
    using assms(1,3) by (simp_all add: zun_list_def)
  note M = list_prepend_fast_members [OF n]
  show ?thesis
  proof (cases xs)
    case Nil
    with Z assms n show ?thesis by (simp add: zun_list_def node_set_list_def M)
  next
    case (Cons x ys)
    have e: "last_from x ys \<noteq> l" "last_from x ys \<noteq> n"
      using Z(1) assms(3) Cons last_from_in [of x ys] by auto
    have x: "x \<noteq> 0" "x \<noteq> n" "x \<noteq> l" "znext h l = x" using Z(1,2,4) Cons assms(3) by auto
    show ?thesis unfolding zun_list_def node_set_list_def
      using Z(1-6) assms(2,3) Cons e x n Z(7)
      by (simp add: M segment_next segment_prev)
  qed
qed

lemma find_end_node_list:
  assumes "segment (znext h) pv a xs" "znext h (last_from a xs) = 0" "0 \<notin> set xs" "length xs < fuel"
  shows "find_end_node fuel a h = Some (last_from a xs)"
  using assms
proof (induction xs arbitrary: a fuel)
  case Nil
  then show ?case by (cases fuel) auto
next
  case (Cons x xs)
  then show ?case by (cases fuel) auto
qed

lemma find_node_with_data_list:
  assumes "segment (znext h) pv a xs" "znext h (last_from a xs) = 0" "0 \<notin> set (a # xs)" "Suc (length xs) < fuel"
  shows "find_node_with_data_impl fuel a d h = Some (first (filter (\<lambda>x. zdata h x = d) (a # xs)))"
  using assms
proof (induction xs arbitrary: a fuel)
  case Nil
  then obtain k where "fuel = Suc (Suc k)" by (auto simp: less_iff_Suc_add)
  with Nil show ?case by auto
next
  case (Cons x xs)
  then obtain k where "fuel = Suc k" by (cases fuel) auto
  with Cons show ?case by auto
qed

section \<open>The replacements\<close>

lemmas heap_simps = set_current_iter_def node_set_list_def Let_def

lemma node_fast_eq:
  assumes "n \<noteq> a"
  shows "node_append_fast a n h = node_append a n h" "node_prepend_fast a n h = node_prepend a n h"
  using assms
  by (auto simp: node_append_fast_def node_append_def node_prepend_fast_def node_prepend_def heap_simps
      fun_eq_iff intro!: zheap.equality)

lemma list_append_fast_eq:
  assumes "n \<noteq> ztail h l"
  shows "list_append_fast l n h = list_append l n h"
  using assms
  by (auto simp: list_append_fast_def list_append_def node_append_def heap_simps fun_eq_iff intro!: zheap.equality)

lemma unlink_fast_eq:
  assumes "ziter h y = 0"
  shows "unlink_fast y h = unlink y h"
  using assms
  by (auto simp: unlink_fast_def unlink_def list_unlink_node_def unlink_impl_def clear_vec_def clear_upper_def
      heap_simps fun_eq_iff intro!: zheap.equality)

lemma unlink_no_clear_eq:
  "unlink_fast y h = clear_vec y (snd (unlink_fast_no_clear y h))"
  "fst (unlink_fast_no_clear y h) = znext h y"
  "zlist h y \<noteq> 0 \<Longrightarrow> unlink_fast_always_tail_no_clear y h = Some (unlink_fast_no_clear y h)"
  "zlist h y = 0 \<or> ztail h (zlist h y) \<noteq> y \<Longrightarrow> unlink_fast_no_clear_no_tail y h = unlink_fast_no_clear y h"
  by (auto simp: unlink_fast_def unlink_fast_no_clear_def unlink_fast_always_tail_no_clear_def
      unlink_fast_no_clear_no_tail_def Let_def)

lemma unlinkR_eq:
  "unlinkR_fast_no_clear y h = unlink_fast_no_clear_no_tail y h"
  "unlinkR_fast_no_clear_no_tail y h = unlink_fast_no_clear_no_tail y h"
  "unlinkR_fast_no_tail y h = unlink_fast_no_tail y h"
  by (auto simp: unlinkR_fast_no_clear_def unlinkR_fast_no_clear_no_tail_def unlinkR_fast_no_tail_def
      unlink_fast_no_clear_no_tail_def unlink_fast_no_tail_def clear_upper_def Let_def)

lemma unlink_no_tail_eq:
  assumes "znext h y \<noteq> y" "zprev h y \<noteq> y"
  shows "unlink_fast_no_tail y h = apsnd (clear_upper y) (unlink_fast_no_clear_no_tail y h)"
  using assms
  by (auto simp: unlink_fast_no_tail_def unlink_fast_no_clear_no_tail_def clear_upper_def Let_def fun_eq_iff
      intro!: zheap.equality)

section \<open>Loops that remove nodes\<close>

text \<open>
  A body that unlinks the nodes \<^verbatim>\<open>rm x\<close> when it is run on \<^verbatim>\<open>x\<close> should be run on the first node, then on
  the first of the remaining ones that it has not unlinked, and so on.
\<close>

function visited :: "(ptr \<Rightarrow> ptr list) \<Rightarrow> ptr list \<Rightarrow> ptr list" where
  "visited rm [] = []"
| "visited rm (x # xs) = x # visited rm (filter (\<lambda>y. y \<notin> set (rm x)) xs)"
  by pat_completeness auto
termination by (relation "measure (\<lambda>(rm, xs). length xs)") (auto simp: less_Suc_eq_le)

definition survivors :: "(ptr \<Rightarrow> ptr list) \<Rightarrow> ptr list \<Rightarrow> ptr list \<Rightarrow> ptr list" where
  "survivors rm vs xs = filter (\<lambda>y. \<forall>x\<in>set vs. y \<notin> set (rm x)) xs"

definition remove_each :: "(ptr \<Rightarrow> zheap \<Rightarrow> zheap) \<Rightarrow> ptr \<Rightarrow> ptr list \<Rightarrow> zheap \<Rightarrow> zheap" where
  "remove_each unl l ys h = fold (\<lambda>y h. if zlist h y = l then unl y h else h) ys h"

lemma survivors_Cons:
  "survivors rm (x # vs) xs = survivors rm vs (filter (\<lambda>y. y \<notin> set (rm x)) xs)"
  by (auto simp: survivors_def intro!: filter_cong)

text \<open>
  The contract of an iterator: \<^verbatim>\<open>inv h xs zs\<close> says that \<^verbatim>\<open>xs\<close> are the nodes of the list and \<^verbatim>\<open>zs\<close>, a
  part of them, those still to come.
\<close>

locale removing_loop =
  fixes inv :: "zheap \<Rightarrow> ptr list \<Rightarrow> ptr list \<Rightarrow> bool"
    and it :: ptr
    and inc :: "ptr \<Rightarrow> zheap \<Rightarrow> zheap"
    and body :: "ptr \<Rightarrow> zheap \<Rightarrow> zheap"
    and rm :: "ptr \<Rightarrow> ptr list"
  assumes inc_Cons: "inv h xs (z # zs) \<Longrightarrow> icurrent (inc it h) it = z \<and> z \<noteq> 0 \<and> inv (inc it h) xs zs"
    and inc_Nil: "inv h xs [] \<Longrightarrow> icurrent (inc it h) it = 0 \<and> inv (inc it h) xs []"
    and body_removes: "inv h xs zs \<Longrightarrow> icurrent h it \<noteq> 0 \<Longrightarrow>
      inv (body (icurrent h it) h) (filter (\<lambda>y. y \<notin> set (rm (icurrent h it))) xs)
        (filter (\<lambda>y. y \<notin> set (rm (icurrent h it))) zs)"
begin

lemma loop_from:
  assumes "inv h xs zs" "icurrent h it = x" "x \<noteq> 0" "Suc (length zs) < fuel"
  shows "\<exists>h'. range_for fuel it inc body h = Some (visited rm (x # zs), h')
           \<and> inv h' (survivors rm (visited rm (x # zs)) xs) []"
  using assms
proof (induction "length zs" arbitrary: zs h xs x fuel rule: less_induct)
  case less
  let ?f = "filter (\<lambda>y. y \<notin> set (rm x))"
  let ?h = "body x h"
  have b: "inv ?h (?f xs) (?f zs)" using body_removes less.prems by metis
  obtain k where k: "fuel = Suc (Suc k)" using less.prems(4) by (auto simp: less_iff_Suc_add)
  have ne: "neq_slow it 0 h" using less.prems by (simp add: neq_slow_def)
  show ?case
  proof (cases "?f zs")
    case Nil
    with b have n: "icurrent (inc it ?h) it = 0" "inv (inc it ?h) (?f xs) []" using inc_Nil by auto
    then have "range_for (Suc k) it inc body (inc it ?h) = Some ([], inc it ?h)"
      by (simp add: neq_slow_def)
    then show ?thesis using Nil n ne less.prems(2) by (simp add: k survivors_Cons survivors_def)
  next
    case (Cons z ws)
    with b have n: "icurrent (inc it ?h) it = z" "z \<noteq> 0" "inv (inc it ?h) (?f xs) ws" using inc_Cons by auto
    have len: "Suc (length ws) \<le> length zs" using Cons length_filter_le [of _ zs] by (metis length_Cons)
    have "\<exists>h'. range_for (Suc k) it inc body (inc it ?h) = Some (visited rm (z # ws), h')
           \<and> inv h' (survivors rm (visited rm (z # ws)) (?f xs)) []"
      using len less.prems(4) n by (intro less.hyps) (auto simp: k)
    then show ?thesis using Cons ne less.prems(2) by (auto simp: k survivors_Cons simp del: range_for.simps)
        (auto simp: ne survivors_Cons)
  qed
qed

end

section \<open>The registered iterator\<close>

text \<open>
  The iterator is registered with the node that comes next, and with no node is another one: so
  \<^verbatim>\<open>unlink\<close> moves it on.
\<close>

definition slow_inv :: "ptr \<Rightarrow> ptr \<Rightarrow> zheap \<Rightarrow> ptr list \<Rightarrow> ptr list \<Rightarrow> bool" where
  "slow_inv l it h xs zs \<longleftrightarrow>
     (\<exists>us. xs = us @ zs) \<and> zun_list h l xs \<and> it \<noteq> 0 \<and> inext h it = first zs
     \<and> (zs \<noteq> [] \<longrightarrow> ziter h (hd zs) = it) \<and> (\<forall>y\<in>set xs. ziter h y \<in> {0, it}) \<and> icurrent h it \<notin> set zs"


lemma zun_list_next:
  assumes "zun_list h l (us @ z # zs)"
  shows "znext h z = first zs" "z \<noteq> 0" "z \<notin> set us" "z \<notin> set zs"
  using assms by (cases zs; simp add: zun_list_split)+

lemma zun_list_cong:
  assumes "znext h' = znext h" "zprev h' = zprev h" "zlist h' = zlist h" "ztail h' = ztail h"
  shows "zun_list h' l xs = zun_list h l xs"
  using assms by (simp add: zun_list_def)

lemma inc_slow_members:
  "znext (inc_slow it h) = znext h" "zprev (inc_slow it h) = zprev h" "zlist (inc_slow it h) = zlist h"
  "ztail (inc_slow it h) = ztail h"
  "icurrent (inc_slow it h) = (icurrent h)(it := inext h it)"
  "inext (inc_slow it h) = (inext h)(it := if inext h it = 0 then 0 else znext h (inext h it))"
  by (auto simp: inc_slow_def heap_simps fun_eq_iff)

lemma inc_slow_ziter:
  "ziter (inc_slow it h) =
     (let r = (if icurrent h it \<noteq> 0 then (ziter h)(icurrent h it := 0) else ziter h)
      in if inext h it \<noteq> 0 \<and> znext h (inext h it) \<noteq> 0 then r(znext h (inext h it) := it) else r)"
  by (auto simp: inc_slow_def heap_simps fun_eq_iff)

lemma slow_inc_Cons:
  assumes "slow_inv l it h xs (z # zs)"
  shows "icurrent (inc_slow it h) it = z" "z \<noteq> 0" "slow_inv l it (inc_slow it h) xs zs"
proof -
  obtain us where xs: "xs = us @ z # zs" using assms by (auto simp: slow_inv_def)
  have Z: "zun_list h l xs" "it \<noteq> 0" "inext h it = z" "ziter h z = it" "icurrent h it \<notin> set (z # zs)"
    "\<forall>y\<in>set xs. ziter h y \<in> {0, it}"
    using assms by (simp_all add: slow_inv_def)
  note N = zun_list_next [OF Z(1) [unfolded xs]]
  show "z \<noteq> 0" by (rule N)
  show "icurrent (inc_slow it h) it = z" using Z by (simp add: inc_slow_members)
  have nx: "inext (inc_slow it h) it = first zs" using Z N by (simp add: inc_slow_members)
  have zn: "ziter (inc_slow it h) (hd zs) = it" if "zs \<noteq> []"
    using that Z N Z(1) [unfolded xs] by (cases zs) (auto simp: inc_slow_ziter Let_def zun_list_def)
  have za: "ziter (inc_slow it h) y \<in> {0, it}" if "y \<in> set xs" for y
    using that Z(6) by (auto simp: inc_slow_ziter Let_def)
  show "slow_inv l it (inc_slow it h) xs zs"
    using Z N nx zn za xs
    by (auto simp: slow_inv_def inc_slow_members zun_list_cong [of "inc_slow it h" h])
qed

lemma slow_inc_Nil:
  assumes "slow_inv l it h xs []"
  shows "icurrent (inc_slow it h) it = 0" "slow_inv l it (inc_slow it h) xs []"
proof -
  have Z: "zun_list h l xs" "it \<noteq> 0" "inext h it = 0" "\<forall>y\<in>set xs. ziter h y \<in> {0, it}"
    using assms by (simp_all add: slow_inv_def)
  show "icurrent (inc_slow it h) it = 0" using Z by (simp add: inc_slow_members)
  show "slow_inv l it (inc_slow it h) xs []"
    using Z by (simp add: slow_inv_def inc_slow_members zun_list_cong [of "inc_slow it h" h])
      (simp add: inc_slow_ziter)
qed

lemma slow_unlink_next:
  assumes "slow_inv l it h xs zs" "y \<in> set xs"
  shows "inext (unlink y h) it = first (filter (\<lambda>x. x \<noteq> y) zs)
      \<and> (filter (\<lambda>x. x \<noteq> y) zs \<noteq> [] \<longrightarrow> ziter (unlink y h) (hd (filter (\<lambda>x. x \<noteq> y) zs)) = it)"
proof -
  obtain us where xs: "xs = us @ zs" using assms by (auto simp: slow_inv_def)
  have Z: "zun_list h l xs" "it \<noteq> 0" "inext h it = first zs" "zs \<noteq> [] \<Longrightarrow> ziter h (hd zs) = it"
    "\<forall>y\<in>set xs. ziter h y \<in> {0, it}"
    using assms by (simp_all add: slow_inv_def)
  have y: "y \<noteq> 0" "0 \<notin> set zs" using Z(1) assms(2) by (auto simp: zun_list_def xs)
  show ?thesis
  proof (cases zs)
    case Nil
    then show ?thesis using Z(3) y by (simp add: unlink_members unlink_impl_iterators)
  next
    case (Cons z ws)
    note N = zun_list_next [OF Z(1) [unfolded xs Cons]]
    show ?thesis
    proof (cases "z = y")
      case True
      then have f: "filter (\<lambda>x. x \<noteq> y) zs = ws" using N(4) Cons by (auto intro!: filter_True)
      have "ws \<noteq> [] \<Longrightarrow> hd ws \<noteq> 0 \<and> first ws = hd ws \<and> hd ws \<noteq> y"
        using Cons y N(4) True by (cases ws) auto
      then show ?thesis unfolding f using Z N True Cons
        by (auto simp: unlink_members unlink_impl_iterators)
    next
      case False
      moreover have "ziter h y = 0 \<or> ziter h y = it" using Z(5) assms(2) by auto
      ultimately show ?thesis using Z(2-4) Cons by (auto simp: unlink_members unlink_impl_iterators)
    qed
  qed
qed

lemma slow_unlink:
  assumes "slow_inv l it h xs zs" "y \<in> set xs"
  shows "slow_inv l it (unlink y h) (filter (\<lambda>x. x \<noteq> y) xs) (filter (\<lambda>x. x \<noteq> y) zs)"
proof -
  obtain us where xs: "xs = us @ zs" using assms by (auto simp: slow_inv_def)
  have Z: "zun_list h l xs" "it \<noteq> 0" "inext h it = first zs" "zs \<noteq> [] \<Longrightarrow> ziter h (hd zs) = it"
    "icurrent h it \<notin> set zs" "\<forall>y\<in>set xs. ziter h y \<in> {0, it}"
    using assms by (simp_all add: slow_inv_def)
  have y: "y \<noteq> 0" "0 \<notin> set zs" "distinct zs" using Z(1) assms(2) by (auto simp: zun_list_def xs)
  have L: "zun_list (unlink y h) l (filter (\<lambda>x. x \<noteq> y) xs)" by (rule zun_list_unlink) fact+
  have za: "\<forall>x\<in>set (filter (\<lambda>x. x \<noteq> y) xs). ziter (unlink y h) x \<in> {0, it}"
    using Z(6) assms(2) by (auto simp: unlink_members unlink_impl_iterators)
  have c: "icurrent (unlink y h) it \<notin> set (filter (\<lambda>x. x \<noteq> y) zs)"
    using Z(5) y by (auto simp: unlink_members unlink_impl_iterators)
  have "\<exists>vs. filter (\<lambda>x. x \<noteq> y) xs = vs @ filter (\<lambda>x. x \<noteq> y) zs" by (simp add: xs)
  then show ?thesis unfolding slow_inv_def using L za c Z(2) slow_unlink_next [OF assms] by blast
qed

lemma slow_remove_each:
  assumes "slow_inv l it h xs zs"
  shows "slow_inv l it (remove_each unlink l ys h) (filter (\<lambda>x. x \<notin> set ys) xs) (filter (\<lambda>x. x \<notin> set ys) zs)"
  using assms
proof (induction ys arbitrary: h xs zs)
  case (Cons y ys)
  have f: "filter (\<lambda>x. x \<notin> set (y # ys)) vs = filter (\<lambda>x. x \<notin> set ys) (filter (\<lambda>x. x \<noteq> y) vs)" for vs
    by (induction vs) auto
  have ly: "zlist h y = l \<longleftrightarrow> y \<in> set xs" and sub: "set zs \<subseteq> set xs"
    using Cons.prems by (simp_all add: slow_inv_def zun_list_def) auto
  have *: "slow_inv l it (if zlist h y = l then unlink y h else h)
      (filter (\<lambda>x. x \<noteq> y) xs) (filter (\<lambda>x. x \<noteq> y) zs)"
  proof (cases "y \<in> set xs")
    case True
    then show ?thesis using slow_unlink [OF Cons.prems True] by (simp add: ly)
  next
    case False
    then have "filter (\<lambda>x. x \<noteq> y) xs = xs" "filter (\<lambda>x. x \<noteq> y) zs = zs"
      using sub by (auto intro!: filter_True)
    then show ?thesis using Cons.prems False by (simp add: ly)
  qed
  show ?case using Cons.IH [OF *] unfolding f by (simp add: remove_each_def)
qed (simp add: remove_each_def)

interpretation registered: removing_loop "slow_inv l it" it inc_slow "\<lambda>x. remove_each unlink l (rm x)" rm
  for l it rm
  by unfold_locales (auto simp: slow_inc_Cons slow_inc_Nil slow_remove_each)

lemma list_begin_members:
  "znext (list_begin_impl l it h) = znext h" "zprev (list_begin_impl l it h) = zprev h"
  "zlist (list_begin_impl l it h) = zlist h" "ztail (list_begin_impl l it h) = ztail h"
  "icurrent (list_begin_impl l it h) = (icurrent h)(it := znext h l)"
  "inext (list_begin_impl l it h) = (inext h)(it := if znext h l = 0 then 0 else znext h (znext h l))"
  "ziter (list_begin_impl l it h) =
     (let r = (if znext h l \<noteq> 0 then (ziter h)(znext h l := 0) else ziter h)
      in if znext h l \<noteq> 0 \<and> znext h (znext h l) \<noteq> 0 then r(znext h (znext h l) := it) else r)"
  by (auto simp: list_begin_impl_def iter_set_def heap_simps fun_eq_iff)

lemma zun_list_start:
  assumes "zun_list h l (x # xs)"
  shows "znext h l = x" "x \<noteq> 0" "x \<notin> set xs" "znext h x = first xs" "0 \<notin> set xs"
proof -
  have "zun_list h l ([] @ x # xs)" using assms by simp
  from zun_list_next [OF this] show "x \<noteq> 0" "x \<notin> set xs" "znext h x = first xs" by simp_all
  have "segment (znext h) (zprev h) l (x # xs)" "0 \<notin> set (l # x # xs)"
    using assms unfolding zun_list_def by blast+
  then show "znext h l = x" "0 \<notin> set xs" by simp_all
qed

lemma slow_begin:
  assumes "zun_list h l (x # xs)" "it \<noteq> 0" "\<forall>y\<in>set (x # xs). ziter h y = 0"
  shows "slow_inv l it (list_begin_impl l it h) (x # xs) xs"
proof -
  note x = zun_list_start [OF assms(1)]
  have hd: "xs \<noteq> [] \<Longrightarrow> hd xs = first xs \<and> first xs \<noteq> 0"
    using x(5) by (cases xs) auto
  have z: "\<forall>y\<in>set (x # xs). ziter (list_begin_impl l it h) y \<in> {0, it}"
    using assms(3) by (simp add: list_begin_members Let_def)
  have h: "xs \<noteq> [] \<Longrightarrow> ziter (list_begin_impl l it h) (hd xs) = it"
    using hd x by (simp add: list_begin_members Let_def)
  have L: "zun_list (list_begin_impl l it h) l (x # xs)"
    using assms(1) by (simp add: zun_list_cong [of "list_begin_impl l it h" h] list_begin_members)
  have i: "inext (list_begin_impl l it h) it = first xs" "icurrent (list_begin_impl l it h) it = x"
    using x by (simp_all add: list_begin_members)
  have "\<exists>us. x # xs = us @ xs" by (rule exI [of _ "[x]"]) simp
  then show ?thesis unfolding slow_inv_def
    using L z assms(2) x(3) h i by blast
qed

section \<open>The plain iterator\<close>

definition fast_inv :: "ptr \<Rightarrow> ptr \<Rightarrow> zheap \<Rightarrow> ptr list \<Rightarrow> ptr list \<Rightarrow> bool" where
  "fast_inv l it h xs zs \<longleftrightarrow>
     (\<exists>us. xs = us @ zs) \<and> zun_list h l xs \<and> inext h it = first zs \<and> (\<forall>y\<in>set xs. ziter h y = 0)
     \<and> icurrent h it \<notin> set zs"

lemma inc_fast_members:
  "znext (inc_fast it h) = znext h" "zprev (inc_fast it h) = zprev h" "zlist (inc_fast it h) = zlist h"
  "ztail (inc_fast it h) = ztail h" "ziter (inc_fast it h) = ziter h"
  "icurrent (inc_fast it h) = (icurrent h)(it := inext h it)"
  "inext (inc_fast it h) = (inext h)(it := if inext h it = 0 then 0 else znext h (inext h it))"
  by (auto simp: inc_fast_def Let_def fun_eq_iff)

lemma fast_inc_Cons:
  assumes "fast_inv l it h xs (z # zs)"
  shows "icurrent (inc_fast it h) it = z" "z \<noteq> 0" "fast_inv l it (inc_fast it h) xs zs"
proof -
  obtain us where xs: "xs = us @ z # zs" using assms by (auto simp: fast_inv_def)
  have Z: "zun_list h l xs" "inext h it = z" "\<forall>y\<in>set xs. ziter h y = 0"
    using assms by (simp_all add: fast_inv_def)
  note N = zun_list_next [OF Z(1) [unfolded xs]]
  show "z \<noteq> 0" by (rule N)
  show "icurrent (inc_fast it h) it = z" using Z by (simp add: inc_fast_members)
  have "\<exists>vs. xs = vs @ zs" by (rule exI [of _ "us @ [z]"]) (simp add: xs)
  then show "fast_inv l it (inc_fast it h) xs zs"
    unfolding fast_inv_def using Z N
    by (simp add: inc_fast_members zun_list_cong [of "inc_fast it h" h])
qed

lemma fast_inc_Nil:
  assumes "fast_inv l it h xs []"
  shows "icurrent (inc_fast it h) it = 0" "fast_inv l it (inc_fast it h) xs []"
  using assms by (simp_all add: fast_inv_def inc_fast_members zun_list_cong [of "inc_fast it h" h])

lemma fast_unlink:
  assumes "fast_inv l it h xs zs" "y \<in> set xs" "y \<notin> set zs"
  shows "fast_inv l it (unlink_fast y h) (filter (\<lambda>x. x \<noteq> y) xs) zs"
proof -
  obtain us where xs: "xs = us @ zs" using assms by (auto simp: fast_inv_def)
  have Z: "zun_list h l xs" "inext h it = first zs" "icurrent h it \<notin> set zs" "\<forall>x\<in>set xs. ziter h x = 0"
    using assms by (simp_all add: fast_inv_def)
  have zy: "ziter h y = 0" using Z(4) assms(2) by auto
  have "filter (\<lambda>x. x \<noteq> y) zs = zs" using assms(3) by (auto intro!: filter_True)
  then have "\<exists>vs. filter (\<lambda>x. x \<noteq> y) xs = vs @ zs" by (simp add: xs)
  then show ?thesis
    unfolding fast_inv_def unlink_fast_eq [OF zy] using zun_list_unlink [OF Z(1) assms(2)] Z(2-4) zy
    by (auto simp: unlink_members unlink_impl_iterators)
qed

lemma fast_remove_each:
  assumes "fast_inv l it h xs zs" "set ys \<subseteq> {icurrent h it}" "distinct ys"
  shows "fast_inv l it (remove_each unlink_fast l ys h)
           (filter (\<lambda>x. x \<notin> set ys) xs) (filter (\<lambda>x. x \<notin> set ys) zs)"
proof (cases ys)
  case (Cons y ws)
  then have ys: "ys = [icurrent h it]" using assms(2,3) by (cases ws) auto
  have c: "icurrent h it \<notin> set zs" and z: "zlist h (icurrent h it) = l \<longleftrightarrow> icurrent h it \<in> set xs"
    using assms(1) by (simp_all add: fast_inv_def zun_list_def)
  have "filter (\<lambda>x. x \<noteq> icurrent h it) zs = zs" using c by (auto intro!: filter_True)
  moreover have "icurrent h it \<notin> set xs \<Longrightarrow> filter (\<lambda>x. x \<noteq> icurrent h it) xs = xs"
    by (auto intro!: filter_True)
  ultimately show ?thesis
    using fast_unlink [OF assms(1) _ c] assms(1) by (auto simp: ys remove_each_def z)
qed (use assms in \<open>simp add: remove_each_def\<close>)

lemma list_begin_fast_members:
  "znext (list_begin_fast l it h) = znext h" "zprev (list_begin_fast l it h) = zprev h"
  "zlist (list_begin_fast l it h) = zlist h" "ztail (list_begin_fast l it h) = ztail h"
  "ziter (list_begin_fast l it h) = ziter h"
  "icurrent (list_begin_fast l it h) = (icurrent h)(it := znext h l)"
  "inext (list_begin_fast l it h) = (inext h)(it := if znext h l = 0 then 0 else znext h (znext h l))"
  by (auto simp: list_begin_fast_def iter_set_fast_def Let_def fun_eq_iff)

lemma fast_begin:
  assumes "zun_list h l (x # xs)" "\<forall>y\<in>set (x # xs). ziter h y = 0"
  shows "fast_inv l it (list_begin_fast l it h) (x # xs) xs"
proof -
  note x = zun_list_start [OF assms(1)]
  have L: "zun_list (list_begin_fast l it h) l (x # xs)"
    using assms(1) by (simp add: zun_list_cong [of "list_begin_fast l it h" h] list_begin_fast_members)
  have i: "inext (list_begin_fast l it h) it = first xs" "icurrent (list_begin_fast l it h) it = x"
    using x by (simp_all add: list_begin_fast_members)
  have z: "\<forall>y\<in>set (x # xs). ziter (list_begin_fast l it h) y = 0"
    using assms(2) by (simp add: list_begin_fast_members)
  have "\<exists>us. x # xs = us @ xs" by (rule exI [of _ "[x]"]) simp
  then show ?thesis unfolding fast_inv_def using L i z x(3) by blast
qed

definition self_if :: "(ptr \<Rightarrow> bool) \<Rightarrow> ptr \<Rightarrow> ptr list" where
  "self_if p x = (if p x then [x] else [])"

lemma fast_body:
  assumes "fast_inv l it h xs zs"
  shows "fast_inv l it (remove_each unlink_fast l (self_if p (icurrent h it)) h)
    (filter (\<lambda>y. y \<notin> set (self_if p (icurrent h it))) xs) (filter (\<lambda>y. y \<notin> set (self_if p (icurrent h it))) zs)"
  by (rule fast_remove_each [OF assms]) (auto simp: self_if_def)

interpretation plain: removing_loop "fast_inv l it" it inc_fast "\<lambda>x. remove_each unlink_fast l (self_if p x)" "self_if p"
  for l it p
  by unfold_locales (simp_all add: fast_inc_Cons fast_inc_Nil fast_body)

lemma visited_self_if: "distinct xs \<Longrightarrow> visited (self_if p) xs = xs"
proof (induction xs)
  case (Cons x xs)
  then have "filter (\<lambda>y. y \<notin> set (self_if p x)) xs = xs" by (auto simp: self_if_def intro!: filter_True)
  with Cons show ?case by simp
qed simp

lemma survivors_self_if: "survivors (self_if p) xs xs = filter (\<lambda>x. \<not> p x) xs"
  by (auto simp: survivors_def self_if_def intro!: filter_cong)

lemma registered_loop:
  assumes "zun_list h l xs" "it \<noteq> 0" "\<forall>y\<in>set xs. ziter h y = 0" "length xs < fuel"
  shows "\<exists>h'. range_for fuel it inc_slow (\<lambda>x. remove_each unlink l (rm x)) (list_begin_impl l it h)
             = Some (visited rm xs, h')
           \<and> zun_list h' l (survivors rm (visited rm xs) xs)"
proof (cases xs)
  case Nil
  then have "znext h l = 0" using assms(1) by (simp add: zun_list_def)
  moreover obtain k where "fuel = Suc k" using assms(4) by (cases fuel) auto
  ultimately show ?thesis using Nil assms(1)
    by (simp add: neq_slow_def list_begin_members survivors_def zun_list_cong [of "list_begin_impl l it h" h])
next
  case (Cons x ys)
  note Z = assms [unfolded Cons]
  have "slow_inv l it (list_begin_impl l it h) xs ys" unfolding Cons by (rule slow_begin) (use Z in auto)
  from registered.loop_from [OF this, of x fuel rm]
  show ?thesis using zun_list_start [OF Z(1)] Z(4)
    by (auto simp: Cons list_begin_members slow_inv_def)
qed

lemma plain_loop:
  assumes "zun_list h l xs" "\<forall>y\<in>set xs. ziter h y = 0" "length xs < fuel"
  shows "\<exists>h'. range_for fuel it inc_fast (\<lambda>x. remove_each unlink_fast l (self_if p x)) (list_begin_fast l it h)
             = Some (xs, h')
           \<and> zun_list h' l (filter (\<lambda>x. \<not> p x) xs)"
proof (cases xs)
  case Nil
  then have "znext h l = 0" using assms(1) by (simp add: zun_list_def)
  moreover obtain k where "fuel = Suc k" using assms(3) by (cases fuel) auto
  ultimately show ?thesis using Nil assms(1)
    by (simp add: neq_slow_def list_begin_fast_members zun_list_cong [of "list_begin_fast l it h" h])
next
  case (Cons x ys)
  note Z = assms [unfolded Cons]
  have d: "distinct xs" using assms(1) by (simp add: zun_list_def)
  have "fast_inv l it (list_begin_fast l it h) xs ys" unfolding Cons by (rule fast_begin) (use Z in auto)
  from plain.loop_from [OF this, of x fuel p]
  have "\<exists>h'. range_for fuel it inc_fast (\<lambda>x. remove_each unlink_fast l (self_if p x)) (list_begin_fast l it h)
          = Some (visited (self_if p) xs, h') \<and> fast_inv l it h' (survivors (self_if p) (visited (self_if p) xs) xs) []"
    using zun_list_start [OF Z(1)] Z(3) by (simp add: list_begin_fast_members Cons del: visited.simps)
  then show ?thesis by (auto simp: visited_self_if [OF d] survivors_self_if fast_inv_def)
qed

section \<open>Properties\<close>

text \<open>A list object at address 10 with the nodes 1 to 4.\<close>

definition blank :: zheap where
  "blank = \<lparr>zdata = \<lambda>_. 0, znext = \<lambda>_. 0, zprev = \<lambda>_. 0, zlist = \<lambda>_. 0, ziter = \<lambda>_. 0, ztail = \<lambda>_. 0,
     icurrent = \<lambda>_. 0, inext = \<lambda>_. 0\<rparr>"

definition four :: zheap where
  "four = list_append 10 4 (list_append 10 3 (list_append 10 2 (list_append 10 1 (list_new 10 blank))))"

lemma four_members:
  "znext four = (\<lambda>_. 0)(10 := 1, 1 := 2, 2 := 3, 3 := 4)"
  "zprev four = (\<lambda>_. 0)(1 := 10, 2 := 1, 3 := 2, 4 := 3)"
  "zlist four = (\<lambda>_. 0)(1 := 10, 2 := 10, 3 := 10, 4 := 10)"
  "ziter four = (\<lambda>_. 0)" "zdata four = (\<lambda>_. 0)" "ztail four = (\<lambda>_. 0)(10 := 4)"
  by (auto simp: four_def blank_def list_append_def node_append_def list_new_def node_new_def heap_simps fun_eq_iff)

lemma four_list: "zun_list four 10 [1, 2, 3, 4]"
  by (auto simp: zun_list_def four_members)

text \<open>C20: The list operations refine those on the list of the nodes: append of a node that is in no
  list puts it at the end, unlink of a node takes it out, find_end_node finds the last and
  find_node_with_data the first with the data, in at most one turn for each node and one more.\<close>

theorem list_operations_refine:
  assumes "zun_list h l xs" "length xs + 1 < fuel"
  shows "(n \<noteq> 0 \<longrightarrow> n \<notin> set (l # xs) \<longrightarrow> znext h n = 0 \<longrightarrow> zun_list (list_append l n h) l (xs @ [n]))
    \<and> (y \<in> set xs \<longrightarrow> zun_list (unlink y h) l (filter (\<lambda>z. z \<noteq> y) xs))
    \<and> find_end_node fuel l h = Some (last_from l xs)
    \<and> find_node_with_data_impl fuel l d h = Some (first (filter (\<lambda>x. zdata h x = d) (l # xs)))"
proof -
  have Z: "segment (znext h) (zprev h) l xs" "znext h (last_from l xs) = 0" "0 \<notin> set (l # xs)"
    using assms(1) unfolding zun_list_def by blast+
  show ?thesis
    using zun_list_append [OF assms(1)] zun_list_unlink [OF assms(1)] find_end_node_list [OF Z(1,2)]
      find_node_with_data_list [OF Z] Z(3) assms(2)
    by simp
qed

theorem list_operations_refine_witness:
  "zun_list (list_append 10 5 four) 10 [1, 2, 3, 4, 5] \<and> zun_list (unlink 4 four) 10 [1, 2, 3]
   \<and> find_end_node 6 10 four = Some 4 \<and> find_node_with_data_impl 6 10 7 four = Some 0"
  using list_operations_refine [OF four_list, of 6 5 4 7] by (simp add: four_members)

text \<open>C19: A loop may unlink nodes while it runs: where the iterator has an address and no node of
  the list has an iterator registered when the loop starts (so no other loop is in progress over it),
  for (iter = list.begin(); iter != NULL; ++iter) with a body that unlinks any nodes of the list, the
  current, the next or others, ends after at most one turn for each node, is run on the nodes that no
  earlier turn has unlinked, in their order, and leaves the list of the nodes that no turn has
  unlinked.\<close>

theorem loop_survives_unlink:
  assumes "zun_list h l xs" "it \<noteq> 0" "\<forall>y\<in>set xs. ziter h y = 0" "length xs < fuel"
  shows "\<exists>h'. range_for fuel it inc_slow (\<lambda>x. remove_each unlink l (rm x)) (list_begin_impl l it h)
             = Some (visited rm xs, h')
           \<and> zun_list h' l (survivors rm (visited rm xs) xs)"
  using assms by (rule registered_loop)

theorem loop_survives_unlink_witness:
  "\<exists>h'. range_for 5 20 inc_slow (\<lambda>x. remove_each unlink 10 (if x = 2 then [2, 3] else [])) (list_begin_impl 10 20 four)
           = Some ([1, 2, 4], h')
         \<and> zun_list h' 10 [1, 4]"
  using loop_survives_unlink [OF four_list, of 20 5 "\<lambda>x. if x = 2 then [2, 3] else []"]
  by (simp add: four_members survivors_def)

text \<open>C21: Where no iterator is registered with the nodes of a list, the replacements do what the
  originals do: append_fast of a node that is not in the list (and is not the list object) makes the
  same heap as append; unlink_fast of a node of the list makes the same heap as unlink.  The two forms
  that do not clear agree with each other in result and heap, and differ from unlink in what they
  leave in the members of the removed node only: clearing the node afterwards gives the heap unlink
  makes.  And a loop with the plain iterator whose body unlinks no other node than the current runs
  over the same nodes as the loop with the registered iterator, and leaves the same list.\<close>

theorem replacements_agree:
  assumes "zun_list h l xs" "it \<noteq> 0" "\<forall>y\<in>set xs. ziter h y = 0" "length xs < fuel"
  shows "(n \<notin> set (l # xs) \<longrightarrow> list_append_fast l n h = list_append l n h)
    \<and> (y \<in> set xs \<longrightarrow> unlink_fast y h = unlink y h
         \<and> unlink_fast_always_tail_no_clear y h = Some (unlink_fast_no_clear y h)
         \<and> clear_vec y (snd (unlink_fast_no_clear y h)) = unlink y h)
    \<and> (\<exists>h1 h2. range_for fuel it inc_slow (\<lambda>x. remove_each unlink l (self_if p x)) (list_begin_impl l it h) = Some (xs, h1)
         \<and> range_for fuel it inc_fast (\<lambda>x. remove_each unlink_fast l (self_if p x)) (list_begin_fast l it h) = Some (xs, h2)
         \<and> zun_list h1 l (filter (\<lambda>x. \<not> p x) xs) \<and> zun_list h2 l (filter (\<lambda>x. \<not> p x) xs))"
proof -
  have d: "distinct xs" and t: "ztail h l \<in> set (l # xs)" and m: "\<And>y. zlist h y = l \<longleftrightarrow> y \<in> set xs" and l: "l \<noteq> 0"
    using assms(1) last_from_in [of l xs] by (auto simp: zun_list_def)
  have "y \<in> set xs \<Longrightarrow> ziter h y = 0" "y \<in> set xs \<Longrightarrow> zlist h y \<noteq> 0"
    using assms(3) m [of y] l by auto
  moreover have "n \<notin> set (l # xs) \<Longrightarrow> n \<noteq> ztail h l" using t by blast
  ultimately show ?thesis
    using registered_loop [OF assms, of "self_if p"] plain_loop [OF assms(1,3,4), of it p]
    by (auto simp: list_append_fast_eq unlink_fast_eq unlink_no_clear_eq(3) unlink_no_clear_eq(1) [symmetric]
        visited_self_if [OF d] survivors_self_if)
qed

theorem replacements_agree_witness:
  "list_append_fast 10 5 four = list_append 10 5 four \<and> unlink_fast 4 four = unlink 4 four
   \<and> (\<exists>h1 h2. range_for 5 20 inc_slow (\<lambda>x. remove_each unlink 10 (self_if even x)) (list_begin_impl 10 20 four) = Some ([1, 2, 3, 4], h1)
        \<and> range_for 5 20 inc_fast (\<lambda>x. remove_each unlink_fast 10 (self_if even x)) (list_begin_fast 10 20 four) = Some ([1, 2, 3, 4], h2)
        \<and> zun_list h1 10 [1, 3] \<and> zun_list h2 10 [1, 3])"
  using replacements_agree [OF four_list, of 20 5 5 4 even] by (simp add: four_members)

section \<open>Where they differ\<close>

text \<open>A loop with the plain iterator whose body unlinks the next node is run on it nevertheless, and
  not on the nodes behind it.\<close>

lemma plain_iterator_misses:
  "map_option fst (range_for 9 20 inc_fast (\<lambda>x. remove_each unlink_fast 10 (if x = 2 then [3] else []))
     (list_begin_fast 10 20 four)) = Some [1, 2, 3]"
  "map_option fst (range_for 9 20 inc_slow (\<lambda>x. remove_each unlink 10 (if x = 2 then [3] else []))
     (list_begin_impl 10 20 four)) = Some [1, 2, 4]"
  by code_simp+

text \<open>\<^verbatim>\<open>prepend_fast\<close> copies the list's own \<^verbatim>\<open>list\<close> member, which is \<^verbatim>\<open>NULL\<close>: the node can be unlinked, but
  stays the tail, and what is appended next is lost.\<close>

lemma prepend_fast_stale_tail:
  assumes "h = list_append 10 2 (unlink 1 (list_prepend_fast 10 1 (list_new 10 blank)))"
  shows "znext h 10 = 0" "ztail h 10 = 2" "zprev h 2 = 1"
  unfolding assms by code_simp+

text \<open>\<^verbatim>\<open>prepend\<close> links the node in front of the list object: no loop is run on it, and when the list was
  empty, on none that is appended later.\<close>

lemma prepend_is_not_visited:
  "map_option fst (range_for 9 20 inc_slow (\<lambda>x. id) (list_begin_impl 10 20 (list_prepend 10 5 four))) = Some [1, 2, 3, 4]"
  "znext (list_append 10 2 (list_prepend 10 1 (list_new 10 blank))) 10 = 0"
  by code_simp+

text \<open>\<^verbatim>\<open>set\<close> deletes the registration of the node it makes the current one: when the first turn unlinks
  that node, the iterator keeps it, and \<^verbatim>\<open>++\<close> writes through it; of every later node \<^verbatim>\<open>unlink\<close> tells the
  iterator.\<close>

lemma first_node_stays_current:
  assumes "zun_list h l (x # xs)" "it \<noteq> 0" "\<forall>y\<in>set (x # xs). ziter h y = 0"
  shows "icurrent (unlink x (list_begin_impl l it h)) it = x"
proof -
  have z: "ziter h x = 0" "x \<noteq> 0" using assms(1,3) by (auto simp: zun_list_def)
  note x = zun_list_start [OF assms(1)]
  have "znext h x \<noteq> x" using x(3,2,4) by (cases xs) auto
  then have "ziter (list_begin_impl l it h) x = 0" using x(1) z by (simp add: list_begin_members Let_def)
  then show ?thesis using x(1) by (simp add: unlink_members unlink_impl_iterators list_begin_members)
qed

lemma later_node_is_forgotten:
  assumes "slow_inv l it h xs (z # zs)"
  shows "icurrent (unlink z (inc_slow it h)) it = 0"
proof -
  obtain us where xs: "xs = us @ z # zs" using assms by (auto simp: slow_inv_def)
  have Z: "zun_list h l xs" "it \<noteq> 0" "inext h it = z" "ziter h z = it" "icurrent h it \<noteq> z"
    using assms by (auto simp: slow_inv_def)
  have "ziter (inc_slow it h) z = it" "icurrent (inc_slow it h) it = z"
    using Z slow_inc_Cons(2) [OF assms] by (auto simp: inc_slow_ziter inc_slow_members Let_def)
  then show ?thesis using Z(2) by (simp add: unlink_members unlink_impl_iterators)
qed

text \<open>A node has room for one iterator: of two loops that are at the same node, the one that came
  first is not told.\<close>

lemma second_iterator_takes_over:
  assumes "h = list_begin_impl 10 21 (list_begin_impl 10 20 four)"
  shows "inext (unlink 2 h) 21 = 3" "inext (unlink 2 h) 20 = 2"
  unfolding assms by code_simp+

end
