(* ===== verification/Spec2Isabelle.thy ===== *)
theory Spec2Isabelle
  imports Z86_Compare Z86_Progress Z286_Entry Zenc
    Z86_V20 Z86_Simd_Props Sha256_New Utf8 Cnc_Rng
    Zun_List_Props
begin

text \<open>
  A verification library for the z86 processor emulator, \<^verbatim>\<open>src/x86_emulators/\<close>, and for
  smaller programs beside it: a file transformation, two SHA-256 calculations, UTF-8 decoders,
  random number generators and an intrusive list.

  The program.  z86 emulates the x86 family from the 8086 on.  Its parts are a byte-addressed
  memory (\<^verbatim>\<open>z86Memory\<close>), segmented addresses over it (\<^verbatim>\<open>z86AddrImpl\<close>), the register file
  with its flags and the per-instruction context (\<^verbatim>\<open>z86BaseControlBase\<close>,
  \<^verbatim>\<open>z86RegCommon\<close>), the operations of the instruction set (\<^verbatim>\<open>z86Base\<close> in
  \<^verbatim>\<open>z86_core_internal_pre.h\<close>), memory and port accesses behind them
  (\<^verbatim>\<open>z86_core_internal_post.h\<close>), and the decoder and main loop (\<^verbatim>\<open>execute\<close> in
  \<^verbatim>\<open>8086_cpu.cpp\<close>).  The sources are templates over the processor; the library models the
  real-mode instances with 16 bit registers, \<^verbatim>\<open>z8086\<close>, \<^verbatim>\<open>z80186\<close> and
  \<^verbatim>\<open>zNV30\<close>, whose differences are the constants of the record \<open>quirks\<close>, the first
  argument of every definition that reads one, and the protected mode of \<^verbatim>\<open>z80286\<close>, the
  instance that \<^verbatim>\<open>8086_cpu.cpp\<close> builds, whose state \<open>z286Core\<close> extends that of the
  others by the descriptor caches, the privilege level and the machine status word.

  Reading order, one theory per component; each opens with what it models.
  \<^item> \<open>Z86_Prelude\<close>: names for the machine integers, halves of words, the locale \<open>cell\<close> of a
    component of a state that is read and written.
  \<^item> \<open>Z86_Arith\<close>: overflow tests, carry arithmetic and saturation
    (\<^verbatim>\<open>zero/custom_intrin.h\<close>, \<^verbatim>\<open>zero/util.h\<close>).
  \<^item> \<open>Z86_Memory\<close>, \<open>Z86_Addr\<close>: the memory with its A20 gate and block transfers; the
    addresses that wrap inside their segment.
  \<^item> \<open>Z86_Port\<close>: the port device adapters and the dispatch loops; a device is a pair of
    callbacks, the arguments of the definitions.
  \<^item> \<open>Z86_Config\<close>, \<open>Z86_Regs\<close>: the quirks of the cores; registers, byte registers as halves of
    words, flags word, prefixes, reset.
  \<^item> \<open>Z86_Stack\<close>, \<open>Z86_Control\<close>: pushes, pops and frames, whose laws are the locale
    \<open>word_stack\<close>; conditions, transfers, interrupts, halting.
  \<^item> \<open>Z86_ALU\<close>, \<open>Z86_Shift\<close>, \<open>Z86_MulDiv\<close>: the operations on operands of any width, each a
    function from operands and state to the result and the state with its flags.
  \<^item> \<open>Z86_String\<close>: the REP loop, a recursion on CX, and the string instructions.
  \<^item> \<open>Z86_ModRM\<close>, \<open>Z86_Decode\<close>, \<open>Z86_Machine\<close>: addressing modes and operand references, the
    opcode map, and the loop that runs instructions, also as the step relation
    \<open>z86_step\<close>, whose other steps are what the host and other threads do: posting an
    interrupt, waking a halted processor.
  \<^item> \<open>Z86_Compare\<close>: what a conditional jump sees after a comparison.
  \<^item> \<open>Z86_Invariant\<close>: the well-formedness of the core's state and that every operation, every
    opcode and every step keeps it.
  \<^item> \<open>Z86_Progress\<close>: when decoding ends, how halting and faults proceed.
  \<^item> \<open>Z86_V20\<close>: the two-byte opcodes of the V20, reached by the outcome \<open>TwoByte\<close> of the
    opcode map.
  \<^item> \<open>Z86_Vector\<close>, \<open>Z86_Simd\<close>: the packed integer operations on lists of lanes, and the MMX
    and SSE instructions that call them: register files, operand templates and opcode tables,
    which follow the code row by row also where a row calls another operation than its name;
    \<open>Z86_Simd_Props\<close>: what these instructions compute.
  \<^item> \<open>Z286_Descriptor\<close>: descriptors in memory and their caches, the control state, flags and
    stack of the 80286 core; a pointer to a descriptor is its address.
  \<^item> \<open>Z286_Segments\<close>: segment loads, far jumps, calls, returns and IRET in protected mode; the
    chains of checks that jump to a label posting an exception are functions to a sum.
  \<^item> \<open>Z286_Interrupt\<close>: INT, the delivery of pending interrupts with double and triple faults.
  \<^item> \<open>Z286_System\<close>: access queries, the groups 0F 00 and 0F 01, LOADALL and STOREALL.
  \<^item> \<open>Z286_Protection\<close>: the invariant of the privilege level over the step relation
    \<open>z286_step\<close>, and what the checks guarantee.  MOV loads CS with the checks of a data segment,
    so the level in the selector of CS agrees only as long as it does not; both are stated.
  \<^item> \<open>Z286_Delivery\<close>: delivery as a chain of checks; LOADALL as the inverse of STOREALL, but for
    the privilege level, which LOADALL takes from the cached stack descriptor.
  \<^item> \<open>Z286_Real\<close>: the locale \<open>simulation\<close>, and that in real mode the 80286 core refines to the
    real-mode cores; its stack is a \<open>word_stack\<close> too.
  \<^item> \<open>Z286_Gates\<close>: calls and interrupts into an inner level and the returns from them, with what
    they leave of the memory.
  \<^item> \<open>Z286_Entry\<close>: which handler the delivery of an interrupt enters and with which frame, and
    when it is the double fault or the triple fault instead.
  \<^item> \<open>Zenc\<close>: the second program, the file transformation \<^verbatim>\<open>src/zenc.cpp\<close>, on byte lists.
  \<^item> \<open>Sha256\<close>: the standard FIPS 180-4 as functions on byte lists, and the hash
    \<^verbatim>\<open>src/sha256_thcrap.cpp\<close> with its context as a record; \<open>Sha256_New\<close>: the rewritten
    calculation \<^verbatim>\<open>sha256_calc_correct\<close> of \<^verbatim>\<open>src/sha256_new.cpp\<close>.
  \<^item> \<open>Utf8\<close>: the UTF-8 decoders of \<^verbatim>\<open>src/unicode_test.cpp\<close>.
  \<^item> \<open>Cnc_Rng\<close>: the random number generators of \<^verbatim>\<open>src/cnc_rng.h\<close> and
    \<^verbatim>\<open>src/RNG_helpers.h\<close>.
  \<^item> \<open>Zun_List\<close>: the doubly linked list of \<^verbatim>\<open>src/FW/fw_test.cpp\<close>, on a heap with one
    function per member, its iterators and the replacements of its functions;
    \<open>Zun_List_Props\<close>: the lists on that heap, and the loops over them, whose contract is
    the locale \<open>removing_loop\<close>.

  State and errors.  The static members of the core are the record \<open>z86Core\<close>, threaded
  through every operation; a reference to an operand is a value of \<open>operand\<close>, so that aliasing
  with registers or memory is explicit.  A fault is a value: operations that may raise one
  return it in their result, and the decoder maps it to the exception number as the labels of
  the main loop do.

  What the theorems show.  They state the results and flags of the arithmetic as equations
  between integers, the round trips of the stack and of transfers of control over every
  address, including those that wrap at the end of a segment, of rotations, of multiplication
  and division and of encrypted files; the repeated string instructions as block operations; the
  addressing modes as the manual's table; an invariant of every reachable state; when decoding
  ends; of the packed instructions that products are exact, that unpacking and packing are inverse
  and that their 8-byte and 16-byte forms agree; and what the operations do where they differ from
  the processor.  Such a property
  describes the program as it is, for example that the signed jumps after a comparison are
  taken for other orders than their names say.  For the smaller programs they state that both
  hashes compute what the standard defines, on messages of every length, with the constants the
  standard derives from primes; that the decoders are one function, which stays inside its
  buffer, and for which texts it is right; that drawing a number from an interval ends; that the operations on the linked list refine those
  on the list of its nodes, and that a loop over it may unlink any nodes.

  Termination.  The REP loop decreases CX.  The bit scans decrease the number of bits
  left.  A sequence of prefixes may fill the whole segment and never end, so the decoder is a
  partial function to options; \<open>Z86_Progress\<close> shows that this is the only way it does not
  return, so no fuel is used.  The delivery of an interrupt in protected mode calls itself
  once, for the double fault.  The loop of \<open>sha256_calc_correct\<close> has a measure, since
  the second padding block is only made once.  The rejection loop of the random number generator
  has fuel, and \<open>2 ^ 25\<close> turns are proved to be enough for every seed; the loops over a
  linked list have it too, and one turn more than the list has nodes is enough.

  What the language leaves undefined.  A shift of the rotations through the carry by their whole
  width is the constant \<open>undefined\<close>, and the theorem on them names the counts without one.  The
  result of the decryption of \<^verbatim>\<open>src/zenc.cpp\<close> has a value for it, \<open>Undefined\<close>, which covers the
  shifts that are too far, the accesses outside the buffer and the uses of bytes the file did not
  have.

  Arguments for what the source leaves open.  The width of \<^verbatim>\<open>size_t\<close> and the content of
  memory nothing has been written to are arguments of the hash.  The two interrupt routines of the 80286 core read a
  local variable that nothing has been assigned to; its value is the argument \<open>junk\<close>, over
  which the theorems quantify.  A task switch is an empty branch in the source, and so it is here.

  Not modelled.  The 32 and 64 bit cores with paging and their descriptors, the rest of the
  two-byte opcode map, floating point instructions, packed shifts by a register as instructions
  (the code shifts lanes by counts for which C++ gives no meaning) and masked stores, and the trace
  output; of zenc,
  the choice of the output path; the remaining programs of the repository, which run inside
  executables or against services that are not part of it.
\<close>

end
